(* ===== verification/Dtmd_Prelude.thy ===== *)
theory Dtmd_Prelude
  imports Main "HOL-Library.Word" "HOL-Library.Char_ord" "HOL-Library.List_Lexorder"
begin

text \<open>
  The vocabulary shared by all components of dtmd: the result codes of
  \<^verbatim>\<open>daemon/return_codes.h\<close>, C strings and the parts of \<^verbatim>\<open>string.h\<close> and \<^verbatim>\<open>ctype.h\<close> the
  source uses, and the input/output state every daemon operation threads through
  (outcomes of memory allocations, outcomes of writes, and what was written to which
  descriptor).  A C string is a \<open>string\<close> without a NUL byte; a \<open>char *\<close> that may be
  \<open>NULL\<close> is a \<open>string option\<close>.
\<close>

unbundle bit_operations_syntax

named_theorems ctype_simps "definitions of the ctype.h predicates"
named_theorems inv_intros "preservation of the components' invariants"
named_theorems io_simps "effect of the output primitives"

section \<open>Result codes\<close>

text \<open>The five codes, in the order of their numeric values.\<close>

datatype result =
  ResultBug | ResultFatalError | ResultClientError | ResultFail | ResultSuccess

fun result_code :: "result \<Rightarrow> int" where
  "result_code ResultSuccess = 1"
| "result_code ResultFail = 0"
| "result_code ResultClientError = -1"
| "result_code ResultFatalError = -2"
| "result_code ResultBug = -3"

lemma result_code_inj [simp]: "result_code r = result_code s \<longleftrightarrow> r = s"
  by (cases r; cases s) auto

instantiation result :: linorder
begin

definition less_eq_result :: "result \<Rightarrow> result \<Rightarrow> bool" where
  "less_eq_result r s \<longleftrightarrow> result_code r \<le> result_code s"

definition less_result :: "result \<Rightarrow> result \<Rightarrow> bool" where
  "less_result r s \<longleftrightarrow> result_code r < result_code s"

instance
proof
  fix r s t :: result
  show "(r < s) = (r \<le> s \<and> \<not> s \<le> r)"
    by (auto simp: less_eq_result_def less_result_def)
  show "r \<le> r"
    by (simp add: less_eq_result_def)
  show "r \<le> s \<Longrightarrow> s \<le> t \<Longrightarrow> r \<le> t"
    by (simp add: less_eq_result_def)
  show "r \<le> s \<Longrightarrow> s \<le> r \<Longrightarrow> r = s"
    by (simp add: less_eq_result_def flip: result_code_inj)
  show "r \<le> s \<or> s \<le> r"
    by (auto simp: less_eq_result_def)
qed

end

definition is_result_successful :: "result \<Rightarrow> bool" where
  "is_result_successful r \<longleftrightarrow> ResultFail < r"

definition is_result_failure :: "result \<Rightarrow> bool" where
  "is_result_failure r \<longleftrightarrow> r \<le> ResultFail"

definition is_result_nonfatal_error :: "result \<Rightarrow> bool" where
  "is_result_nonfatal_error r \<longleftrightarrow> r = ResultFail"

definition is_result_fatal_error :: "result \<Rightarrow> bool" where
  "is_result_fatal_error r \<longleftrightarrow> r < ResultFail"

lemma is_result_successful_iff [simp]: "is_result_successful r \<longleftrightarrow> r = ResultSuccess"
  by (cases r) (auto simp: is_result_successful_def less_result_def)

lemma is_result_failure_iff [simp]: "is_result_failure r \<longleftrightarrow> r \<noteq> ResultSuccess"
  by (cases r) (auto simp: is_result_failure_def less_eq_result_def)

lemma is_result_fatal_error_iff [simp]:
  "is_result_fatal_error r \<longleftrightarrow> r \<noteq> ResultSuccess \<and> r \<noteq> ResultFail"
  by (cases r) (auto simp: is_result_fatal_error_def less_result_def)

section \<open>C strings\<close>

abbreviation code :: "char \<Rightarrow> nat" where
  "code c \<equiv> of_char c"

text \<open>
  \<open>strcmp\<close> compares bytes as unsigned; only the sign and the zero of its result are used.
  \<open>strncmp\<close> is used for equality only.
\<close>

fun strcmp :: "string \<Rightarrow> string \<Rightarrow> int" where
  "strcmp [] [] = 0"
| "strcmp [] (_ # _) = -1"
| "strcmp (_ # _) [] = 1"
| "strcmp (a # as) (b # bs) =
     (if code a < code b then -1 else if code b < code a then 1 else strcmp as bs)"

definition strncmp_eq :: "string \<Rightarrow> string \<Rightarrow> nat \<Rightarrow> bool" where
  "strncmp_eq a b n \<longleftrightarrow> take n a = take n b"

lemma strcmp_eq_0 [simp]: "strcmp a b = 0 \<longleftrightarrow> a = b"
  by (induction a b rule: strcmp.induct) auto

lemma strcmp_less_0: "strcmp a b < 0 \<longleftrightarrow> a < b"
  by (induction a b rule: strcmp.induct) (auto simp: less_char_def)

text \<open>\<open>char\<close> is signed on the supported platform: the value a \<open>char\<close> has as an \<open>int\<close>.\<close>

definition schar :: "char \<Rightarrow> int" where
  "schar c = (if code c < 128 then int (code c) else int (code c) - 256)"

lemma char_of_code [simp]: "char_of (code c) = c"
  by simp

text \<open>
  \<open>strrchr\<close>: the suffix that starts at the last occurrence of the character.
\<close>

fun strrchr :: "string \<Rightarrow> char \<Rightarrow> string option" where
  "strrchr [] c = None"
| "strrchr (x # xs) c =
     (case strrchr xs c of Some s \<Rightarrow> Some s | None \<Rightarrow> if x = c then Some (x # xs) else None)"

lemma strrchr_Some:
  "strrchr s c = Some t \<Longrightarrow> \<exists>p r. s = p @ t \<and> t = c # r \<and> c \<notin> set r"
proof (induction s)
  case (Cons x xs)
  have none: "strrchr ys c = None \<Longrightarrow> c \<notin> set ys" for ys
    by (induction ys) (auto split: option.splits if_splits)
  show ?case
  proof (cases "strrchr xs c")
    case None
    with Cons.prems none [OF None] show ?thesis
      by (auto split: if_splits)
  next
    case (Some u)
    with Cons obtain p r where "xs = p @ t" "t = c # r" "c \<notin> set r" by auto
    then have "x # xs = (x # p) @ t" "t = c # r" "c \<notin> set r" by auto
    then show ?thesis by blast
  qed
qed simp

text \<open>The conversions \<^verbatim>\<open>%u\<close>, \<^verbatim>\<open>%zu\<close> and \<^verbatim>\<open>%d\<close> of a non-negative number.\<close>

fun decimal :: "nat \<Rightarrow> string" where
  "decimal n = (if n < 10 then [char_of (48 + n)]
                else decimal (n div 10) @ [char_of (48 + n mod 10)])"

declare decimal.simps [simp del]

lemma decimal_not_Nil [simp]: "decimal n \<noteq> []"
  by (subst decimal.simps) simp

lemma decimal_digits: "c \<in> set (decimal n) \<Longrightarrow> 48 \<le> code c \<and> code c \<le> 57"
proof (induction n rule: decimal.induct)
  case (1 n)
  show ?case
  proof (cases "n < 10")
    case True
    with 1 have "c = char_of (48 + n)" by (subst (asm) decimal.simps) simp
    with True show ?thesis by (simp add: of_char_of)
  next
    case False
    then have "c \<in> set (decimal (n div 10)) \<or> c = char_of (48 + n mod 10)"
      using "1.prems" by (subst (asm) decimal.simps) auto
    moreover have "n mod 10 < 10" by simp
    ultimately show ?thesis using "1.IH" [OF False] by (auto simp: of_char_of)
  qed
qed

section \<open>Character classes (C locale)\<close>

definition iscntrl :: "nat \<Rightarrow> bool" where
  [ctype_simps]: "iscntrl k \<longleftrightarrow> k < 32 \<or> k = 127"

definition ispunct :: "nat \<Rightarrow> bool" where
  [ctype_simps]: "ispunct k \<longleftrightarrow>
     (33 \<le> k \<and> k \<le> 47) \<or> (58 \<le> k \<and> k \<le> 64) \<or> (91 \<le> k \<and> k \<le> 96) \<or> (123 \<le> k \<and> k \<le> 126)"

definition isdigit :: "nat \<Rightarrow> bool" where
  [ctype_simps]: "isdigit k \<longleftrightarrow> 48 \<le> k \<and> k \<le> 57"

definition isalpha :: "nat \<Rightarrow> bool" where
  [ctype_simps]: "isalpha k \<longleftrightarrow> (65 \<le> k \<and> k \<le> 90) \<or> (97 \<le> k \<and> k \<le> 122)"

definition isalnum :: "nat \<Rightarrow> bool" where
  [ctype_simps]: "isalnum k \<longleftrightarrow> isalpha k \<or> isdigit k"

definition isxdigit :: "nat \<Rightarrow> bool" where
  [ctype_simps]: "isxdigit k \<longleftrightarrow> isdigit k \<or> (65 \<le> k \<and> k \<le> 70) \<or> (97 \<le> k \<and> k \<le> 102)"

definition isblank :: "nat \<Rightarrow> bool" where
  [ctype_simps]: "isblank k \<longleftrightarrow> k = 32 \<or> k = 9"

definition tolower :: "nat \<Rightarrow> nat" where
  [ctype_simps]: "tolower k = (if 65 \<le> k \<and> k \<le> 90 then k + 32 else k)"

section \<open>Lists\<close>

lemma find_SomeD: "find P xs = Some x \<Longrightarrow> x \<in> set xs \<and> P x"
  by (induction xs) (auto split: if_splits)

section \<open>Output and allocation\<close>

text \<open>
  What the daemon sees of its environment while it runs: whether the coming \<open>malloc\<close>,
  \<open>realloc\<close> or \<open>strdup\<close> calls succeed, whether the coming \<open>dprintf\<close> calls succeed
  (when a list is used up, every further call succeeds), and the log of the text sent to
  each descriptor and of the descriptors closed, oldest first.
  \<open>undefined_seen\<close> is set once the program has executed an
  operation whose behaviour C leaves undefined: nothing is claimed of a run after that.
\<close>

record io =
  allocs :: "bool list"
  writes :: "bool list"
  sent :: "(int \<times> string) list"
  closed :: "int list"
  undefined_seen :: bool

definition quiet_io :: io where
  "quiet_io = \<lparr>allocs = [], writes = [], sent = [], closed = [], undefined_seen = False\<rparr>"

text \<open>\<open>shutdown\<close> and \<open>close\<close> of a socket.\<close>

definition close_fd :: "int \<Rightarrow> io \<Rightarrow> io" where
  "close_fd fd w = w\<lparr>closed := closed w @ [fd]\<rparr>"

definition undefined_behaviour :: "io \<Rightarrow> io" where
  "undefined_behaviour w = w\<lparr>undefined_seen := True\<rparr>"

text \<open>One allocation: does it succeed, and the environment after it.\<close>

definition malloc :: "io \<Rightarrow> bool \<times> io" where
  "malloc w = (case allocs w of [] \<Rightarrow> (True, w) | b # bs \<Rightarrow> (b, w\<lparr>allocs := bs\<rparr>))"

text \<open>
  A run of allocations, each made only when the previous ones succeeded and its own
  condition holds (\<open>strdup\<close> of a field that may be \<open>NULL\<close>).
\<close>

fun malloc_all :: "bool list \<Rightarrow> io \<Rightarrow> bool \<times> io" where
  "malloc_all [] w = (True, w)"
| "malloc_all (False # cs) w = malloc_all cs w"
| "malloc_all (True # cs) w =
     (case malloc w of (ok, w') \<Rightarrow> if ok then malloc_all cs w' else (False, w'))"

text \<open>
  \<open>dprintf\<close> of one already formatted text; a failed call returns a negative number
  (here \<open>False\<close>) and nothing of it is logged.
\<close>

definition dprintf :: "int \<Rightarrow> string \<Rightarrow> io \<Rightarrow> bool \<times> io" where
  "dprintf fd s w = (case writes w of
       [] \<Rightarrow> (True, w\<lparr>sent := sent w @ [(fd, s)]\<rparr>)
     | b # bs \<Rightarrow> if b then (True, w\<lparr>writes := bs, sent := sent w @ [(fd, s)]\<rparr>)
                else (False, w\<lparr>writes := bs\<rparr>))"

lemma malloc_no_failure [io_simps]: "allocs w = [] \<Longrightarrow> malloc w = (True, w)"
  by (simp add: malloc_def)

lemma malloc_all_no_failure [io_simps]: "allocs w = [] \<Longrightarrow> malloc_all cs w = (True, w)"
proof (induction cs)
  case (Cons c cs)
  then show ?case by (cases c) (auto simp: malloc_no_failure)
qed simp

lemma dprintf_no_failure [io_simps]:
  "writes w = [] \<Longrightarrow> dprintf fd s w = (True, w\<lparr>sent := sent w @ [(fd, s)]\<rparr>)"
  by (simp add: dprintf_def)

lemma malloc_sent: "malloc w = (ok, w') \<Longrightarrow> sent w' = sent w \<and> writes w' = writes w"
  by (auto simp: malloc_def split: list.splits)

lemma malloc_all_sent: "malloc_all cs w = (ok, w') \<Longrightarrow> sent w' = sent w \<and> writes w' = writes w"
proof (induction cs w arbitrary: ok w' rule: malloc_all.induct)
  case (3 cs w)
  obtain b v where m: "malloc w = (b, v)" by fastforce
  note s = malloc_sent [OF m]
  show ?case
  proof (cases b)
    case True
    with "3.prems" m have "malloc_all cs v = (ok, w')" by simp
    from "3.IH" [OF m [symmetric] True this] s show ?thesis by simp
  next
    case False
    with "3.prems" m s show ?thesis by simp
  qed
qed simp_all

lemma malloc_all_fails:
  "malloc_all cs w = (False, w') \<Longrightarrow> allocs w \<noteq> []"
  using malloc_all_no_failure by fastforce

end
