(* ===== verification/Dtmd_Fsopts_Tables.thy ===== *)
theory Dtmd_Fsopts_Tables
  imports Dtmd_Prelude
begin

text \<open>
  The static tables of \<^verbatim>\<open>daemon/filesystem_opts.c\<close> (Linux build): which mount options
  each filesystem accepts, which of them are kernel mount flags, and the functions that
  validate the value of an option.  The contract of the validation functions, that an
  accepted value holds only harmless characters, is the locale \<open>option_validator\<close>.
\<close>

section \<open>Validation functions\<close>

text \<open>Each function is given the option's value, the text after the equals sign.\<close>

definition validate_is_single_int :: "string \<Rightarrow> result" where
  "validate_is_single_int opt =
     (if length opt = 1 \<and> (opt = ''0'' \<or> opt = ''1'') then ResultSuccess else ResultFail)"

fun validate_is_octal_number :: "string \<Rightarrow> result" where
  "validate_is_octal_number [] = ResultSuccess"
| "validate_is_octal_number (c # cs) =
     (if code c < 48 \<or> 55 < code c then ResultFail else validate_is_octal_number cs)"

definition validate_is_access_mode :: "string \<Rightarrow> result" where
  "validate_is_access_mode opt =
     (if length opt \<noteq> 4 \<or> opt ! 0 \<noteq> CHR ''0'' then ResultFail
      else validate_is_octal_number (tl opt))"

fun validate_is_string :: "string \<Rightarrow> result" where
  "validate_is_string [] = ResultSuccess"
| "validate_is_string (c # cs) =
     (if \<not> isalnum (code c) \<and> c \<noteq> CHR ''-'' \<and> c \<noteq> CHR ''_'' then ResultFail
      else validate_is_string cs)"

fun validate_is_decimal_number :: "string \<Rightarrow> result" where
  "validate_is_decimal_number [] = ResultSuccess"
| "validate_is_decimal_number (c # cs) =
     (if \<not> isdigit (code c) then ResultFail else validate_is_decimal_number cs)"

definition validate_vfat_is_shortname :: "string \<Rightarrow> result" where
  "validate_vfat_is_shortname opt =
     (if length opt = 5 \<and> (strncmp_eq opt ''lower'' 5 \<or> strncmp_eq opt ''win95'' 5
        \<or> strncmp_eq opt ''winnt'' 5 \<or> strncmp_eq opt ''mixed'' 5)
      then ResultSuccess else ResultFail)"

definition validate_vfat_is_check :: "string \<Rightarrow> result" where
  "validate_vfat_is_check opt =
     (if length opt = 1 \<and> (opt = ''r'' \<or> opt = ''n'' \<or> opt = ''s'') then ResultSuccess
      else if length opt = 6 \<and> (strncmp_eq opt ''normal'' 6 \<or> strncmp_eq opt ''strict'' 6)
        then ResultSuccess
      else if length opt = 7 \<and> strncmp_eq opt ''relaxed'' 7 then ResultSuccess
      else ResultFail)"

definition validate_iso9660_is_block :: "string \<Rightarrow> result" where
  "validate_iso9660_is_block opt =
     (if length opt = 3 \<and> strncmp_eq opt ''512'' 3 then ResultSuccess
      else if length opt = 4 \<and> (strncmp_eq opt ''1024'' 4 \<or> strncmp_eq opt ''2048'' 4)
        then ResultSuccess
      else ResultFail)"

section \<open>Tables\<close>

type_synonym ulong = "64 word"

record mount_flag =
  mf_option :: string
  mf_flag :: ulong
  mf_enabled :: bool

record mount_option =
  mo_option :: string
  mo_has_param :: bool
  mo_validate :: "(string \<Rightarrow> result) option"

record filesystem_options =
  external_fstype :: "string option"
  fs_fstype :: string
  fs_options :: "mount_option list list"
  fs_option_uid :: "string option"
  fs_option_gid :: "string option"
  fs_defaults :: string
  fs_mandatory_options :: string

text \<open>The values of the kernel flags (\<^verbatim>\<open>sys/mount.h\<close>).\<close>

definition MS_RDONLY :: ulong where "MS_RDONLY = 1"
definition MS_NOSUID :: ulong where "MS_NOSUID = 2"
definition MS_NODEV :: ulong where "MS_NODEV = 4"
definition MS_NOEXEC :: ulong where "MS_NOEXEC = 8"
definition MS_SYNCHRONOUS :: ulong where "MS_SYNCHRONOUS = 16"
definition MS_MANDLOCK :: ulong where "MS_MANDLOCK = 64"
definition MS_DIRSYNC :: ulong where "MS_DIRSYNC = 128"
definition MS_NOATIME :: ulong where "MS_NOATIME = 1024"
definition MS_NODIRATIME :: ulong where "MS_NODIRATIME = 2048"
definition MS_SILENT :: ulong where "MS_SILENT = 32768"
definition MS_RELATIME :: ulong where "MS_RELATIME = 2097152"
definition MS_STRICTATIME :: ulong where "MS_STRICTATIME = 16777216"

lemmas ms_defs = MS_RDONLY_def MS_NOSUID_def MS_NODEV_def MS_NOEXEC_def MS_SYNCHRONOUS_def
  MS_MANDLOCK_def MS_DIRSYNC_def MS_NOATIME_def MS_NODIRATIME_def MS_SILENT_def
  MS_RELATIME_def MS_STRICTATIME_def

definition string_to_mount_flag_list :: "mount_flag list" where
  "string_to_mount_flag_list = map (\<lambda>(n, f, e). \<lparr>mf_option = n, mf_flag = f, mf_enabled = e\<rparr>)
    [(''dirsync'', MS_DIRSYNC, True), (''mand'', MS_MANDLOCK, True),
     (''nomand'', MS_MANDLOCK, False), (''noatime'', MS_NOATIME, True),
     (''atime'', MS_NOATIME, False), (''nodev'', MS_NODEV, True),
     (''dev'', MS_NODEV, False), (''nodiratime'', MS_NODIRATIME, True),
     (''diratime'', MS_NODIRATIME, False), (''noexec'', MS_NOEXEC, True),
     (''exec'', MS_NOEXEC, False), (''nosuid'', MS_NOSUID, True),
     (''suid'', MS_NOSUID, False), (''ro'', MS_RDONLY, True), (''rw'', MS_RDONLY, False),
     (''relatime'', MS_RELATIME, True), (''silent'', MS_SILENT, True),
     (''loud'', MS_SILENT, False), (''strictatime'', MS_STRICTATIME, True),
     (''sync'', MS_SYNCHRONOUS, True), (''nosync'', MS_SYNCHRONOUS, False)]"

definition plain_opt :: "string \<Rightarrow> mount_option" where
  "plain_opt n = \<lparr>mo_option = n, mo_has_param = False, mo_validate = None\<rparr>"

definition param_opt :: "string \<Rightarrow> (string \<Rightarrow> result) \<Rightarrow> mount_option" where
  "param_opt n v = \<lparr>mo_option = n, mo_has_param = True, mo_validate = Some v\<rparr>"

definition any_fs_allowed_list :: "mount_option list" where
  "any_fs_allowed_list = map plain_opt
     [''nodev'', ''nosuid'', ''atime'', ''noatime'', ''nodiratime'', ''ro'', ''rw'']"

definition common_fs_allowed_list :: "mount_option list" where
  "common_fs_allowed_list = map plain_opt
     [''exec'', ''noexec'', ''sync'', ''nosync'', ''dirsync'']"

definition vfat_allow :: "mount_option list" where
  "vfat_allow =
    [plain_opt ''flush'', param_opt ''utf8='' validate_is_single_int,
     param_opt ''shortname='' validate_vfat_is_shortname,
     param_opt ''umask='' validate_is_access_mode, param_opt ''dmask='' validate_is_access_mode,
     param_opt ''fmask='' validate_is_access_mode, param_opt ''codepage='' validate_is_string,
     param_opt ''iocharset='' validate_is_string, plain_opt ''showexec'',
     param_opt ''blocksize='' validate_is_decimal_number,
     param_opt ''allow_utime='' validate_is_octal_number,
     param_opt ''check='' validate_vfat_is_check]"

definition exfat_allow :: "mount_option list" where
  "exfat_allow =
    [param_opt ''umask='' validate_is_access_mode, param_opt ''dmask='' validate_is_access_mode,
     param_opt ''fmask='' validate_is_access_mode]"

definition ntfs3g_allow :: "mount_option list" where
  "ntfs3g_allow =
    [param_opt ''umask='' validate_is_access_mode, param_opt ''dmask='' validate_is_access_mode,
     param_opt ''fmask='' validate_is_access_mode, param_opt ''iocharset='' validate_is_string,
     plain_opt ''utf8'', plain_opt ''windows_names'', plain_opt ''allow_other'',
     plain_opt ''norecover'']"

definition iso9660_allow :: "mount_option list" where
  "iso9660_allow =
    [plain_opt ''norock'', plain_opt ''nojoliet'', param_opt ''iocharset='' validate_is_string,
     param_opt ''mode='' validate_is_access_mode, plain_opt ''utf8'',
     param_opt ''block='' validate_iso9660_is_block]"

definition udf_allow :: "mount_option list" where
  "udf_allow =
    [param_opt ''iocharset='' validate_is_string, param_opt ''umask='' validate_is_access_mode,
     plain_opt ''undelete'', plain_opt ''unhide'', plain_opt ''nostrict'']"

definition filesystem_mount_options :: "filesystem_options list" where
  "filesystem_mount_options =
    [\<lparr>external_fstype = None, fs_fstype = ''vfat'',
      fs_options = [any_fs_allowed_list, common_fs_allowed_list, vfat_allow],
      fs_option_uid = Some ''uid='', fs_option_gid = Some ''gid='',
      fs_defaults = ''rw,nodev,nosuid,shortname=mixed,umask=0077,utf8=1,flush'',
      fs_mandatory_options = ''nodev,nosuid''\<rparr>,
     \<lparr>external_fstype = None, fs_fstype = ''exfat'',
      fs_options = [any_fs_allowed_list, common_fs_allowed_list, exfat_allow],
      fs_option_uid = Some ''uid='', fs_option_gid = Some ''gid='',
      fs_defaults = ''rw,nodev,nosuid,umask=0077'',
      fs_mandatory_options = ''nodev,nosuid''\<rparr>,
     \<lparr>external_fstype = Some ''ntfs-3g'', fs_fstype = ''ntfs-3g'',
      fs_options = [any_fs_allowed_list, ntfs3g_allow],
      fs_option_uid = Some ''uid='', fs_option_gid = Some ''gid='',
      fs_defaults = ''rw,nodev,nosuid,norecover,allow_other,windows_names,umask=0077'',
      fs_mandatory_options = ''nodev,nosuid,norecover''\<rparr>,
     \<lparr>external_fstype = Some ''ntfs-3g'', fs_fstype = ''ntfs'',
      fs_options = [any_fs_allowed_list, ntfs3g_allow],
      fs_option_uid = Some ''uid='', fs_option_gid = Some ''gid='',
      fs_defaults = ''rw,nodev,nosuid,norecover,allow_other,windows_names,umask=0077'',
      fs_mandatory_options = ''nodev,nosuid,norecover''\<rparr>,
     \<lparr>external_fstype = None, fs_fstype = ''iso9660'',
      fs_options = [any_fs_allowed_list, common_fs_allowed_list, iso9660_allow],
      fs_option_uid = Some ''uid='', fs_option_gid = Some ''gid='',
      fs_defaults = ''ro,nodev,nosuid,iocharset=utf8,mode=0400'',
      fs_mandatory_options = ''nodev,nosuid''\<rparr>,
     \<lparr>external_fstype = None, fs_fstype = ''udf'',
      fs_options = [any_fs_allowed_list, common_fs_allowed_list, udf_allow],
      fs_option_uid = Some ''uid='', fs_option_gid = Some ''gid='',
      fs_defaults = ''ro,nodev,nosuid,iocharset=utf8,umask=0077'',
      fs_mandatory_options = ''nodev,nosuid''\<rparr>]"

lemmas option_tables = any_fs_allowed_list_def common_fs_allowed_list_def vfat_allow_def
  exfat_allow_def ntfs3g_allow_def iso9660_allow_def udf_allow_def plain_opt_def param_opt_def

text \<open>\<open>NULL\<close> is passed for a device whose filesystem was not recognised.\<close>

definition get_fsopts_for_fs :: "string option \<Rightarrow> filesystem_options option" where
  "get_fsopts_for_fs filesystem = (case filesystem of
     None \<Rightarrow> None
   | Some f \<Rightarrow> find (\<lambda>fs. strcmp (fs_fstype fs) f = 0) filesystem_mount_options)"

lemma get_fsopts_for_fs_Some:
  "get_fsopts_for_fs f = Some fs \<Longrightarrow> fs \<in> set filesystem_mount_options \<and> f = Some (fs_fstype fs)"
  by (auto simp: get_fsopts_for_fs_def find_Some_iff split: option.splits)

section \<open>The contract of a validation function\<close>

text \<open>The characters that are harmless in a mount option on a shell command line.\<close>

definition opt_char :: "char \<Rightarrow> bool" where
  "opt_char c \<longleftrightarrow> isalnum (code c) \<or> c = CHR ''-'' \<or> c = CHR ''_'' \<or> c = CHR ''=''"

locale option_validator =
  fixes validate :: "string \<Rightarrow> result"
  assumes accepted_chars: "validate s = ResultSuccess \<Longrightarrow> list_all opt_char s"
    and verdict: "validate s = ResultSuccess \<or> validate s = ResultFail"
begin

lemma accepted_option_chars:
  assumes "list_all opt_char name" and "validate (drop (length name) opt) = ResultSuccess"
    and "take (length name) opt = name"
  shows "list_all opt_char opt"
  using assms accepted_chars [OF assms(2)] append_take_drop_id [of "length name" opt]
  by (metis list_all_append)

end

lemma strncmp_eq_full: "length a = n \<Longrightarrow> length b = n \<Longrightarrow> strncmp_eq a b n \<longleftrightarrow> a = b"
  by (simp add: strncmp_eq_def)

interpretation single_int: option_validator validate_is_single_int
  by unfold_locales (auto simp: validate_is_single_int_def opt_char_def ctype_simps split: if_splits)

interpretation octal_number: option_validator validate_is_octal_number
proof unfold_locales
  fix s show "validate_is_octal_number s = ResultSuccess \<Longrightarrow> list_all opt_char s"
    by (induction s) (auto simp: opt_char_def ctype_simps split: if_splits)
  show "validate_is_octal_number s = ResultSuccess \<or> validate_is_octal_number s = ResultFail"
    by (induction s) auto
qed

interpretation access_mode: option_validator validate_is_access_mode
proof unfold_locales
  fix s assume "validate_is_access_mode s = ResultSuccess"
  then have "length s = 4" "s ! 0 = CHR ''0''" "validate_is_octal_number (tl s) = ResultSuccess"
    by (auto simp: validate_is_access_mode_def split: if_splits)
  then show "list_all opt_char s"
    using octal_number.accepted_chars [of "tl s"]
    by (cases s) (auto simp: opt_char_def ctype_simps)
next
  fix s show "validate_is_access_mode s = ResultSuccess \<or> validate_is_access_mode s = ResultFail"
    using octal_number.verdict by (auto simp: validate_is_access_mode_def)
qed

interpretation any_string: option_validator validate_is_string
proof unfold_locales
  fix s show "validate_is_string s = ResultSuccess \<Longrightarrow> list_all opt_char s"
    by (induction s) (auto simp: opt_char_def split: if_splits)
  show "validate_is_string s = ResultSuccess \<or> validate_is_string s = ResultFail"
    by (induction s) auto
qed

interpretation decimal_number: option_validator validate_is_decimal_number
proof unfold_locales
  fix s show "validate_is_decimal_number s = ResultSuccess \<Longrightarrow> list_all opt_char s"
    by (induction s) (auto simp: opt_char_def ctype_simps split: if_splits)
  show "validate_is_decimal_number s = ResultSuccess \<or> validate_is_decimal_number s = ResultFail"
    by (induction s) auto
qed

interpretation shortname: option_validator validate_vfat_is_shortname
  by unfold_locales
     (auto simp: validate_vfat_is_shortname_def strncmp_eq_full opt_char_def ctype_simps
           split: if_splits)

interpretation vfat_check: option_validator validate_vfat_is_check
  by unfold_locales
     (auto simp: validate_vfat_is_check_def strncmp_eq_full opt_char_def ctype_simps
           split: if_splits)

interpretation iso_block: option_validator validate_iso9660_is_block
  by unfold_locales
     (auto simp: validate_iso9660_is_block_def strncmp_eq_full opt_char_def ctype_simps
           split: if_splits)

lemmas validators = single_int.option_validator_axioms octal_number.option_validator_axioms
  access_mode.option_validator_axioms any_string.option_validator_axioms
  decimal_number.option_validator_axioms shortname.option_validator_axioms
  vfat_check.option_validator_axioms iso_block.option_validator_axioms

section \<open>Facts about the tables\<close>

definition allowed_options :: "filesystem_options \<Rightarrow> mount_option list" where
  "allowed_options fs = concat (fs_options fs)"

text \<open>Every option with a value has a validator that meets the contract; option names are
  harmless and not empty.\<close>

definition good_option :: "mount_option \<Rightarrow> bool" where
  "good_option p \<longleftrightarrow> list_all opt_char (mo_option p) \<and> mo_option p \<noteq> [] \<and>
     (case mo_validate p of None \<Rightarrow> \<not> mo_has_param p | Some v \<Rightarrow> mo_has_param p \<and> option_validator v)"

lemma good_plain: "list_all opt_char n \<Longrightarrow> n \<noteq> [] \<Longrightarrow> good_option (plain_opt n)"
  by (simp add: good_option_def plain_opt_def)

lemma good_param:
  "list_all opt_char n \<Longrightarrow> n \<noteq> [] \<Longrightarrow> option_validator v \<Longrightarrow> good_option (param_opt n v)"
  by (simp add: good_option_def param_opt_def)

lemma good_lists:
  "list_all good_option any_fs_allowed_list" "list_all good_option common_fs_allowed_list"
  "list_all good_option vfat_allow" "list_all good_option exfat_allow"
  "list_all good_option ntfs3g_allow" "list_all good_option iso9660_allow"
  "list_all good_option udf_allow"
  by (simp_all add: any_fs_allowed_list_def common_fs_allowed_list_def vfat_allow_def
        exfat_allow_def ntfs3g_allow_def iso9660_allow_def udf_allow_def
        good_plain good_param validators opt_char_def ctype_simps)

lemma allowed_options_good:
  assumes "fs \<in> set filesystem_mount_options" and "p \<in> set (allowed_options fs)"
  shows "good_option p"
  using assms good_lists
  by (auto simp: filesystem_mount_options_def allowed_options_def list_all_iff)

end
