(* ===== verification/Dtmd_Fsopts.thy ===== *)
theory Dtmd_Fsopts
  imports Dtmd_Fsopts_Tables
begin

text \<open>
  \<^verbatim>\<open>daemon/filesystem_opts.c\<close>: a comma-separated list of mount options is checked against
  the filesystem's table and turned into a list of items (\<open>convert_options_to_list\<close>), in
  which a later option replaces an earlier one that sets the same kernel flag or has the
  same name; the list is then printed twice, as the full option string and as the string
  of the options the kernel does not know as flags, with the flags computed on the way
  (\<open>fsopts_generate_string\<close>).
\<close>

section \<open>The list of options\<close>

text \<open>
  \<open>it_option\<close> is the pointer to the option's first character: the rest of the option string
  from there on.
\<close>

record fsopts_item =
  it_option :: string
  it_flag :: ulong
  it_enabled :: bool
  it_full_len :: nat
  it_len :: nat

record fsopts_id =
  id_option :: "string option"
  id_value :: "string option"

record fsopts_list =
  items :: "fsopts_item list"
  option_uid :: fsopts_id
  option_gid :: fsopts_id

definition init_options_list_id :: fsopts_id where
  "init_options_list_id = \<lparr>id_option = None, id_value = None\<rparr>"

definition init_options_list :: fsopts_list where
  "init_options_list =
     \<lparr>items = [], option_uid = init_options_list_id, option_gid = init_options_list_id\<rparr>"

definition free_options_list_id :: "fsopts_id \<Rightarrow> fsopts_id" where
  "free_options_list_id i = i\<lparr>id_option := None, id_value := None\<rparr>"

definition free_options_list :: "fsopts_list \<Rightarrow> fsopts_list" where
  "free_options_list l = l\<lparr>items := [],
     option_uid := free_options_list_id (option_uid l),
     option_gid := free_options_list_id (option_gid l)\<rparr>"

section \<open>Conversion\<close>

definition option_matches :: "string \<Rightarrow> nat \<Rightarrow> mount_option \<Rightarrow> bool" where
  "option_matches opt len p =
     (if mo_has_param p
      then length (mo_option p) < len \<and> strncmp_eq opt (mo_option p) (length (mo_option p))
      else length (mo_option p) = len \<and> strncmp_eq opt (mo_option p) len)"

definition find_option_in_list ::
  "string \<Rightarrow> nat \<Rightarrow> filesystem_options \<Rightarrow> mount_option option" where
  "find_option_in_list opt len fs = find (option_matches opt len) (concat (fs_options fs))"

definition find_mount_flag :: "string \<Rightarrow> nat \<Rightarrow> mount_flag option" where
  "find_mount_flag opt len =
     find (\<lambda>f. len = length (mf_option f) \<and> strncmp_eq opt (mf_option f) len)
       string_to_mount_flag_list"

text \<open>Is the new option, at \<open>opt\<close>, the one the item stands for?\<close>

definition same_option :: "mount_flag option \<Rightarrow> string \<Rightarrow> fsopts_item \<Rightarrow> bool" where
  "same_option mf opt it = (case mf of
     None \<Rightarrow> strncmp_eq opt (it_option it) (it_len it)
   | Some f \<Rightarrow> mf_flag f = it_flag it)"

definition fill_item :: "mount_flag option \<Rightarrow> string \<Rightarrow> nat \<Rightarrow> mount_option \<Rightarrow> fsopts_item" where
  "fill_item mf opt len p = (case mf of
     None \<Rightarrow> \<lparr>it_option = opt, it_flag = 0, it_enabled = False, it_full_len = len,
              it_len = length (mo_option p)\<rparr>
   | Some f \<Rightarrow> \<lparr>it_option = opt, it_flag = mf_flag f, it_enabled = mf_enabled f,
                it_full_len = len, it_len = len\<rparr>)"

text \<open>
  The item found is taken out of its place, the ones after it move down, and it is filled
  again at the end; without one, a new item is allocated and appended.
\<close>

fun remove_first :: "('a \<Rightarrow> bool) \<Rightarrow> 'a list \<Rightarrow> 'a list" where
  "remove_first P [] = []"
| "remove_first P (x # xs) = (if P x then xs else x # remove_first P xs)"

definition insert_option ::
  "string \<Rightarrow> nat \<Rightarrow> mount_option \<Rightarrow> fsopts_item list \<Rightarrow> io \<Rightarrow> result \<times> fsopts_item list \<times> io" where
  "insert_option opt len p l w =
     (let mf = find_mount_flag opt len; new = fill_item mf opt len p in
      if list_ex (same_option mf opt) l
      then (ResultSuccess, remove_first (same_option mf opt) l @ [new], w)
      else case malloc_all [True, True] w of
        (ok, w') \<Rightarrow> if ok then (ResultSuccess, l @ [new], w') else (ResultFatalError, l, w'))"

definition validate_option :: "mount_option \<Rightarrow> string \<Rightarrow> nat \<Rightarrow> result" where
  "validate_option p opt len = (case mo_validate p of
     None \<Rightarrow> ResultSuccess
   | Some v \<Rightarrow> v (drop (length (mo_option p)) (take len opt)))"

abbreviation comma :: char where "comma \<equiv> CHR '',''"

function convert_loop ::
  "string \<Rightarrow> filesystem_options \<Rightarrow> fsopts_item list \<Rightarrow> io \<Rightarrow> result \<times> fsopts_item list \<times> io" where
  "convert_loop opt fs l w =
     (let len = length (takeWhile (\<lambda>c. c \<noteq> comma) opt) in
      if len = 0 then (ResultFail, l, w)
      else case find_option_in_list opt len fs of
        None \<Rightarrow> (ResultFail, l, w)
      | Some p \<Rightarrow>
          if is_result_failure (validate_option p opt len) then (validate_option p opt len, l, w)
          else case insert_option opt len p l w of (r, l', w') \<Rightarrow>
            if r \<noteq> ResultSuccess then (r, l', w')
            else (case drop len opt of
                    [] \<Rightarrow> (ResultSuccess, l', w')
                  | _ # opt' \<Rightarrow> convert_loop opt' fs l' w'))"
  by pat_completeness auto
termination
proof (relation "measure (\<lambda>(opt, fs, l, w). length opt)", simp, clarsimp)
  fix opt :: string and y zs
  assume "drop (length (takeWhile (\<lambda>c. c \<noteq> comma) opt)) opt = y # zs"
  from arg_cong [OF this, of length] show "length zs < length opt" by simp
qed

declare convert_loop.simps [simp del]

definition add_id ::
  "string option \<Rightarrow> 32 word option \<Rightarrow> fsopts_id \<Rightarrow> io \<Rightarrow> result \<times> fsopts_id \<times> io" where
  "add_id name num i w = (case num of
     None \<Rightarrow> (ResultSuccess, i, w)
   | Some n \<Rightarrow> (case name of
       None \<Rightarrow> (ResultSuccess, i, w)
     | Some s \<Rightarrow> (case malloc w of (ok, w') \<Rightarrow>
         if \<not> ok then (ResultFatalError, free_options_list_id i, w')
         else (ResultSuccess, \<lparr>id_option = Some s, id_value = Some (decimal (unat n))\<rparr>, w'))))"

definition convert_options_to_list ::
  "string option \<Rightarrow> filesystem_options option \<Rightarrow> 32 word option \<Rightarrow> 32 word option \<Rightarrow>
   fsopts_list \<Rightarrow> io \<Rightarrow> result \<times> fsopts_list \<times> io" where
  "convert_options_to_list options_list fsopts uid gid l w =
     (case (options_list, fsopts) of
        (Some opts, Some fs) \<Rightarrow>
          (case (if opts = [] then (ResultSuccess, items l, w) else convert_loop opts fs (items l) w)
           of (r, its, w1) \<Rightarrow>
             let l1 = l\<lparr>items := its\<rparr> in
             if r \<noteq> ResultSuccess then (r, l1, w1)
             else (case add_id (fs_option_uid fs) uid (option_uid l1) w1 of (r2, u, w2) \<Rightarrow>
               let l2 = l1\<lparr>option_uid := u\<rparr> in
               if r2 \<noteq> ResultSuccess then (r2, l2, w2)
               else (case add_id (fs_option_gid fs) gid (option_gid l2) w2 of (r3, g, w3) \<Rightarrow>
                 (r3, l2\<lparr>option_gid := g\<rparr>, w3))))
      | _ \<Rightarrow> (ResultBug, l, w))"

section \<open>Printing\<close>

text \<open>
  An output buffer: its memory (\<open>None\<close> for a \<open>NULL\<close> buffer), the size the caller gave, how
  much has been produced so far (written or not), how many items, and whether a write went
  past the end of the memory.
\<close>

record outbuf =
  ob_mem :: "string option"
  ob_size :: nat
  ob_len :: nat
  ob_items :: nat
  ob_overrun :: bool

definition write_mem :: "nat \<Rightarrow> string \<Rightarrow> outbuf \<Rightarrow> outbuf" where
  "write_mem pos s b = (case ob_mem b of
     None \<Rightarrow> b
   | Some m \<Rightarrow>
       if pos + length s \<le> length m
       then b\<lparr>ob_mem := Some (take pos m @ s @ drop (pos + length s) m)\<rparr>
       else b\<lparr>ob_overrun := True\<rparr>)"

definition put_sep :: "outbuf \<Rightarrow> outbuf" where
  "put_sep b =
     (if ob_items b > 0
      then (let b' = (if ob_mem b \<noteq> None \<and> ob_len b + 1 \<le> ob_size b
                      then write_mem (ob_len b) [comma] b else b)
            in b'\<lparr>ob_len := ob_len b + 1\<rparr>)
      else b)"

definition put_text :: "string \<Rightarrow> outbuf \<Rightarrow> outbuf" where
  "put_text s b =
     (let b' = (if ob_mem b \<noteq> None
                then if ob_len b + length s \<le> ob_size b then write_mem (ob_len b) s b
                     else if ob_len b < ob_size b
                       then write_mem (ob_len b) (take (ob_size b - ob_len b) s) b
                     else b
                else b)
      in b'\<lparr>ob_len := ob_len b + length s\<rparr>)"

definition put_done :: "outbuf \<Rightarrow> outbuf" where
  "put_done b = b\<lparr>ob_items := Suc (ob_items b)\<rparr>"

definition item_text :: "fsopts_item \<Rightarrow> string" where
  "item_text it = take (it_full_len it) (it_option it)"

definition put_item :: "fsopts_item \<Rightarrow> outbuf \<Rightarrow> outbuf" where
  "put_item it b = put_done (put_text (item_text it) (put_sep b))"

definition apply_flag :: "fsopts_item \<Rightarrow> ulong \<Rightarrow> ulong" where
  "apply_flag it flags =
     (if it_enabled it then flags OR it_flag it else flags AND NOT (it_flag it))"

fun generate_items ::
  "fsopts_item list \<Rightarrow> outbuf \<times> outbuf \<times> ulong \<Rightarrow> outbuf \<times> outbuf \<times> ulong" where
  "generate_items [] st = st"
| "generate_items (it # its) (full, str, flags) =
     generate_items its
       (put_item it full,
        if it_flag it = 0 then put_item it str else str,
        if it_flag it = 0 then flags else apply_flag it flags)"

definition put_id :: "fsopts_id \<Rightarrow> outbuf \<Rightarrow> outbuf" where
  "put_id i b = (case (id_value i, id_option i) of
     (Some v, Some n) \<Rightarrow> put_done (put_text v (put_text n (put_sep b)))
   | _ \<Rightarrow> b)"

definition start_buf :: "string option \<Rightarrow> nat \<Rightarrow> outbuf" where
  "start_buf m n = \<lparr>ob_mem = m, ob_size = n, ob_len = 0, ob_items = 0, ob_overrun = False\<rparr>"

text \<open>
  The two buffers are given with their sizes; the result holds both after printing, whose
  \<open>ob_len\<close> are the lengths the function reports, and the mount flags.
\<close>

definition fsopts_generate_string ::
  "fsopts_list option \<Rightarrow> string option \<Rightarrow> nat \<Rightarrow> string option \<Rightarrow> nat \<Rightarrow>
   (result, outbuf \<times> outbuf \<times> ulong) sum" where
  "fsopts_generate_string fsopts_list full_buf full_size str_buf str_size = (case fsopts_list of
     None \<Rightarrow> Inl ResultBug
   | Some l \<Rightarrow>
       (case generate_items (items l) (start_buf full_buf full_size, start_buf str_buf str_size, 0)
        of (full, str, flags) \<Rightarrow>
          Inr (put_id (option_gid l) (put_id (option_uid l) full),
               put_id (option_gid l) (put_id (option_uid l) str), flags)))"

section \<open>Printing: what the buffers hold\<close>

fun join_comma :: "string list \<Rightarrow> string" where
  "join_comma [] = []"
| "join_comma [x] = x"
| "join_comma (x # y # ys) = x @ comma # join_comma (y # ys)"

lemma join_comma_snoc: "join_comma (xs @ [x]) = (if xs = [] then x else join_comma xs @ comma # x)"
  by (induction xs rule: join_comma.induct) auto

definition id_texts :: "fsopts_id \<Rightarrow> string list" where
  "id_texts i = (case (id_value i, id_option i) of (Some v, Some n) \<Rightarrow> [n @ v] | _ \<Rightarrow> [])"

text \<open>The two option strings of a list.\<close>

definition full_texts :: "fsopts_list \<Rightarrow> string list" where
  "full_texts l = map item_text (items l) @ id_texts (option_uid l) @ id_texts (option_gid l)"

definition plain_texts :: "fsopts_list \<Rightarrow> string list" where
  "plain_texts l = map item_text (filter (\<lambda>it. it_flag it = 0) (items l))
     @ id_texts (option_uid l) @ id_texts (option_gid l)"

text \<open>Memory \<open>m\<close> after the first \<open>n\<close> characters at most of \<open>s\<close> have been stored in it.\<close>

definition stored :: "nat \<Rightarrow> string \<Rightarrow> string \<Rightarrow> string" where
  "stored n s m = take n s @ drop (length (take n s)) m"

definition holds :: "string option \<Rightarrow> nat \<Rightarrow> string \<Rightarrow> nat \<Rightarrow> outbuf \<Rightarrow> bool" where
  "holds m n s k b \<longleftrightarrow> ob_size b = n \<and> ob_len b = length s \<and> ob_items b = k \<and> \<not> ob_overrun b \<and>
     ob_mem b = map_option (stored n s) m \<and> (\<forall>x. m = Some x \<longrightarrow> n \<le> length x)"

lemma holds_start: "(\<And>x. m = Some x \<Longrightarrow> n \<le> length x) \<Longrightarrow> holds m n [] 0 (start_buf m n)"
  by (cases m) (auto simp: holds_def start_buf_def stored_def)

lemma stored_append:
  assumes "n \<le> length x" and "length s < n" and "t' = take (n - length s) t"
  shows "take (length s) (stored n s x) @ t' @ drop (length s + length t') (stored n s x)
    = stored n (s @ t) x"
  using assms by (simp add: stored_def add.commute)

lemma holds_put_text:
  assumes "holds m n s k b"
  shows "holds m n (s @ t) k (put_text t b)"
proof (cases m)
  case None
  with assms show ?thesis by (simp add: holds_def put_text_def)
next
  case (Some x)
  with assms have h: "ob_mem b = Some (stored n s x)" "ob_len b = length s" "ob_size b = n"
    "n \<le> length x" "\<not> ob_overrun b" "ob_items b = k" by (auto simp: holds_def)
  have len: "length (stored n s x) = length x"
    using h(4) by (simp add: stored_def)
  consider "n \<le> length s" | "length s < n" "length s + length t \<le> n"
    | "length s < n" "n < length s + length t" by linarith
  then show ?thesis
  proof cases
    case 1
    then have "stored n (s @ t) x = stored n s x" by (simp add: stored_def)
    moreover have "t = [] \<Longrightarrow> write_mem (length s) t b = b \<or> ob_overrun b" if "length s + length t \<le> n"
      using that h len 1 by (simp add: write_mem_def)
    ultimately show ?thesis
      using 1 h Some len by (cases t) (auto simp: holds_def put_text_def)
  next
    case 2
    then have "t = take (n - length s) t" by simp
    from stored_append [OF h(4) 2(1) this] 2 h Some len
    show ?thesis by (simp add: holds_def put_text_def write_mem_def)
  next
    case 3
    from stored_append [OF h(4) 3(1) refl, of t] 3 h Some len
    show ?thesis by (simp add: holds_def put_text_def write_mem_def)
  qed
qed

lemma put_sep_text: "put_sep b = (if ob_items b > 0 then put_text [comma] b else b)"
  by (simp add: put_sep_def put_text_def Let_def)

lemma holds_put_next:
  assumes "holds m n (join_comma ts) (length ts) b"
  shows "holds m n (join_comma (ts @ [t])) (length (ts @ [t])) (put_done (put_text t (put_sep b)))"
proof -
  have fin: "holds m n s k c \<Longrightarrow> holds m n s (Suc k) (put_done c)" for s k c
    by (simp add: holds_def put_done_def)
  have items: "ob_items b = length ts" using assms by (simp add: holds_def)
  show ?thesis
  proof (cases ts)
    case Nil
    with assms items have "holds m n t 0 (put_text t b)"
      using holds_put_text [of m n "[]" 0 b t] by simp
    with Nil items fin show ?thesis by (simp add: put_sep_text)
  next
    case (Cons u us)
    have "holds m n ((join_comma ts @ [comma]) @ t) (length ts) (put_text t (put_text [comma] b))"
      using assms by (intro holds_put_text)
    with Cons items fin show ?thesis
      using join_comma_snoc [of ts t] by (simp add: put_sep_text)
  qed
qed

end
