(* ===== verification/Dtmd_Fsopts_Spec.thy ===== *)
theory Dtmd_Fsopts_Spec
  imports Dtmd_Fsopts
begin

text \<open>
  What \<^verbatim>\<open>daemon/filesystem_opts.c\<close> promises: the list of options is a map from keys (a
  kernel flag or an option name) to the last word that set them, only harmless words get
  in, and the strings printed from it are the words separated by commas.
\<close>


section \<open>Facts about the names in the tables\<close>

definition names_apart :: "string \<Rightarrow> string \<Rightarrow> bool" where
  "names_apart a b \<longleftrightarrow> a = b \<or> \<not> strncmp_eq b a (length a)"

definition names_ok :: "filesystem_options \<Rightarrow> bool" where
  "names_ok fs \<longleftrightarrow>
     (let ns = map mo_option (allowed_options fs); fl = map mf_option string_to_mount_flag_list
      in list_all (\<lambda>a. list_all (names_apart a) ns) ns \<and>
         list_all (\<lambda>a. list_all (\<lambda>f. names_apart a f \<and> names_apart f a) fl) ns \<and>
         list_all (\<lambda>p. mo_has_param p \<longrightarrow> mo_option p \<notin> set fl) (allowed_options fs))"

lemma all_names_ok: "list_all names_ok filesystem_mount_options"
  by code_simp

definition flags_apart :: "mount_flag \<Rightarrow> mount_flag \<Rightarrow> bool" where
  "flags_apart f g \<longleftrightarrow> mf_flag f = mf_flag g \<or> mf_flag f AND mf_flag g = 0"

lemma all_flags_ok:
  "list_all (\<lambda>f. mf_flag f \<noteq> 0 \<and> list_all (flags_apart f) string_to_mount_flag_list)
     string_to_mount_flag_list"
  by (simp add: string_to_mount_flag_list_def flags_apart_def ms_defs)

lemma flag_nonzero: "f \<in> set string_to_mount_flag_list \<Longrightarrow> mf_flag f \<noteq> 0"
  using all_flags_ok by (auto simp: list_all_iff)

lemma flags_disjoint:
  "f \<in> set string_to_mount_flag_list \<Longrightarrow> g \<in> set string_to_mount_flag_list \<Longrightarrow>
   mf_flag f \<noteq> mf_flag g \<Longrightarrow> mf_flag f AND mf_flag g = 0"
  using all_flags_ok by (auto simp: list_all_iff flags_apart_def)

text \<open>Two names one text starts with: one is a prefix of the other.\<close>

lemma common_start:
  assumes "take (length a) s = a" and "take (length b) s = b"
  shows "strncmp_eq b a (length a) \<or> strncmp_eq a b (length b)"
proof (cases "length a \<le> length b")
  case True
  then have "take (length a) b = take (length a) s" using assms(2) by (metis min_def take_take)
  with assms show ?thesis by (simp add: strncmp_eq_def)
next
  case False
  then have "take (length b) a = take (length b) s" using assms(1) by (metis min_def nle_le take_take)
  with assms show ?thesis by (simp add: strncmp_eq_def)
qed

lemma names_okD:
  assumes "fs \<in> set filesystem_mount_options" and "p \<in> set (allowed_options fs)"
  shows "q \<in> set (allowed_options fs) \<Longrightarrow> names_apart (mo_option p) (mo_option q)"
    and "f \<in> set string_to_mount_flag_list \<Longrightarrow>
      names_apart (mo_option p) (mf_option f) \<and> names_apart (mf_option f) (mo_option p)"
    and "f \<in> set string_to_mount_flag_list \<Longrightarrow> mo_has_param p \<Longrightarrow> mo_option p \<noteq> mf_option f"
proof -
  have "names_ok fs" using assms(1) all_names_ok by (simp only: list_all_iff)
  note ok = this [unfolded names_ok_def Let_def list_all_iff set_map]
  show "q \<in> set (allowed_options fs) \<Longrightarrow> names_apart (mo_option p) (mo_option q)"
    using ok assms(2) by blast
  show "f \<in> set string_to_mount_flag_list \<Longrightarrow>
      names_apart (mo_option p) (mf_option f) \<and> names_apart (mf_option f) (mo_option p)"
    using ok assms(2) by blast
  show "f \<in> set string_to_mount_flag_list \<Longrightarrow> mo_has_param p \<Longrightarrow> mo_option p \<noteq> mf_option f"
    using ok assms(2) by fastforce
qed

lemma option_names_apart:
  assumes "fs \<in> set filesystem_mount_options" and "p \<in> set (allowed_options fs)"
    and "q \<in> set (allowed_options fs)"
    and "take (length (mo_option p)) s = mo_option p" and "take (length (mo_option q)) s = mo_option q"
  shows "mo_option p = mo_option q"
  using common_start [OF assms(4,5)] names_okD(1) [OF assms(1,2,3)] names_okD(1) [OF assms(1,3,2)]
  unfolding names_apart_def by metis

lemma option_flag_apart:
  assumes "fs \<in> set filesystem_mount_options" and "p \<in> set (allowed_options fs)"
    and "f \<in> set string_to_mount_flag_list"
    and "take (length (mo_option p)) s = mo_option p" and "take (length (mf_option f)) s = mf_option f"
  shows "mo_option p = mf_option f \<and> \<not> mo_has_param p"
  using common_start [OF assms(4,5)] names_okD(2,3) [OF assms(1,2,3)]
  unfolding names_apart_def by metis

section \<open>What a list of options means\<close>

datatype opt_key = FlagKey ulong | NameKey string

definition item_key :: "fsopts_item \<Rightarrow> opt_key" where
  "item_key it = (if it_flag it = 0 then NameKey (take (it_len it) (it_option it))
                  else FlagKey (it_flag it))"

definition abs_item :: "fsopts_item \<Rightarrow> opt_key \<times> string" where
  "abs_item it = (item_key it, item_text it)"

definition word_of :: "string \<Rightarrow> string" where
  "word_of opt = takeWhile (\<lambda>c. c \<noteq> comma) opt"

function split_words :: "string \<Rightarrow> string list" where
  "split_words opt = word_of opt # (case drop (length (word_of opt)) opt of
     [] \<Rightarrow> [] | _ # opt' \<Rightarrow> split_words opt')"
  by pat_completeness auto
termination
proof (relation "measure length", simp)
  fix opt :: string and y zs
  assume "drop (length (word_of opt)) opt = y # zs"
  from arg_cong [OF this, of length] show "(zs, opt) \<in> measure length" by simp
qed

declare split_words.simps [simp del]

definition word_option :: "filesystem_options \<Rightarrow> string \<Rightarrow> mount_option option" where
  "word_option fs w = find_option_in_list w (length w) fs"

definition acceptable :: "filesystem_options \<Rightarrow> string \<Rightarrow> bool" where
  "acceptable fs w \<longleftrightarrow> w \<noteq> [] \<and> (case word_option fs w of None \<Rightarrow> False
     | Some p \<Rightarrow> validate_option p w (length w) = ResultSuccess)"

definition word_key :: "filesystem_options \<Rightarrow> string \<Rightarrow> opt_key" where
  "word_key fs w = (case find_mount_flag w (length w) of
     Some f \<Rightarrow> FlagKey (mf_flag f)
   | None \<Rightarrow> (case word_option fs w of Some p \<Rightarrow> NameKey (mo_option p) | None \<Rightarrow> NameKey []))"

definition set_option :: "('k \<times> 'v) list \<Rightarrow> 'k \<times> 'v \<Rightarrow> ('k \<times> 'v) list" where
  "set_option kvs e = filter (\<lambda>x. fst x \<noteq> fst e) kvs @ [e]"

lemma find_take: "strncmp_eq (take n a) b n \<longleftrightarrow> strncmp_eq a b n"
  by (simp add: strncmp_eq_def)

lemma strncmp_eq_take: "m \<le> n \<Longrightarrow> strncmp_eq (take n a) b m \<longleftrightarrow> strncmp_eq a b m"
  by (simp add: strncmp_eq_def min_def)

lemma option_matches_take [simp]: "option_matches (take n a) n = option_matches a n"
  by (rule ext) (auto simp: option_matches_def strncmp_eq_take)

lemma find_option_take: "find_option_in_list (take n a) n fs = find_option_in_list a n fs"
  by (simp only: find_option_in_list_def option_matches_take)

lemma find_flag_take: "find_mount_flag (take n a) n = find_mount_flag a n"
  by (simp add: find_mount_flag_def find_take)

lemma validate_option_take: "validate_option p (take n a) n = validate_option p a n"
  by (simp add: validate_option_def split: option.split)

lemma find_option_Some:
  assumes "find_option_in_list a n fs = Some p" and "n \<le> length a"
  shows "p \<in> set (allowed_options fs) \<and> take (length (mo_option p)) a = mo_option p \<and>
    length (mo_option p) \<le> n \<and> (\<not> mo_has_param p \<longrightarrow> take n a = mo_option p)"
  using find_SomeD [OF assms(1) [unfolded find_option_in_list_def]] assms(2)
  by (cases "mo_has_param p") (auto simp: option_matches_def allowed_options_def strncmp_eq_def)

lemma find_flag_Some:
  assumes "find_mount_flag a n = Some f"
  shows "f \<in> set string_to_mount_flag_list \<and> n = length (mf_option f) \<and> take n a = mf_option f"
  using find_SomeD [OF assms [unfolded find_mount_flag_def]] by (auto simp: strncmp_eq_def)

lemma find_flag_None:
  assumes "find_mount_flag a n = None" and "f \<in> set string_to_mount_flag_list" and "n \<le> length a"
  shows "take n a \<noteq> mf_option f"
proof
  assume eq: "take n a = mf_option f"
  have "length (take n a) = n" using assms(3) by simp
  with eq have n: "n = length (mf_option f)" by simp
  then have "strncmp_eq a (mf_option f) n" unfolding strncmp_eq_def eq by simp
  with assms(1,2) n show False
    unfolding find_mount_flag_def find_None_iff by blast
qed

text \<open>An option whose word is no flag is named differently from every flag.\<close>

lemma no_flag_name:
  assumes fs: "fs \<in> set filesystem_mount_options"
    and p: "find_option_in_list opt n fs = Some p" "n \<le> length opt"
    and none: "find_mount_flag opt n = None" and g: "g \<in> set string_to_mount_flag_list"
  shows "mf_option g \<noteq> mo_option p"
proof
  assume eq: "mf_option g = mo_option p"
  note f = find_option_Some [OF p]
  then have "\<not> mo_has_param p" using names_okD(3) [OF fs _ g, of p] eq by auto
  with f find_flag_None [OF none g p(2)] eq show False by simp
qed

section \<open>Well-formed items\<close>

definition item_ok :: "filesystem_options \<Rightarrow> fsopts_item \<Rightarrow> bool" where
  "item_ok fs it \<longleftrightarrow> list_all opt_char (item_text it) \<and> 
     (\<exists>p \<in> set (allowed_options fs).
        mo_option p = take (it_len it) (it_option it) \<and> it_len it = length (mo_option p) \<and>
        (if it_flag it = 0 then (\<forall>f \<in> set string_to_mount_flag_list. mf_option f \<noteq> mo_option p)
         else it_full_len it = it_len it \<and> (\<exists>f \<in> set string_to_mount_flag_list. mf_flag f = it_flag it \<and>
           mf_enabled f = it_enabled it \<and> mf_option f = mo_option p)))"

definition items_ok :: "filesystem_options \<Rightarrow> fsopts_item list \<Rightarrow> bool" where
  "items_ok fs its \<longleftrightarrow> list_all (item_ok fs) its \<and> distinct (map item_key its)"

lemma item_okD:
  assumes "item_ok fs it"
  obtains q where "q \<in> set (allowed_options fs)" "take (it_len it) (it_option it) = mo_option q"
    "it_len it = length (mo_option q)"
    "it_flag it \<noteq> 0 \<longrightarrow> it_full_len it = it_len it \<and>
       (\<exists>f \<in> set string_to_mount_flag_list. mf_flag f = it_flag it \<and>
       mf_enabled f = it_enabled it \<and> mf_option f = mo_option q)"
  using assms that unfolding item_ok_def by (metis (no_types))

lemma same_option_key:
  assumes fs: "fs \<in> set filesystem_mount_options" and it: "item_ok fs it"
    and p: "find_option_in_list opt n fs = Some p" "n \<le> length opt"
  shows "same_option (find_mount_flag opt n) opt it \<longleftrightarrow>
    item_key it = item_key (fill_item (find_mount_flag opt n) opt n p)"
proof (cases "find_mount_flag opt n")
  case (Some g)
  then have "mf_flag g \<noteq> 0" using find_flag_Some flag_nonzero by blast
  with Some show ?thesis by (auto simp: same_option_def fill_item_def item_key_def)
next
  case None
  note f = find_option_Some [OF p]
  from it obtain q where q: "q \<in> set (allowed_options fs)"
    "take (it_len it) (it_option it) = mo_option q" "it_len it = length (mo_option q)"
    "it_flag it \<noteq> 0 \<longrightarrow> it_full_len it = it_len it \<and>
       (\<exists>f \<in> set string_to_mount_flag_list. mf_flag f = it_flag it \<and>
       mf_enabled f = it_enabled it \<and> mf_option f = mo_option q)"
    by (rule item_okD)
  have eq: "strncmp_eq opt (it_option it) (it_len it) \<longleftrightarrow> mo_option p = mo_option q"
    using option_names_apart [OF fs _ q(1), of p opt] f q(2,3) by (metis strncmp_eq_def)
  have "mo_option p = mo_option q \<Longrightarrow> it_flag it = 0"
    using no_flag_name [OF fs p None] q(4) by metis
  with None eq q(2) f show ?thesis by (auto simp: same_option_def fill_item_def item_key_def)
qed

lemma option_text_chars:
  assumes fs: "fs \<in> set filesystem_mount_options"
    and p: "find_option_in_list opt n fs = Some p" "n \<le> length opt"
    and v: "validate_option p opt n = ResultSuccess"
  shows "list_all opt_char (take n opt)"
proof -
  note f = find_option_Some [OF p]
  have good: "good_option p" using allowed_options_good [OF fs] f by blast
  show ?thesis
  proof (cases "mo_validate p")
    case None
    with good f show ?thesis by (simp add: good_option_def)
  next
    case (Some u)
    with good have "option_validator u" "list_all opt_char (mo_option p)"
      by (simp_all add: good_option_def)
    moreover have "u (drop (length (mo_option p)) (take n opt)) = ResultSuccess"
      using v Some by (simp add: validate_option_def)
    ultimately show ?thesis
      using option_validator.accepted_option_chars [of u "mo_option p" "take n opt"] f
      by (simp add: min_def)
  qed
qed

lemma fill_item_ok:
  assumes fs: "fs \<in> set filesystem_mount_options"
    and p: "find_option_in_list opt n fs = Some p" "n \<le> length opt"
    and v: "validate_option p opt n = ResultSuccess"
  shows "item_ok fs (fill_item (find_mount_flag opt n) opt n p)"
proof (cases "find_mount_flag opt n")
  case None
  with find_option_Some [OF p] option_text_chars [OF assms] no_flag_name [OF fs p None]
  show ?thesis by (auto simp: item_ok_def fill_item_def item_text_def)
next
  case (Some g)
  note f = find_option_Some [OF p]
  note g = find_flag_Some [OF Some]
  have "mo_option p = mf_option g \<and> \<not> mo_has_param p"
    using option_flag_apart [OF fs, of p g opt] f g by metis
  with Some f g option_text_chars [OF assms] flag_nonzero [of g] show ?thesis
    by (auto simp: item_ok_def fill_item_def item_text_def intro!: bexI [of _ p] bexI [of _ g])
qed

section \<open>Conversion against the specification\<close>

lemma remove_first_filter:
  assumes "distinct (map k l)" and "\<forall>x \<in> set l. P x \<longleftrightarrow> k x = c"
  shows "remove_first P l = filter (\<lambda>x. k x \<noteq> c) l"
  using assms
proof (induction l)
  case (Cons x l)
  then have "P x \<Longrightarrow> filter (\<lambda>x. k x \<noteq> c) l = l" by (auto simp: filter_id_conv image_iff)
  with Cons show ?case by auto
qed simp

definition entry :: "filesystem_options \<Rightarrow> string \<Rightarrow> opt_key \<times> string" where
  "entry fs w = (word_key fs w, w)"

lemma abs_fill_item:
  assumes "find_option_in_list opt n fs = Some p" and "n \<le> length opt"
  shows "abs_item (fill_item (find_mount_flag opt n) opt n p) = entry fs (take n opt)"
proof -
  have len: "length (take n opt) = n" using assms(2) by simp
  have fl: "find_mount_flag (take n opt) (length (take n opt)) = find_mount_flag opt n"
    by (simp only: len find_flag_take)
  have op: "word_option fs (take n opt) = Some p"
    by (simp only: word_option_def len find_option_take assms(1))
  note f = find_option_Some [OF assms]
  have "\<And>g. find_mount_flag opt n = Some g \<Longrightarrow> mf_flag g \<noteq> 0"
    using find_flag_Some flag_nonzero by blast
  with f show ?thesis unfolding abs_item_def entry_def word_key_def fl op
    by (auto simp: fill_item_def item_key_def item_text_def split: option.split)
qed

lemma insert_option_spec:
  assumes fs: "fs \<in> set filesystem_mount_options" and l: "items_ok fs l"
    and p: "find_option_in_list opt n fs = Some p" "n \<le> length opt"
    and v: "validate_option p opt n = ResultSuccess"
    and ins: "insert_option opt n p l w = (r, l', w')"
  shows "items_ok fs l' \<and> (r = ResultSuccess \<and>
      map abs_item l' = set_option (map abs_item l) (entry fs (take n opt))
    \<or> r = ResultFatalError \<and> l' = l \<and> allocs w \<noteq> [])"
proof -
  define new where "new = fill_item (find_mount_flag opt n) opt n p"
  let ?P = "same_option (find_mount_flag opt n) opt"
  have key: "\<forall>x \<in> set l. ?P x \<longleftrightarrow> item_key x = item_key new"
    using same_option_key [OF fs _ p] l unfolding new_def items_ok_def list_all_iff by blast
  have new: "item_ok fs new" "abs_item new = entry fs (take n opt)"
    unfolding new_def using fill_item_ok [OF fs p v] abs_fill_item [OF p] by auto
  have dist: "distinct (map item_key l)" and ok: "\<forall>x \<in> set l. item_ok fs x"
    using l by (simp_all add: items_ok_def list_all_iff)
  define l2 where "l2 = filter (\<lambda>x. item_key x \<noteq> item_key new) l @ [new]"
  have ok2: "items_ok fs l2"
    using dist ok new(1) by (auto simp: l2_def items_ok_def list_all_iff distinct_map_filter)
  have "filter (\<lambda>x. fst x \<noteq> fst (abs_item new)) (map abs_item l)
      = map abs_item (filter (\<lambda>x. item_key x \<noteq> item_key new) l)"
    by (simp add: filter_map abs_item_def o_def)
  then have abs2: "map abs_item l2 = set_option (map abs_item l) (entry fs (take n opt))"
    by (simp add: l2_def set_option_def flip: new(2))
  show ?thesis
  proof (cases "list_ex ?P l")
    case True
    with ins have "r = ResultSuccess" "l' = l2"
      using remove_first_filter [OF dist key]
      by (auto simp: insert_option_def Let_def l2_def new_def)
    with ok2 abs2 show ?thesis by simp
  next
    case False
    with key have none: "\<forall>x \<in> set l. item_key x \<noteq> item_key new" by (auto simp: list_ex_iff)
    then have "l2 = l @ [new]" by (simp add: l2_def)
    with ins False have "r = ResultSuccess \<and> l' = l2 \<or>
        r = ResultFatalError \<and> l' = l \<and> allocs w \<noteq> []"
      by (auto simp: insert_option_def Let_def new_def io_simps split: prod.splits if_splits
            dest!: malloc_all_fails simp del: malloc_all.simps)
    with ok2 abs2 l show ?thesis by auto
  qed
qed

lemma insert_option_quiet:
  assumes "insert_option opt n p l w = (r, l', w')"
  shows "allocs w = [] \<longrightarrow> r = ResultSuccess \<and> w' = w"
proof
  assume "allocs w = []"
  then have "malloc_all [True, True] w = (True, w)" by (rule malloc_all_no_failure)
  with assms show "r = ResultSuccess \<and> w' = w"
    by (simp add: insert_option_def Let_def del: malloc_all.simps split: if_splits)
qed

lemma convert_loop_spec:
  assumes "fs \<in> set filesystem_mount_options" and "items_ok fs l"
    and "convert_loop opt fs l w = (r, l', w')"
  shows "items_ok fs l' \<and>
    (r = ResultSuccess \<longrightarrow> list_all (acceptable fs) (split_words opt) \<and>
       map abs_item l' = foldl set_option (map abs_item l) (map (entry fs) (split_words opt))) \<and>
    (allocs w = [] \<longrightarrow> w' = w \<and> (list_all (acceptable fs) (split_words opt) \<longrightarrow> r = ResultSuccess))"
  using assms
proof (induction opt fs l w arbitrary: r l' w' rule: convert_loop.induct)
  case (1 opt fs l w)
  define n where "n = length (word_of opt)"
  have nle: "n \<le> length opt" unfolding n_def word_of_def by (rule length_takeWhile_le)
  have word: "word_of opt = take n opt" unfolding n_def word_of_def by (rule takeWhile_eq_take)
  have len: "length (takeWhile (\<lambda>c. c \<noteq> comma) opt) = n" by (simp add: n_def word_of_def)
  have lenw: "length (word_of opt) = n" by (simp add: n_def)
  have wopt: "word_option fs (word_of opt) = find_option_in_list opt n fs"
    by (simp only: word_option_def lenw) (simp only: word find_option_take)
  have val: "validate_option p (word_of opt) n = validate_option p opt n" for p
    by (simp only: word validate_option_take)
  note conv = "1.prems"(3) [unfolded convert_loop.simps [of opt] Let_def len]
  have split: "split_words opt = word_of opt # (case drop n opt of [] \<Rightarrow> [] | _ # o' \<Rightarrow> split_words o')"
    by (subst split_words.simps) (simp only: lenw)
  show ?case
  proof (cases "n = 0 \<or> find_option_in_list opt n fs = None")
    case True
    then have "\<not> acceptable fs (word_of opt)" using wopt lenw by (auto simp: acceptable_def)
    with True conv "1.prems"(2) split show ?thesis by (auto split: if_splits)
  next
    case False
    then obtain p where n: "n \<noteq> 0" and p: "find_option_in_list opt n fs = Some p" by auto
    show ?thesis
    proof (cases "validate_option p opt n = ResultSuccess")
      case False
      then have "\<not> acceptable fs (word_of opt)" using wopt p lenw val by (simp add: acceptable_def)
      with False conv n p "1.prems"(2) split show ?thesis by auto
    next
      case True
      have acc: "acceptable fs (word_of opt)"
        using True wopt p lenw val n by (auto simp: acceptable_def)
      obtain r1 l1 w1 where ins: "insert_option opt n p l w = (r1, l1, w1)"
        by (metis prod_cases3)
      note step = insert_option_spec [OF "1.prems"(1,2) p nle True ins]
      show ?thesis
      proof (cases "r1 = ResultSuccess")
        case False
        with conv n p True ins have "r = r1 \<and> l' = l1 \<and> w' = w1" by simp
        with step False insert_option_quiet [OF ins] show ?thesis by auto
      next
        case r1: True
        show ?thesis
        proof (cases "drop n opt")
          case Nil
          with conv n p True ins r1 have "r = ResultSuccess \<and> l' = l1 \<and> w' = w1" by simp
          with step r1 Nil split acc word insert_option_quiet [OF ins] show ?thesis by simp
        next
          case (Cons c o')
          with conv n p True ins r1 have rec: "convert_loop o' fs l1 w1 = (r, l', w')" by simp
          from step have "items_ok fs l1" by simp
          from "1.IH" [OF len [symmetric] n p _ ins [symmetric] _ _ Cons "1.prems"(1) this rec]
          show ?thesis
            using True r1 step split acc word Cons insert_option_quiet [OF ins] by simp
        qed
      qed
    qed
  qed
qed

section \<open>Lists of options\<close>

definition option_words :: "string \<Rightarrow> string list" where
  "option_words opts = (if opts = [] then [] else split_words opts)"

definition id_ok :: "fsopts_id \<Rightarrow> bool" where
  "id_ok i \<longleftrightarrow> list_all (list_all opt_char) (id_texts i)"

definition list_ok :: "filesystem_options \<Rightarrow> fsopts_list \<Rightarrow> bool" where
  "list_ok fs l \<longleftrightarrow> items_ok fs (items l) \<and> id_ok (option_uid l) \<and> id_ok (option_gid l)"

lemma list_ok_init [simp]: "list_ok fs init_options_list"
  by (simp add: list_ok_def init_options_list_def init_options_list_id_def items_ok_def id_ok_def
        id_texts_def)

lemma add_id_ok:
  assumes "add_id name num i w = (r, i', w')" and "id_ok i"
    and "\<And>s. name = Some s \<Longrightarrow> list_all opt_char s"
  shows "id_ok i' \<and> (allocs w = [] \<longrightarrow> r = ResultSuccess \<and> w' = w)"
proof -
  have "list_all opt_char (decimal k)" for k
    using decimal_digits [of _ k] by (auto simp: list_all_iff opt_char_def ctype_simps)
  with assms show ?thesis
    by (auto simp: add_id_def id_ok_def id_texts_def free_options_list_id_def io_simps
        split: option.splits prod.splits if_splits)
qed

lemma id_names: "list_all (\<lambda>fs. fs_option_uid fs = Some ''uid='' \<and> fs_option_gid fs = Some ''gid='')
  filesystem_mount_options"
  by (simp add: filesystem_mount_options_def)

lemma id_name_chars: "list_all opt_char ''uid=''" "list_all opt_char ''gid=''"
  by (simp_all add: opt_char_def ctype_simps)

lemma convert_options_spec:
  assumes fs: "fs \<in> set filesystem_mount_options" and l: "list_ok fs l"
    and conv: "convert_options_to_list (Some opts) (Some fs) uid gid l w = (r, l', w')"
  shows "list_ok fs l' \<and>
    (r = ResultSuccess \<longrightarrow> list_all (acceptable fs) (option_words opts) \<and>
       map abs_item (items l') = foldl set_option (map abs_item (items l)) (map (entry fs) (option_words opts))) \<and>
    (allocs w = [] \<longrightarrow> list_all (acceptable fs) (option_words opts) \<longrightarrow> r = ResultSuccess)"
proof -
  obtain r1 its w1 where loop: "(if opts = [] then (ResultSuccess, items l, w)
      else convert_loop opts fs (items l) w) = (r1, its, w1)" by (metis prod_cases3)
  have its: "items_ok fs (items l)" and ids: "id_ok (option_uid l)" "id_ok (option_gid l)"
    using l by (simp_all add: list_ok_def)
  have 1: "items_ok fs its \<and>
    (r1 = ResultSuccess \<longrightarrow> list_all (acceptable fs) (option_words opts) \<and>
       map abs_item its = foldl set_option (map abs_item (items l)) (map (entry fs) (option_words opts))) \<and>
    (allocs w = [] \<longrightarrow> list_all (acceptable fs) (option_words opts) \<longrightarrow> r1 = ResultSuccess \<and> w1 = w)"
  proof (cases "opts = []")
    case True
    with loop its show ?thesis by (simp add: option_words_def)
  next
    case False
    with loop convert_loop_spec [OF fs its] show ?thesis by (auto simp: option_words_def)
  qed
  obtain r2 u w2 where u: "add_id (fs_option_uid fs) uid (option_uid l) w1 = (r2, u, w2)"
    by (metis prod_cases3)
  obtain r3 g w3 where g: "add_id (fs_option_gid fs) gid (option_gid l) w2 = (r3, g, w3)"
    by (metis prod_cases3)
  have names: "fs_option_uid fs = Some s \<Longrightarrow> list_all opt_char s"
    "fs_option_gid fs = Some s \<Longrightarrow> list_all opt_char s" for s
    using fs id_names id_name_chars by (auto simp: list_all_iff [of _ filesystem_mount_options])
  note 2 = add_id_ok [OF u ids(1) names(1)] add_id_ok [OF g ids(2) names(2)]
  show ?thesis
  proof (cases "r1 = ResultSuccess \<and> r2 = ResultSuccess")
    case True
    with conv loop u g have "r = r3" "l' = l\<lparr>items := its, option_uid := u, option_gid := g\<rparr>"
      by (simp_all add: convert_options_to_list_def)
    with 1 2 True show ?thesis by (auto simp: list_ok_def)
  next
    case False
    with conv loop u have "r \<noteq> ResultSuccess \<and> (r = r1 \<and> l' = l\<lparr>items := its\<rparr> \<or>
       r1 = ResultSuccess \<and> r = r2 \<and> l' = l\<lparr>items := its, option_uid := u\<rparr>)"
      by (auto simp: convert_options_to_list_def Let_def split: if_splits)
    with 1 2 ids show ?thesis by (auto simp: list_ok_def)
  qed
qed

section \<open>The mount flags\<close>

definition add_flag :: "ulong \<Rightarrow> fsopts_item \<Rightarrow> ulong" where
  "add_flag flags it = (if it_flag it = 0 then flags else apply_flag it flags)"

lemma generate_items_flags:
  "snd (snd (generate_items its (a, b, fl))) = foldl add_flag fl its"
  by (induction its arbitrary: a b fl) (simp_all add: add_flag_def)

lemma apply_flag_self:
  "apply_flag it fl AND it_flag it = (if it_enabled it then it_flag it else 0)"
  by (rule bit_eqI) (auto simp: apply_flag_def bit_simps)

lemma add_flag_other:
  assumes "it_flag it AND g = 0"
  shows "add_flag fl it AND g = fl AND g"
proof -
  have "\<not> (bit (it_flag it) n \<and> bit g n)" for n
    using assms by (metis bit_and_iff bit_0_eq bot_apply bot_bool_def)
  then show ?thesis by (auto intro!: bit_eqI simp: add_flag_def apply_flag_def bit_simps)
qed

lemma item_flags_disjoint:
  assumes "item_ok fs a" and "item_ok fs b" and "it_flag a \<noteq> it_flag b"
  shows "it_flag a AND it_flag b = 0"
proof (cases "it_flag a = 0 \<or> it_flag b = 0")
  case False
  obtain f g where "f \<in> set string_to_mount_flag_list" "mf_flag f = it_flag a"
    "g \<in> set string_to_mount_flag_list" "mf_flag g = it_flag b"
    using item_okD [OF assms(1)] item_okD [OF assms(2)] False by metis
  with flags_disjoint [of f g] assms(3) show ?thesis by simp
qed auto

lemma foldl_add_flag_other:
  "(\<And>x. x \<in> set its \<Longrightarrow> it_flag x AND g = 0) \<Longrightarrow> foldl add_flag fl its AND g = fl AND g"
  by (induction its arbitrary: fl) (simp_all add: add_flag_other)

lemma flags_of_item:
  assumes ok: "items_ok fs its" and it: "it \<in> set its" and nz: "it_flag it \<noteq> 0"
  shows "foldl add_flag fl its AND it_flag it = (if it_enabled it then it_flag it else 0)"
proof -
  from it obtain xs ys where its: "its = xs @ it # ys" by (metis split_list)
  have "it_flag y AND it_flag it = 0" if "y \<in> set ys" for y
  proof (rule item_flags_disjoint)
    show "item_ok fs y" "item_ok fs it" using ok that by (auto simp: items_ok_def its list_all_iff)
    have "item_key it \<notin> item_key ` set ys" using ok by (simp add: items_ok_def its)
    then have "item_key y \<noteq> item_key it" using that by (metis imageI)
    then show "it_flag y \<noteq> it_flag it" using nz by (auto simp: item_key_def split: if_splits)
  qed
  then show ?thesis
    using nz by (simp add: its foldl_add_flag_other) (simp add: add_flag_def apply_flag_self)
qed

section \<open>Printing\<close>

lemma holds_put_item:
  "holds m n (join_comma ts) (length ts) b \<Longrightarrow>
   holds m n (join_comma (ts @ [item_text it])) (length (ts @ [item_text it])) (put_item it b)"
  unfolding put_item_def by (rule holds_put_next)

lemma holds_generate_items:
  assumes "holds m1 n1 (join_comma ts) (length ts) b1" and "holds m2 n2 (join_comma us) (length us) b2"
    and "generate_items its (b1, b2, fl) = (c1, c2, fl')"
  shows "holds m1 n1 (join_comma (ts @ map item_text its)) (length (ts @ map item_text its)) c1 \<and>
    holds m2 n2 (join_comma (us @ map item_text (filter (\<lambda>it. it_flag it = 0) its)))
      (length (us @ map item_text (filter (\<lambda>it. it_flag it = 0) its))) c2"
  using assms
proof (induction its arbitrary: ts us b1 b2 fl)
  case (Cons it its)
  note h1 = holds_put_item [OF Cons.prems(1), of it]
  show ?case
  proof (cases "it_flag it = 0")
    case True
    with Cons.prems(3) have "generate_items its (put_item it b1, put_item it b2, fl) = (c1, c2, fl')"
      by simp
    from Cons.IH [OF h1 holds_put_item [OF Cons.prems(2), of it] this] True show ?thesis by simp
  next
    case False
    with Cons.prems(3) have "generate_items its (put_item it b1, b2, apply_flag it fl) = (c1, c2, fl')"
      by simp
    from Cons.IH [OF h1 Cons.prems(2) this] False show ?thesis by simp
  qed
qed simp

lemma holds_put_done: "holds m n s k c \<Longrightarrow> holds m n s (Suc k) (put_done c)"
  by (simp add: holds_def put_done_def)

lemma holds_put_next2:
  assumes "holds m n (join_comma ts) (length ts) b"
  shows "holds m n (join_comma (ts @ [u @ v])) (length (ts @ [u @ v]))
    (put_done (put_text v (put_text u (put_sep b))))"
proof -
  have items: "ob_items b = length ts" using assms by (simp add: holds_def)
  have "holds m n (join_comma (ts @ [u])) (length ts) (put_text u (put_sep b))"
    using holds_put_next [OF assms, of u] by (simp add: holds_def put_done_def)
  then have "holds m n (join_comma (ts @ [u]) @ v) (length ts) (put_text v (put_text u (put_sep b)))"
    by (rule holds_put_text)
  then show ?thesis
    using holds_put_done by (simp add: join_comma_snoc split: if_splits)
qed

lemma holds_put_id:
  assumes "holds m n (join_comma ts) (length ts) b"
  shows "holds m n (join_comma (ts @ id_texts i)) (length (ts @ id_texts i)) (put_id i b)"
proof -
  show ?thesis
  proof (cases "id_value i = None \<or> id_option i = None")
    case True
    with assms show ?thesis by (auto simp: put_id_def id_texts_def split: option.split)
  next
    case False
    then obtain v u where i: "id_value i = Some v" "id_option i = Some u" by auto
    have "holds m n (join_comma (ts @ [u @ v])) (length (ts @ [u @ v]))
      (put_done (put_text v (put_text u (put_sep b))))"
      using holds_put_next2 [OF assms] .
    with i show ?thesis by (simp add: put_id_def id_texts_def)
  qed
qed

lemma generate_string_holds:
  assumes "fsopts_generate_string (Some l) fm fn sm sn = Inr (full, str, flags)"
    and "\<And>x. fm = Some x \<Longrightarrow> fn \<le> length x" and "\<And>x. sm = Some x \<Longrightarrow> sn \<le> length x"
  shows "holds fm fn (join_comma (full_texts l)) (length (full_texts l)) full \<and>
    holds sm sn (join_comma (plain_texts l)) (length (plain_texts l)) str \<and>
    flags = foldl add_flag 0 (items l)"
proof -
  obtain b1 b2 fl where g: "generate_items (items l) (start_buf fm fn, start_buf sm sn, 0) = (b1, b2, fl)"
    by (metis prod_cases3)
  have start: "holds fm fn (join_comma []) (length ([] :: string list)) (start_buf fm fn)"
    "holds sm sn (join_comma []) (length ([] :: string list)) (start_buf sm sn)"
    using holds_start assms(2,3) by simp_all
  have res: "full = put_id (option_gid l) (put_id (option_uid l) b1)"
    "str = put_id (option_gid l) (put_id (option_uid l) b2)" "flags = fl"
    using assms(1) g by (simp_all add: fsopts_generate_string_def)
  have fl: "flags = foldl add_flag 0 (items l)"
    using generate_items_flags [of "items l" "start_buf fm fn" "start_buf sm sn" 0] g res by simp
  note h = holds_generate_items [OF start g]
  note h1 = holds_put_id [OF holds_put_id [OF conjunct1 [OF h]], of "option_uid l" "option_gid l"]
  note h2 = holds_put_id [OF holds_put_id [OF conjunct2 [OF h]], of "option_uid l" "option_gid l"]
  from h1 h2 res fl show ?thesis by (simp add: full_texts_def plain_texts_def)
qed


lemma generate_string_total:
  "\<exists>full str flags. fsopts_generate_string (Some l) fm fn sm sn = Inr (full, str, flags)"
  by (auto simp: fsopts_generate_string_def split: prod.split)

section \<open>The mandatory options\<close>

lemma mandatory_entries:
  "list_all (\<lambda>fs. list_all (acceptable fs) (option_words (fs_defaults fs)) \<and>
       list_all (acceptable fs) (option_words (fs_mandatory_options fs)) \<and>
       take 2 (map (entry fs) (option_words (fs_mandatory_options fs))) =
         [(FlagKey MS_NODEV, ''nodev''), (FlagKey MS_NOSUID, ''nosuid'')] \<and>
       list_all (\<lambda>e. fst e \<noteq> FlagKey MS_NODEV \<and> fst e \<noteq> FlagKey MS_NOSUID)
         (drop 2 (map (entry fs) (option_words (fs_mandatory_options fs)))))
     filesystem_mount_options"
  by code_simp

lemma foldl_set_option_keeps:
  "x \<in> set kvs \<Longrightarrow> list_all (\<lambda>e. fst e \<noteq> fst x) es \<Longrightarrow> x \<in> set (foldl set_option kvs es)"
proof (induction es arbitrary: kvs)
  case (Cons e es)
  then have "x \<in> set (set_option kvs e)" by (auto simp: set_option_def)
  with Cons show ?case by simp
qed simp

lemma mandatory_in_list:
  assumes "fs \<in> set filesystem_mount_options"
    and "kvs' = foldl set_option kvs (map (entry fs) (option_words (fs_mandatory_options fs)))"
  shows "(FlagKey MS_NODEV, ''nodev'') \<in> set kvs' \<and> (FlagKey MS_NOSUID, ''nosuid'') \<in> set kvs'"
proof -
  define es where "es = map (entry fs) (option_words (fs_mandatory_options fs))"
  have es: "take 2 es = [(FlagKey MS_NODEV, ''nodev''), (FlagKey MS_NOSUID, ''nosuid'')]"
    "list_all (\<lambda>e. fst e \<noteq> FlagKey MS_NODEV \<and> fst e \<noteq> FlagKey MS_NOSUID) (drop 2 es)"
    using assms(1) mandatory_entries unfolding es_def
    by (simp_all only: list_all_iff [of _ filesystem_mount_options])
  have apart: "MS_NODEV \<noteq> MS_NOSUID" by (simp add: ms_defs)
  have all: "es = [(FlagKey MS_NODEV, ''nodev''), (FlagKey MS_NOSUID, ''nosuid'')] @ drop 2 es"
    using es(1) by (metis append_take_drop_id)
  let ?a = "set_option kvs (FlagKey MS_NODEV, ''nodev'')"
  let ?b = "set_option ?a (FlagKey MS_NOSUID, ''nosuid'')"
  have "kvs' = foldl set_option ?b (drop 2 es)"
    using assms(2) all unfolding es_def [symmetric] by (metis foldl_Cons append_Cons append_Nil)
  moreover have "(FlagKey MS_NODEV, ''nodev'') \<in> set ?b" "(FlagKey MS_NOSUID, ''nosuid'') \<in> set ?b"
    using apart by (auto simp: set_option_def)
  ultimately show ?thesis
    using foldl_set_option_keeps [of _ ?b "drop 2 es"] es(2) by (auto simp: list_all_iff)
qed

text \<open>A word of the table that is in the list decides its flag.\<close>

lemma word_in_list_flag:
  assumes ok: "items_ok fs its" and e: "(FlagKey k, s) \<in> set (map abs_item its)"
    and s: "\<forall>f \<in> set string_to_mount_flag_list. mf_option f = s \<longrightarrow> mf_enabled f"
  shows "foldl add_flag fl its AND k = k"
proof -
  from e obtain it where it: "it \<in> set its" "item_key it = FlagKey k" "item_text it = s"
    by (auto simp: abs_item_def)
  then have k: "it_flag it = k" "it_flag it \<noteq> 0" by (auto simp: item_key_def split: if_splits)
  have "item_ok fs it" using ok it(1) by (auto simp: items_ok_def list_all_iff)
  then obtain q where q: "q \<in> set (allowed_options fs)"
    "take (it_len it) (it_option it) = mo_option q" "it_len it = length (mo_option q)"
    "it_flag it \<noteq> 0 \<longrightarrow> it_full_len it = it_len it \<and>
       (\<exists>f \<in> set string_to_mount_flag_list. mf_flag f = it_flag it \<and>
       mf_enabled f = it_enabled it \<and> mf_option f = mo_option q)"
    by (rule item_okD)
  with k s it(3) have "it_enabled it" by (auto simp: item_text_def)
  with flags_of_item [OF ok it(1) k(2), of fl] k(1) show ?thesis by simp
qed

lemma nodev_nosuid_enable:
  "\<forall>f \<in> set string_to_mount_flag_list. mf_option f = ''nodev'' \<longrightarrow> mf_enabled f"
  "\<forall>f \<in> set string_to_mount_flag_list. mf_option f = ''nosuid'' \<longrightarrow> mf_enabled f"
  by (simp_all add: string_to_mount_flag_list_def)

section \<open>Properties\<close>

text \<open>C17. Accepting a comma-separated option string refines a map update: on success the list
  holds, in order of their last occurrence, exactly one word for every flag and option name
  set so far, the last one given; without allocation failures it succeeds exactly when
  every word is a non-empty allowed option with a valid value.\<close>

theorem convert_options_last_wins:
  assumes "fs \<in> set filesystem_mount_options" and "list_ok fs l"
    and "convert_options_to_list (Some opts) (Some fs) uid gid l w = (r, l', w')"
  shows "list_ok fs l' \<and>
    (r = ResultSuccess \<longrightarrow> map abs_item (items l') =
       foldl set_option (map abs_item (items l)) (map (entry fs) (option_words opts))) \<and>
    (allocs w = [] \<longrightarrow> (r = ResultSuccess \<longleftrightarrow> list_all (acceptable fs) (option_words opts)))"
  using convert_options_spec [OF assms] by blast

text \<open>Whatever option string a client sends, accepted or not, the option string built for
  the mount command contains only letters, digits, minus, underscore, the equals sign and
  the separating commas: no character that a shell interprets.\<close>

lemma option_string_is_harmless:
  assumes "fs \<in> set filesystem_mount_options" and "list_ok fs l"
    and "convert_options_to_list (Some opts) (Some fs) uid gid l w = (r, l', w')"
    and "c \<in> set (join_comma (full_texts l'))"
  shows "opt_char c \<or> c = comma"
proof -
  have ok: "list_ok fs l'" using convert_options_spec [OF assms(1-3)] by blast
  have "list_all (list_all opt_char) (full_texts l')"
    using ok unfolding list_ok_def items_ok_def id_ok_def full_texts_def
    by (auto simp: list_all_iff item_ok_def)
  moreover have "list_all (list_all opt_char) ts \<Longrightarrow> c \<in> set (join_comma ts) \<Longrightarrow> opt_char c \<or> c = comma" for ts
    by (induction ts rule: join_comma.induct) (auto simp: list_all_iff)
  ultimately show ?thesis using assms(4) by blast
qed

text \<open>C32. \<open>fsopts_generate_string\<close> never writes past the memory it is given, whatever the sizes;
  each buffer ends up holding the longest prefix of its option string that fits, and the
  lengths it reports are those of the complete strings.\<close>

theorem generate_string_prints:
  assumes "fsopts_generate_string (Some l) fm fn sm sn = Inr (full, str, flags)"
    and "\<And>x. fm = Some x \<Longrightarrow> fn \<le> length x" and "\<And>x. sm = Some x \<Longrightarrow> sn \<le> length x"
  shows "\<not> ob_overrun full \<and> \<not> ob_overrun str \<and>
    ob_len full = length (join_comma (full_texts l)) \<and> ob_len str = length (join_comma (plain_texts l)) \<and>
    ob_mem full = map_option (stored fn (join_comma (full_texts l))) fm \<and>
    ob_mem str = map_option (stored sn (join_comma (plain_texts l))) sm"
  using generate_string_holds [OF assms] by (simp add: holds_def)

text \<open>The way the daemon uses it, once to measure and once to fill buffers of exactly the
  measured sizes, yields both option strings complete, and the same flags.\<close>

lemma generate_string_twice:
  "\<exists>full str flags full' str'.
     fsopts_generate_string (Some l) None 0 None 0 = Inr (full, str, flags) \<and>
     fsopts_generate_string (Some l) (Some (replicate (ob_len full) z)) (ob_len full)
       (Some (replicate (ob_len str) z)) (ob_len str) = Inr (full', str', flags) \<and>
     ob_mem full' = Some (join_comma (full_texts l)) \<and> ob_mem str' = Some (join_comma (plain_texts l))"
proof -
  note gen = generate_string_total [of l]
  obtain f s fl where 1: "fsopts_generate_string (Some l) None 0 None 0 = Inr (f, s, fl)"
    using gen by blast
  obtain f' s' fl' where 2: "fsopts_generate_string (Some l) (Some (replicate (ob_len f) z)) (ob_len f)
       (Some (replicate (ob_len s) z)) (ob_len s) = Inr (f', s', fl')" using gen by blast
  from generate_string_holds [OF 1] generate_string_holds [OF 2]
  have "fl' = fl" "ob_mem f' = Some (join_comma (full_texts l))"
    "ob_mem s' = Some (join_comma (plain_texts l))"
    by (simp_all add: holds_def stored_def)
  with 1 2 show ?thesis by blast
qed

text \<open>C36. The mandatory options of a filesystem are enforced: once they have been converted on
  top of whatever a client asked for, the mount flags contain \<^verbatim>\<open>MS_NODEV\<close> and
  \<^verbatim>\<open>MS_NOSUID\<close>.\<close>

theorem mandatory_flags_enforced:
  assumes "fs \<in> set filesystem_mount_options" and "list_ok fs l"
    and "convert_options_to_list (Some (fs_mandatory_options fs)) (Some fs) uid gid l w
      = (ResultSuccess, l', w')"
    and "fsopts_generate_string (Some l') fm fn sm sn = Inr (full, str, flags)"
  shows "flags AND MS_NODEV = MS_NODEV \<and> flags AND MS_NOSUID = MS_NOSUID"
proof -
  note c = convert_options_spec [OF assms(1-3)]
  then have ok: "items_ok fs (items l')" by (simp add: list_ok_def)
  obtain b1 b2 fl where g: "generate_items (items l') (start_buf fm fn, start_buf sm sn, 0) = (b1, b2, fl)"
    by (metis prod_cases3)
  have "flags = foldl add_flag 0 (items l')"
    using assms(4) g generate_items_flags [of "items l'" "start_buf fm fn" "start_buf sm sn" 0]
    by (simp add: fsopts_generate_string_def)
  moreover have "(FlagKey MS_NODEV, ''nodev'') \<in> set (map abs_item (items l'))"
    "(FlagKey MS_NOSUID, ''nosuid'') \<in> set (map abs_item (items l'))"
    using mandatory_in_list [OF assms(1)] c by blast+
  ultimately show ?thesis using word_in_list_flag [OF ok] nodev_nosuid_enable by blast
qed

section \<open>Witnesses\<close>

text \<open>A client's options for a FAT volume, then the mandatory ones.\<close>

abbreviation (input) vfat :: filesystem_options where
  "vfat \<equiv> filesystem_mount_options ! 0"

lemma vfat_in: "vfat \<in> set filesystem_mount_options"
  by (simp add: filesystem_mount_options_def)

definition demo_user :: fsopts_list where
  "demo_user = fst (snd (convert_options_to_list (Some ''rw,utf8=1,flush,utf8=0,ro'')
     (Some vfat) (Some 1000) None init_options_list quiet_io))"

definition demo_both :: fsopts_list where
  "demo_both = fst (snd (convert_options_to_list (Some (fs_mandatory_options vfat))
     (Some vfat) None None demo_user quiet_io))"

lemma demo_user_val:
  "convert_options_to_list (Some ''rw,utf8=1,flush,utf8=0,ro'') (Some vfat) (Some 1000) None
     init_options_list quiet_io = (ResultSuccess, demo_user, quiet_io)"
  by code_simp

lemma demo_both_val:
  "convert_options_to_list (Some (fs_mandatory_options vfat)) (Some vfat) None None demo_user
     quiet_io = (ResultSuccess, demo_both, quiet_io)"
  by code_simp

lemma demo_texts:
  "full_texts demo_user = [''flush'', ''utf8=0'', ''ro'', ''uid=1000'']"
  "plain_texts demo_user = [''flush'', ''utf8=0'', ''uid=1000'']"
  by code_simp+

lemma demo_user_ok: "list_ok vfat demo_user"
  using convert_options_spec [OF vfat_in list_ok_init demo_user_val] by simp

theorem convert_options_last_wins_witness:
  "map snd (map abs_item (items demo_user)) = [''flush'', ''utf8=0'', ''ro''] \<and>
   map abs_item (items demo_user) =
     foldl set_option [] (map (entry vfat) (option_words ''rw,utf8=1,flush,utf8=0,ro'')) \<and>
   \<not> list_all (acceptable vfat) (option_words ''rw,dev'')"
proof -
  have "items init_options_list = []" by (simp add: init_options_list_def)
  then have "map abs_item (items demo_user) =
     foldl set_option [] (map (entry vfat) (option_words ''rw,utf8=1,flush,utf8=0,ro''))"
    using convert_options_last_wins [OF vfat_in list_ok_init demo_user_val] by simp
  moreover have "map snd (map abs_item (items demo_user)) = [''flush'', ''utf8=0'', ''ro'']"
    "\<not> list_all (acceptable vfat) (option_words ''rw,dev'')"
    by code_simp+
  ultimately show ?thesis by blast
qed

theorem generate_string_prints_witness:
  "\<exists>full str flags.
     fsopts_generate_string (Some demo_user) (Some ''0123456789'') 8 None 0 = Inr (full, str, flags) \<and>
     ob_mem full = Some ''flush,ut89'' \<and> ob_len full = 24 \<and> ob_len str = 21 \<and> \<not> ob_overrun full"
proof -
  obtain f s fl where g: "fsopts_generate_string (Some demo_user) (Some ''0123456789'') 8 None 0
      = Inr (f, s, fl)"
    using generate_string_total by blast
  from generate_string_prints [OF g] g show ?thesis
    by (simp add: demo_texts stored_def)
qed

theorem mandatory_flags_enforced_witness:
  "\<exists>full str flags.
     fsopts_generate_string (Some demo_both) None 0 None 0 = Inr (full, str, flags) \<and>
     flags AND MS_NODEV = MS_NODEV \<and> flags AND MS_NOSUID = MS_NOSUID"
proof -
  obtain f s fl where g: "fsopts_generate_string (Some demo_both) None 0 None 0 = Inr (f, s, fl)"
    using generate_string_total by blast
  from mandatory_flags_enforced [OF vfat_in demo_user_ok demo_both_val g] g show ?thesis by blast
qed

end
