(* ===== verification/Dtmd_Config.thy ===== *)
theory Dtmd_Config
  imports Dtmd_Fsopts_Spec
begin

text \<open>
  \<^verbatim>\<open>daemon/config_file.c\<close>: reading the configuration file.  Each line is scanned character
  by character for a key and a value (\<open>scan_line\<close>), each pair sets one of the daemon's
  global variables (\<open>process_config_value\<close>); the default and mandatory mount options of
  each filesystem are kept in two arrays.
\<close>

section \<open>The configuration\<close>

datatype mount_by_value_enum = mount_by_device_name | mount_by_device_label

record config =
  use_syslog :: bool
  unmount_on_exit :: bool
  mount_by_value :: mount_by_value_enum
  mount_dir :: "string option"
  create_mount_dir_on_startup :: bool
  clear_mount_dir :: bool
  default_mount_opts_array :: "(string \<times> string) list"
  mandatory_mount_opts_array :: "(string \<times> string) list"

definition initial_config :: config where
  "initial_config = \<lparr>use_syslog = True, unmount_on_exit = False,
     mount_by_value = mount_by_device_name, mount_dir = None,
     create_mount_dir_on_startup = False, clear_mount_dir = True,
     default_mount_opts_array = [], mandatory_mount_opts_array = []\<rparr>"

section \<open>The two arrays of mount options\<close>

fun replace_opts :: "string \<Rightarrow> string \<Rightarrow> (string \<times> string) list \<Rightarrow> (string \<times> string) list" where
  "replace_opts fs opts [] = []"
| "replace_opts fs opts ((f, p) # xs) =
     (if strcmp fs f = 0 then (f, opts) # xs else (f, p) # replace_opts fs opts xs)"

text \<open>Replacing the options of a filesystem that has some already yields \<open>result_fail\<close>.\<close>

definition insert_mount_opts_into_array ::
  "string \<Rightarrow> string \<Rightarrow> (string \<times> string) list \<Rightarrow> io \<Rightarrow> result \<times> (string \<times> string) list \<times> io" where
  "insert_mount_opts_into_array fs opts arr w =
     (if list_ex (\<lambda>x. strcmp fs (fst x) = 0) arr then (ResultFail, replace_opts fs opts arr, w)
      else case malloc_all [True, True] w of (ok, w') \<Rightarrow>
        if ok then (ResultSuccess, arr @ [(fs, opts)], w') else (ResultFatalError, arr, w'))"

definition insert_default_mount_opts_into_array ::
  "string \<Rightarrow> string \<Rightarrow> config \<Rightarrow> io \<Rightarrow> result \<times> config \<times> io" where
  "insert_default_mount_opts_into_array fs opts c w =
     (case insert_mount_opts_into_array fs opts (default_mount_opts_array c) w of
        (r, arr, w') \<Rightarrow> (r, c\<lparr>default_mount_opts_array := arr\<rparr>, w'))"

definition insert_mandatory_mount_opts_into_array ::
  "string \<Rightarrow> string \<Rightarrow> config \<Rightarrow> io \<Rightarrow> result \<times> config \<times> io" where
  "insert_mandatory_mount_opts_into_array fs opts c w =
     (case insert_mount_opts_into_array fs opts (mandatory_mount_opts_array c) w of
        (r, arr, w') \<Rightarrow> (r, c\<lparr>mandatory_mount_opts_array := arr\<rparr>, w'))"

fun generic_get_mount_options_for_fs_from_config ::
  "string \<Rightarrow> (string \<times> string) list \<Rightarrow> string option" where
  "generic_get_mount_options_for_fs_from_config fs [] = None"
| "generic_get_mount_options_for_fs_from_config fs ((f, p) # xs) =
     (if strcmp fs f = 0 then Some p else generic_get_mount_options_for_fs_from_config fs xs)"

definition get_default_mount_options_for_fs_from_config :: "string \<Rightarrow> config \<Rightarrow> string option" where
  "get_default_mount_options_for_fs_from_config fs c =
     generic_get_mount_options_for_fs_from_config fs (default_mount_opts_array c)"

definition get_mandatory_mount_options_for_fs_from_config :: "string \<Rightarrow> config \<Rightarrow> string option" where
  "get_mandatory_mount_options_for_fs_from_config fs c =
     generic_get_mount_options_for_fs_from_config fs (mandatory_mount_opts_array c)"

definition free_config :: "config \<Rightarrow> config" where
  "free_config c = c\<lparr>mount_dir := None, default_mount_opts_array := [],
     mandatory_mount_opts_array := []\<rparr>"

section \<open>One key and its value\<close>

abbreviation (input) quote :: char where "quote \<equiv> CHR 0x22"

definition quoted :: "string \<Rightarrow> bool" where
  "quoted v \<longleftrightarrow> length v > 1 \<and> v ! 0 = quote \<and> v ! (length v - 1) = quote"

definition unquote :: "string \<Rightarrow> string" where
  "unquote v = take (length v - 2) (drop 1 v)"

definition config_mount_opts ::
  "(string \<Rightarrow> string \<Rightarrow> config \<Rightarrow> io \<Rightarrow> result \<times> config \<times> io) \<Rightarrow>
   string \<Rightarrow> string \<Rightarrow> config \<Rightarrow> io \<Rightarrow> result \<times> config \<times> io" where
  "config_mount_opts ins fs_name value c w =
     (case malloc_all [True, True] w of (ok, w1) \<Rightarrow>
        if \<not> ok then (ResultFatalError, c, w1)
        else let fs_opts = unquote value in
          (case get_fsopts_for_fs (Some fs_name) of
             None \<Rightarrow> (ResultFatalError, c, w1)
           | Some fsopts_type \<Rightarrow>
               (case convert_options_to_list (Some fs_opts) (Some fsopts_type) None None
                       init_options_list w1 of
                  (r, fsopts_list, w2) \<Rightarrow>
                    if is_result_successful r then ins fs_name fs_opts c w2 else (r, c, w2))))"

definition config_default_mount_opts :: string where
  "config_default_mount_opts = ''default_mount_opts_''"

definition config_mandatory_mount_opts :: string where
  "config_mandatory_mount_opts = ''mandatory_mount_opts_''"

definition process_config_value ::
  "string \<Rightarrow> string \<Rightarrow> config \<Rightarrow> io \<Rightarrow> result \<times> config \<times> io" where
  "process_config_value key value c w =
     (if strcmp key ''unmount_on_exit'' = 0 \<and> strcmp value ''yes'' = 0
        then (ResultSuccess, c\<lparr>unmount_on_exit := True\<rparr>, w)
      else if strcmp key ''unmount_on_exit'' = 0 \<and> strcmp value ''no'' = 0
        then (ResultSuccess, c\<lparr>unmount_on_exit := False\<rparr>, w)
      else if strcmp key ''mount_by'' = 0 \<and> strcmp value ''name'' = 0
        then (ResultSuccess, c\<lparr>mount_by_value := mount_by_device_name\<rparr>, w)
      else if strcmp key ''mount_by'' = 0 \<and> strcmp value ''label'' = 0
        then (ResultSuccess, c\<lparr>mount_by_value := mount_by_device_label\<rparr>, w)
      else if strcmp key ''use_syslog'' = 0 then
        (if strcmp value ''yes'' = 0 then (ResultSuccess, c\<lparr>use_syslog := True\<rparr>, w)
         else if strcmp value ''no'' = 0 then (ResultSuccess, c\<lparr>use_syslog := False\<rparr>, w)
         else (ResultFail, c, w))
      else if strcmp key ''mount_dir'' = 0 then
        (if quoted value
         then (case malloc w of (ok, w') \<Rightarrow>
                 if ok then (ResultSuccess, c\<lparr>mount_dir := Some (unquote value)\<rparr>, w')
                 else (ResultFatalError, c\<lparr>mount_dir := None\<rparr>, w'))
         else (ResultFail, c, w))
      else if strcmp key ''create_mount_dir'' = 0 then
        (if strcmp value ''yes'' = 0 then (ResultSuccess, c\<lparr>create_mount_dir_on_startup := True\<rparr>, w)
         else if strcmp value ''no'' = 0
           then (ResultSuccess, c\<lparr>create_mount_dir_on_startup := False\<rparr>, w)
         else (ResultFail, c, w))
      else if strcmp key ''clear_mount_dir'' = 0 then
        (if strcmp value ''yes'' = 0 then (ResultSuccess, c\<lparr>clear_mount_dir := True\<rparr>, w)
         else if strcmp value ''no'' = 0 then (ResultSuccess, c\<lparr>clear_mount_dir := False\<rparr>, w)
         else (ResultFail, c, w))
      else if strncmp_eq key config_default_mount_opts (length config_default_mount_opts) then
        (if length key > length config_default_mount_opts \<and> quoted value
         then config_mount_opts insert_default_mount_opts_into_array
                (drop (length config_default_mount_opts) key) value c w
         else (ResultFail, c, w))
      else if strncmp_eq key config_mandatory_mount_opts (length config_mandatory_mount_opts) then
        (if length key > length config_mandatory_mount_opts \<and> quoted value
         then config_mount_opts insert_mandatory_mount_opts_into_array
                (drop (length config_mandatory_mount_opts) key) value c w
         else (ResultFail, c, w))
      else (ResultFail, c, w))"

section \<open>Scanning a line\<close>

text \<open>Positions in the line, minus one for "not seen".\<close>

record scan =
  inside_quotes :: bool
  key_start :: int
  key_end :: int
  equal_start :: int
  value_start :: int
  value_end :: int

definition scan_start :: scan where
  "scan_start = \<lparr>inside_quotes = False, key_start = -1, key_end = -1, equal_start = -1,
     value_start = -1, value_end = -1\<rparr>"

datatype scan_step = ScanNext scan | ScanStop scan | ScanError

definition is_word_char :: "bool \<Rightarrow> char \<Rightarrow> bool" where
  "is_word_char quotes c \<longleftrightarrow> isalnum (code c) \<or> c = CHR ''_'' \<or> c = CHR ''-'' \<or> c = CHR ''.'' \<or>
     c = CHR ''/'' \<or> c = quote \<or> (quotes \<and> (c = CHR '','' \<or> c = CHR ''=''))"

definition scan_word :: "int \<Rightarrow> scan \<Rightarrow> scan_step" where
  "scan_word i s =
     (if key_start s = -1 then ScanNext (s\<lparr>key_start := i\<rparr>)
      else if key_start s \<noteq> -1 \<and> key_end s = -1 then ScanNext s
      else if equal_start s \<noteq> -1 \<and> value_start s = -1 then ScanNext (s\<lparr>value_start := i\<rparr>)
      else if value_start s \<noteq> -1 \<and> value_end s = -1 then ScanNext s
      else ScanError)"

definition scan_char :: "int \<Rightarrow> char \<Rightarrow> scan \<Rightarrow> scan_step" where
  "scan_char i c s =
     (if is_word_char (inside_quotes s) c
      then scan_word i (if c = quote then s\<lparr>inside_quotes := \<not> inside_quotes s\<rparr> else s)
      else if c = CHR ''='' then
        (if key_start s \<noteq> -1 \<and> equal_start s = -1
         then ScanNext (s\<lparr>equal_start := i, key_end := (if key_end s = -1 then i else key_end s)\<rparr>)
         else ScanError)
      else if isblank (code c) \<or> c = CHR ''#'' then
        (let s' = (if key_start s \<noteq> -1 \<and> key_end s = -1 then s\<lparr>key_end := i\<rparr>
                   else if value_start s \<noteq> -1 \<and> value_end s = -1 then s\<lparr>value_end := i\<rparr>
                   else s)
         in if c = CHR ''#'' then ScanStop s' else ScanNext s')
      else if c = CHR 0x0A then
        (if value_start s \<noteq> -1 \<and> value_end s = -1 then ScanNext (s\<lparr>value_end := i\<rparr>)
         else if value_start s \<noteq> -1 then ScanError
         else ScanNext s)
      else ScanError)"

fun scan_line :: "int \<Rightarrow> string \<Rightarrow> scan \<Rightarrow> scan option" where
  "scan_line i [] s = Some s"
| "scan_line i (c # cs) s = (case scan_char i c s of
     ScanNext s' \<Rightarrow> scan_line (i + 1) cs s' | ScanStop s' \<Rightarrow> Some s' | ScanError \<Rightarrow> None)"

definition slice :: "string \<Rightarrow> int \<Rightarrow> int \<Rightarrow> string" where
  "slice line a b = take (nat (b - a)) (drop (nat a) line)"

text \<open>The key and the value of a line, if it has any; \<open>None\<close> for an error.\<close>

definition parse_line :: "string \<Rightarrow> (string \<times> string) option option" where
  "parse_line line = (case scan_line 0 line scan_start of
     None \<Rightarrow> None
   | Some s \<Rightarrow> Some (if value_end s \<noteq> -1
       then Some (slice line (key_start s) (key_end s), slice line (value_start s) (value_end s))
       else None))"

section \<open>Reading the file\<close>

text \<open>The lines \<open>getline\<close> returns, each with its newline.\<close>

fun getlines :: "string \<Rightarrow> string list" where
  "getlines [] = []"
| "getlines (c # cs) =
     (if c = CHR 0x0A then [c] # getlines cs
      else case getlines cs of [] \<Rightarrow> [[c]] | l # ls \<Rightarrow> (c # l) # ls)"

definition read_config_return_ok :: int where "read_config_return_ok = 0"
definition read_config_return_no_file :: int where "read_config_return_no_file = -1"

fun read_lines :: "int \<Rightarrow> string list \<Rightarrow> config \<Rightarrow> io \<Rightarrow> int \<times> config \<times> io" where
  "read_lines n [] c w = (read_config_return_ok, c, w)"
| "read_lines n (l # ls) c w = (case parse_line l of
     None \<Rightarrow> (n + 1, c, w)
   | Some None \<Rightarrow> read_lines (n + 1) ls c w
   | Some (Some (key, val)) \<Rightarrow> (case process_config_value key val c w of (r, c', w') \<Rightarrow>
       if is_result_failure r then (n + 1, c', w') else read_lines (n + 1) ls c' w'))"

definition read_config :: "string option \<Rightarrow> config \<Rightarrow> io \<Rightarrow> int \<times> config \<times> io" where
  "read_config file c w = (case file of
     None \<Rightarrow> (read_config_return_no_file, c, w)
   | Some contents \<Rightarrow> read_lines 0 (getlines contents) c w)"

end
