(* ===== verification/Dtmd_Misc.thy ===== *)
theory Dtmd_Misc
  imports Dtmd_Prelude
begin

text \<open>
  \<^verbatim>\<open>dtmd.h.in\<close> and \<^verbatim>\<open>library/dtmd-misc.c\<close>: the enumerations the daemon and its clients
  exchange as words of the protocol, and the eight conversions between them.  The contract
  each pair of conversions meets is the locale \<open>enum_words\<close>, interpreted for all four.
\<close>

section \<open>Enumerations\<close>

datatype media_type =
  media_type_unknown_or_persistent | media_type_device_partition
| media_type_stateless_device | media_type_stateful_device

datatype media_subtype =
  media_subtype_unknown_or_persistent | media_subtype_removable_disk
| media_subtype_sd_card | media_subtype_cdrom

datatype media_state =
  media_state_unknown | media_state_empty | media_state_clear | media_state_ok

datatype error_code =
  error_code_unknown | error_code_generic_error | error_code_no_such_removable_device
| error_code_fstype_not_recognized | error_code_unsupported_fstype
| error_code_device_already_mounted | error_code_device_not_mounted
| error_code_failed_parsing_mount_options | error_code_mount_point_busy

section \<open>Conversions\<close>

fun device_type_to_string :: "media_type \<Rightarrow> string" where
  "device_type_to_string media_type_device_partition = ''device partition''"
| "device_type_to_string media_type_stateless_device = ''stateless device''"
| "device_type_to_string media_type_stateful_device = ''stateful device''"
| "device_type_to_string media_type_unknown_or_persistent = ''unknown''"

definition string_to_device_type :: "string option \<Rightarrow> media_type" where
  "string_to_device_type s = (case s of
     None \<Rightarrow> media_type_unknown_or_persistent
   | Some w \<Rightarrow>
       if strcmp w ''device partition'' = 0 then media_type_device_partition
       else if strcmp w ''stateless device'' = 0 then media_type_stateless_device
       else if strcmp w ''stateful device'' = 0 then media_type_stateful_device
       else media_type_unknown_or_persistent)"

fun device_subtype_to_string :: "media_subtype \<Rightarrow> string" where
  "device_subtype_to_string media_subtype_cdrom = ''cdrom''"
| "device_subtype_to_string media_subtype_removable_disk = ''removable disk''"
| "device_subtype_to_string media_subtype_sd_card = ''sdcard''"
| "device_subtype_to_string media_subtype_unknown_or_persistent = ''unknown''"

definition string_to_device_subtype :: "string option \<Rightarrow> media_subtype" where
  "string_to_device_subtype s = (case s of
     None \<Rightarrow> media_subtype_unknown_or_persistent
   | Some w \<Rightarrow>
       if strcmp w ''cdrom'' = 0 then media_subtype_cdrom
       else if strcmp w ''removable disk'' = 0 then media_subtype_removable_disk
       else if strcmp w ''sdcard'' = 0 then media_subtype_sd_card
       else media_subtype_unknown_or_persistent)"

fun device_state_to_string :: "media_state \<Rightarrow> string" where
  "device_state_to_string media_state_empty = ''empty''"
| "device_state_to_string media_state_clear = ''clear''"
| "device_state_to_string media_state_ok = ''ok''"
| "device_state_to_string media_state_unknown = ''unknown''"

definition string_to_device_state :: "string option \<Rightarrow> media_state" where
  "string_to_device_state s = (case s of
     None \<Rightarrow> media_state_unknown
   | Some w \<Rightarrow>
       if strcmp w ''empty'' = 0 then media_state_empty
       else if strcmp w ''clear'' = 0 then media_state_clear
       else if strcmp w ''ok'' = 0 then media_state_ok
       else media_state_unknown)"

fun error_code_to_string :: "error_code \<Rightarrow> string" where
  "error_code_to_string error_code_generic_error = ''generic error''"
| "error_code_to_string error_code_no_such_removable_device = ''no such removable device''"
| "error_code_to_string error_code_fstype_not_recognized = ''fstype not recognized''"
| "error_code_to_string error_code_unsupported_fstype = ''unsupported fstype''"
| "error_code_to_string error_code_device_already_mounted = ''device already mounted''"
| "error_code_to_string error_code_device_not_mounted = ''device not mounted''"
| "error_code_to_string error_code_failed_parsing_mount_options =
     ''failed parsing mount options''"
| "error_code_to_string error_code_mount_point_busy = ''mount point busy''"
| "error_code_to_string error_code_unknown = ''unknown''"

definition string_to_error_code :: "string option \<Rightarrow> error_code" where
  "string_to_error_code s = (case s of
     None \<Rightarrow> error_code_unknown
   | Some w \<Rightarrow>
       if strcmp w ''generic error'' = 0 then error_code_generic_error
       else if strcmp w ''no such removable device'' = 0
         then error_code_no_such_removable_device
       else if strcmp w ''fstype not recognized'' = 0 then error_code_fstype_not_recognized
       else if strcmp w ''unsupported fstype'' = 0 then error_code_unsupported_fstype
       else if strcmp w ''device already mounted'' = 0 then error_code_device_already_mounted
       else if strcmp w ''device not mounted'' = 0 then error_code_device_not_mounted
       else if strcmp w ''failed parsing mount options'' = 0
         then error_code_failed_parsing_mount_options
       else if strcmp w ''mount point busy'' = 0 then error_code_mount_point_busy
       else error_code_unknown)"

section \<open>The contract of a pair of conversions\<close>

text \<open>
  Writing a value and reading it back gives the value; \<open>NULL\<close> and every word no other value
  is written as are read as the enumeration's default.
\<close>

locale enum_words =
  fixes to_word :: "'e \<Rightarrow> string"
    and from_word :: "string option \<Rightarrow> 'e"
    and dflt :: 'e
  assumes from_to: "from_word (Some (to_word e)) = e"
    and from_null: "from_word None = dflt"
    and from_other: "(\<And>e. to_word e \<noteq> w) \<Longrightarrow> from_word (Some w) = dflt"
begin

lemma to_word_inj: "to_word a = to_word b \<longleftrightarrow> a = b"
  using from_to by metis

lemma from_word_known: "from_word s \<noteq> dflt \<Longrightarrow> s = Some (to_word (from_word s))"
proof -
  assume a: "from_word s \<noteq> dflt"
  obtain w where s: "s = Some w"
    using a from_null by (cases s) auto
  obtain e where "to_word e = w"
    using a from_other s by metis
  with s from_to show "s = Some (to_word (from_word s))" by auto
qed

lemma from_word_eq_iff: "e \<noteq> dflt \<Longrightarrow> from_word s = e \<longleftrightarrow> s = Some (to_word e)"
  using from_to from_word_known by auto

end

interpretation type_words:
  enum_words device_type_to_string string_to_device_type media_type_unknown_or_persistent
proof unfold_locales
  fix e show "string_to_device_type (Some (device_type_to_string e)) = e"
    by (cases e) (simp_all add: string_to_device_type_def)
next
  fix w assume "\<And>e. device_type_to_string e \<noteq> w"
  from this [of media_type_device_partition] this [of media_type_stateless_device]
    this [of media_type_stateful_device]
  show "string_to_device_type (Some w) = media_type_unknown_or_persistent"
    by (auto simp: string_to_device_type_def)
qed (simp add: string_to_device_type_def)

interpretation subtype_words:
  enum_words device_subtype_to_string string_to_device_subtype
    media_subtype_unknown_or_persistent
proof unfold_locales
  fix e show "string_to_device_subtype (Some (device_subtype_to_string e)) = e"
    by (cases e) (simp_all add: string_to_device_subtype_def)
next
  fix w assume "\<And>e. device_subtype_to_string e \<noteq> w"
  from this [of media_subtype_cdrom] this [of media_subtype_removable_disk]
    this [of media_subtype_sd_card]
  show "string_to_device_subtype (Some w) = media_subtype_unknown_or_persistent"
    by (auto simp: string_to_device_subtype_def)
qed (simp add: string_to_device_subtype_def)

interpretation state_words:
  enum_words device_state_to_string string_to_device_state media_state_unknown
proof unfold_locales
  fix e show "string_to_device_state (Some (device_state_to_string e)) = e"
    by (cases e) (simp_all add: string_to_device_state_def)
next
  fix w assume "\<And>e. device_state_to_string e \<noteq> w"
  from this [of media_state_empty] this [of media_state_clear] this [of media_state_ok]
  show "string_to_device_state (Some w) = media_state_unknown"
    by (auto simp: string_to_device_state_def)
qed (simp add: string_to_device_state_def)

interpretation error_words:
  enum_words error_code_to_string string_to_error_code error_code_unknown
proof unfold_locales
  fix e show "string_to_error_code (Some (error_code_to_string e)) = e"
    by (cases e) (simp_all add: string_to_error_code_def)
next
  fix w assume "\<And>e. error_code_to_string e \<noteq> w"
  from this [of error_code_generic_error] this [of error_code_no_such_removable_device]
    this [of error_code_fstype_not_recognized] this [of error_code_unsupported_fstype]
    this [of error_code_device_already_mounted] this [of error_code_device_not_mounted]
    this [of error_code_failed_parsing_mount_options] this [of error_code_mount_point_busy]
  show "string_to_error_code (Some w) = error_code_unknown"
    by (auto simp: string_to_error_code_def)
qed (simp add: string_to_error_code_def)

end
