(* ===== verification/Dtmd_Label.thy ===== *)
theory Dtmd_Label
  imports Dtmd_Prelude
begin

text \<open>
  \<^verbatim>\<open>daemon/label.c\<close>: volume labels arrive with C-style escapes (\<^verbatim>\<open>\n\<close>, \<^verbatim>\<open>\x20\<close>,
  \<^verbatim>\<open>\040\<close>) and are stored decoded: control and punctuation characters become a
  backslash and three octal digits, so that a label can be a directory name.
  \<open>decode_label\<close> produces that form, \<open>compare_labels\<close> compares a decoded label with an
  encoded one without allocating.  Both functions read the encoded label in the same
  units, modelled by \<open>label_token\<close>.

  A three-digit octal escape can denote a number above 255.  The code hands it to
  \<open>iscntrl\<close> and \<open>ispunct\<close>, whose behaviour is undefined there: the outcome is
  \<open>LabelUndefined\<close> (\<open>None\<close> for the comparison).
\<close>

section \<open>Reading an encoded label\<close>

abbreviation (input) backslash :: char where "backslash \<equiv> CHR 0x5C"

datatype label_token =
  TokEscape nat   \<comment> \<open>a named escape, always stored as octal digits\<close>
| TokCode nat     \<comment> \<open>a hexadecimal or octal escape\<close>
| TokLiteral char \<comment> \<open>a backslash before any other character, kept with it\<close>
| TokChar char    \<comment> \<open>a character that is not escaped\<close>
| TokBad          \<comment> \<open>a malformed escape\<close>
| TokUndefined    \<comment> \<open>an octal escape above 255\<close>

fun named_escape :: "char \<Rightarrow> nat option" where
  "named_escape c =
     (if c = CHR ''a'' then Some 7
      else if c = CHR ''b'' then Some 8
      else if c = CHR ''f'' then Some 12
      else if c = CHR ''n'' then Some 10
      else if c = CHR ''r'' then Some 13
      else if c = CHR ''t'' then Some 9
      else if c = CHR 0x5C then Some 92
      else if c = CHR 0x27 then Some 39
      else if c = CHR 0x22 then Some 34
      else None)"

definition hex_digit :: "char \<Rightarrow> nat" where
  "hex_digit c = (if isdigit (code c) then code c - 48 else tolower (code c) - 97 + 10)"

definition isoctal :: "char \<Rightarrow> bool" where
  "isoctal c \<longleftrightarrow> 48 \<le> code c \<and> code c \<le> 55"

definition hex_token :: "string \<Rightarrow> label_token \<times> string" where
  "hex_token r = (case r of
     a # b # r' \<Rightarrow>
       if isxdigit (code a) \<and> isxdigit (code b)
       then (TokCode (hex_digit a * 16 + hex_digit b), r') else (TokBad, r)
   | _ \<Rightarrow> (TokBad, r))"

definition octal_token :: "char \<Rightarrow> string \<Rightarrow> label_token \<times> string" where
  "octal_token e r = (case r of
     a # b # r' \<Rightarrow>
       if isoctal a \<and> isoctal b
       then (let k = ((code e - 48) * 8 + (code a - 48)) * 8 + (code b - 48)
             in (if 255 < k then TokUndefined else TokCode k, r'))
       else (TokBad, r)
   | _ \<Rightarrow> (TokBad, r))"

definition label_token :: "char \<Rightarrow> string \<Rightarrow> label_token \<times> string" where
  "label_token c cs =
     (if c \<noteq> backslash then (TokChar c, cs)
      else case cs of
        [] \<Rightarrow> (TokBad, [])
      | e # r \<Rightarrow>
          (case named_escape e of
             Some k \<Rightarrow> (TokEscape k, r)
           | None \<Rightarrow> if e = CHR ''x'' then hex_token r
                     else if isoctal e then octal_token e r
                     else (TokLiteral e, r)))"

lemma label_token_length: "length (snd (label_token c cs)) \<le> length cs"
  by (auto simp: label_token_def hex_token_def octal_token_def Let_def split: list.splits option.splits)

lemma label_token_rest: "(t, r) = label_token c cs \<Longrightarrow> length r \<le> length cs"
  by (metis label_token_length snd_conv)

section \<open>Decoding\<close>

datatype label_result = Decoded string | LabelNull | LabelUndefined

definition plain :: "nat \<Rightarrow> bool" where
  "plain k \<longleftrightarrow> (\<not> iscntrl k \<and> \<not> ispunct k) \<or> (k \<noteq> 0 \<and> char_of k \<in> set '' '')"

definition octal_escape :: "nat \<Rightarrow> string" where
  "octal_escape k =
     [backslash, char_of (48 + k div 64 mod 8), char_of (48 + k div 8 mod 8),
      char_of (48 + k mod 8)]"

definition put_code :: "nat \<Rightarrow> string" where
  "put_code k = (if plain k then [char_of k] else octal_escape k)"

fun emit :: "string \<Rightarrow> label_result \<Rightarrow> label_result" where
  "emit s (Decoded t) = Decoded (s @ t)"
| "emit s r = r"

function decode_loop :: "string \<Rightarrow> label_result" where
  "decode_loop [] = Decoded []"
| "decode_loop (c # cs) = (case label_token c cs of (t, r) \<Rightarrow>
     (case t of
        TokEscape k \<Rightarrow> emit (octal_escape k) (decode_loop r)
      | TokCode k \<Rightarrow> emit (put_code k) (decode_loop r)
      | TokLiteral x \<Rightarrow> emit [backslash, x] (decode_loop r)
      | TokChar x \<Rightarrow> emit (put_code (code x)) (decode_loop r)
      | TokBad \<Rightarrow> LabelNull
      | TokUndefined \<Rightarrow> LabelUndefined))"
  by pat_completeness auto
termination
  by (relation "measure length") (auto dest!: label_token_rest simp: less_Suc_eq_le)

definition decode_label :: "string \<Rightarrow> io \<Rightarrow> label_result \<times> io" where
  "decode_label label w = (case malloc w of (ok, w') \<Rightarrow>
     if ok then (decode_loop label, w') else (LabelNull, w'))"

section \<open>Comparing\<close>

definition match :: "string \<Rightarrow> string \<Rightarrow> string option" where
  "match p d = (if take (length p) d = p then Some (drop (length p) d) else None)"

text \<open>A number from a hexadecimal or octal escape is compared with the signed \<open>char\<close>.\<close>

definition match_int :: "nat \<Rightarrow> string \<Rightarrow> string option" where
  "match_int k d = (case d of [] \<Rightarrow> None | x # d' \<Rightarrow> if schar x = int k then Some d' else None)"

definition match_token :: "label_token \<Rightarrow> string \<Rightarrow> string option" where
  "match_token t d = (case t of
     TokEscape k \<Rightarrow> match (octal_escape k) d
   | TokCode k \<Rightarrow> if plain k then match_int k d else match (octal_escape k) d
   | TokLiteral x \<Rightarrow> match [backslash, x] d
   | TokChar x \<Rightarrow> match (put_code (code x)) d
   | _ \<Rightarrow> None)"

function compare_labels :: "string \<Rightarrow> string \<Rightarrow> result option" where
  "compare_labels d [] = Some (if d = [] then ResultSuccess else ResultFail)"
| "compare_labels d (c # cs) = (case label_token c cs of (t, r) \<Rightarrow>
     if t = TokBad then Some ResultFail
     else if t = TokUndefined then None
     else case match_token t d of
       None \<Rightarrow> Some ResultFail
     | Some d' \<Rightarrow> compare_labels d' r)"
  by pat_completeness auto
termination
  by (relation "measure (\<lambda>(d, e). length e)")
     (auto dest!: label_token_rest simp: less_Suc_eq_le)

section \<open>Lemmas\<close>

lemma label_induct [case_names Nil Token]:
  assumes "P []" and "\<And>c cs t r. label_token c cs = (t, r) \<Longrightarrow> P r \<Longrightarrow> P (c # cs)"
  shows "P e"
proof (induction e rule: length_induct)
  case (1 e)
  show ?case
  proof (cases e)
    case (Cons c cs)
    obtain t r where tok: "label_token c cs = (t, r)" by fastforce
    then have "length r < length e" using label_token_rest [OF tok [symmetric]] Cons by simp
    with 1 have "P r" by blast
    with assms(2) [OF tok] Cons show ?thesis by simp
  qed (use assms(1) in simp)
qed

lemmas token_defs = label_token_def hex_token_def octal_token_def

lemma match_Some [simp]: "match p d = Some d' \<longleftrightarrow> d = p @ d'"
  by (auto simp: match_def) (metis append_take_drop_id)

lemma emit_Decoded: "emit s r = Decoded d \<longleftrightarrow> (\<exists>t. r = Decoded t \<and> d = s @ t)"
  by (cases r) auto

lemma plain_0 [simp]: "\<not> plain 0"
  by (simp add: plain_def ctype_simps)

lemma length_octal_escape [simp]: "length (octal_escape k) = 4"
  by (simp add: octal_escape_def)

lemma length_put_code: "length (put_code k) \<le> 4"
  by (simp add: put_code_def)

lemma hex_digit_bound: "isxdigit (code c) \<Longrightarrow> hex_digit c < 16"
  by (auto simp: hex_digit_def ctype_simps split: if_splits)

text \<open>A \<open>TokCode\<close> always carries a byte.\<close>

lemma label_token_code: "label_token c cs = (TokCode k, r) \<Longrightarrow> k < 256"
  by (auto simp: token_defs Let_def split: if_splits list.splits option.splits
           dest!: hex_digit_bound)

text \<open>The text a token is stored as; \<open>decode_loop\<close> and \<open>match_token\<close> agree on it.\<close>

definition token_text :: "label_token \<Rightarrow> string" where
  "token_text t = (case t of
     TokEscape k \<Rightarrow> octal_escape k | TokCode k \<Rightarrow> put_code k
   | TokLiteral x \<Rightarrow> [backslash, x] | TokChar x \<Rightarrow> put_code (code x) | _ \<Rightarrow> [])"

lemma decode_loop_Decoded:
  assumes "label_token c cs = (t, r)"
  shows "decode_loop (c # cs) = Decoded d \<longleftrightarrow>
    t \<noteq> TokBad \<and> t \<noteq> TokUndefined \<and> (\<exists>d'. decode_loop r = Decoded d' \<and> d = token_text t @ d')"
  using assms by (cases t) (auto simp: token_text_def emit_Decoded)

text \<open>Escapes that denote bytes from 128 on, where \<open>char\<close> and \<open>int\<close> disagree.\<close>

definition low_token :: "label_token \<Rightarrow> bool" where
  "low_token t = (case t of TokCode k \<Rightarrow> k < 128 | _ \<Rightarrow> True)"

lemma match_token_text:
  assumes "label_token c cs = (t, r)" and "t \<noteq> TokBad" and "t \<noteq> TokUndefined"
  shows "match_token t d = Some d' \<longleftrightarrow> low_token t \<and> d = token_text t @ d' \<or>
    (\<exists>k. t = TokCode k \<and> 128 \<le> k \<and> \<not> plain k \<and> d = token_text t @ d')"
proof (cases t)
  case (TokCode k)
  with assms have k: "k < 256" by (simp add: label_token_code)
  have byte: "schar x = int k \<longleftrightarrow> k < 128 \<and> x = char_of k" for x
  proof -
    have c: "int (code x) < 256" using nat_of_char_less_256 [of x] by linarith
    have "schar x = int k \<longleftrightarrow> code x < 128 \<and> code x = k"
    proof (cases "code x < 128")
      case False
      then have "schar x = int (code x) - 256" by (simp add: schar_def)
      with c have "schar x < 0" by linarith
      with False show ?thesis by linarith
    qed (simp add: schar_def)
    then show ?thesis using k by (auto simp: char_of_eq_iff)
  qed
  show ?thesis
    using TokCode k byte
    by (cases d) (auto simp: match_token_def match_int_def token_text_def put_code_def low_token_def)
qed (use assms in \<open>auto simp: match_token_def token_text_def low_token_def\<close>)

lemma high_plain: "128 \<le> k \<Longrightarrow> plain k"
  by (simp add: plain_def ctype_simps)

lemma match_token_iff:
  assumes "label_token c cs = (t, r)" and "t \<noteq> TokBad" and "t \<noteq> TokUndefined"
  shows "match_token t d = Some d' \<longleftrightarrow> low_token t \<and> d = token_text t @ d'"
  using match_token_text [OF assms] high_plain by blast

function low_escapes :: "string \<Rightarrow> bool" where
  "low_escapes [] = True"
| "low_escapes (c # cs) =
     (case label_token c cs of (t, r) \<Rightarrow> low_token t \<and> low_escapes r)"
  by pat_completeness auto
termination
  by (relation "measure length") (auto dest!: label_token_rest simp: less_Suc_eq_le)

lemma compare_labels_Success:
  "compare_labels d e = Some ResultSuccess \<longleftrightarrow> decode_loop e = Decoded d \<and> low_escapes e"
proof (induction d e rule: compare_labels.induct)
  case (2 d c cs)
  obtain t r where tok: "label_token c cs = (t, r)" by fastforce
  show ?case
  proof (cases "t = TokBad \<or> t = TokUndefined")
    case True
    with tok show ?thesis by auto
  next
    case False
    then have good: "t \<noteq> TokBad" "t \<noteq> TokUndefined" by auto
    note dec = decode_loop_Decoded [OF tok, of d]
    note mt = match_token_iff [OF tok good, of d]
    show ?thesis
    proof (cases "match_token t d")
      case None
      with mt have "\<not> (low_token t \<and> d = token_text t @ d')" for d' by force
      with None tok good dec show ?thesis by auto
    next
      case (Some d')
      with mt have m: "low_token t" "d = token_text t @ d'" by auto
      from "2.IH" [OF tok [symmetric] good Some]
      show ?thesis using tok good Some m dec by auto
    qed
  qed
qed auto

lemma compare_labels_defined:
  "decode_loop e = Decoded d' \<Longrightarrow>
   compare_labels d e = Some ResultSuccess \<or> compare_labels d e = Some ResultFail"
proof (induction d e arbitrary: d' rule: compare_labels.induct)
  case (2 d c cs)
  obtain t r where tok: "label_token c cs = (t, r)" by fastforce
  with "2.prems" obtain u where good: "t \<noteq> TokBad" "t \<noteq> TokUndefined" and u: "decode_loop r = Decoded u"
    using decode_loop_Decoded [OF tok, of d'] by auto
  show ?case
  proof (cases "match_token t d")
    case (Some v)
    from "2.IH" [OF tok [symmetric] good Some u] tok good Some show ?thesis by simp
  qed (use tok good in auto)
qed auto

text \<open>What a token takes from the encoded label, and what characters it stores.\<close>

lemma label_token_consumes: "label_token c cs = (t, r) \<Longrightarrow> \<exists>u. u \<noteq> [] \<and> c # cs = u @ r"
  by (auto simp: token_defs Let_def Cons_eq_append_conv split: if_splits list.splits option.splits)

lemma label_token_literal:
  "label_token c cs = (TokLiteral x, r) \<Longrightarrow>
   c = backslash \<and> cs = x # r \<and> x \<noteq> CHR 0x27 \<and> x \<noteq> CHR 0x22"
  by (auto simp: token_defs Let_def split: if_splits list.splits option.splits)

lemma plain_octal_digit: "plain (code (char_of (48 + n mod 8 :: nat)))"
proof -
  have "n mod 8 < 8" by simp
  then have "n mod 8 \<in> {0, 1, 2, 3, 4, 5, 6, 7}" by auto
  then show ?thesis by (auto simp: plain_def ctype_simps of_char_of)
qed

lemma not_plain_quotes [simp]: "\<not> plain 39" "\<not> plain 34" "\<not> plain 47"
  by (simp_all add: plain_def ctype_simps char_of_eq_iff)

definition storable :: "char \<Rightarrow> bool" where
  "storable c \<longleftrightarrow> plain (code c) \<or> c = backslash"

lemma storable_octal: "\<forall>c \<in> set (octal_escape k). storable c"
  using plain_octal_digit [of "k div 64"] plain_octal_digit [of "k div 8"] plain_octal_digit [of k]
  by (simp add: octal_escape_def storable_def)

lemma storable_put: "k < 256 \<Longrightarrow> \<forall>c \<in> set (put_code k). storable c"
  using storable_octal by (auto simp: put_code_def storable_def of_char_of)

lemma token_text_storable:
  assumes "label_token c cs = (t, r)" and "x \<in> set (token_text t)"
  shows "storable x \<or> t = TokLiteral x"
proof (cases t)
  case (TokCode k)
  with assms label_token_code show ?thesis
    using storable_put [of k] by (auto simp: token_text_def)
next
  case (TokChar y)
  with assms show ?thesis using storable_put [of "code y"] by (auto simp: token_text_def)
qed (use assms storable_octal in \<open>auto simp: token_text_def storable_def\<close>)

lemma decoded_chars:
  "decode_loop e = Decoded d \<Longrightarrow> x \<in> set d \<Longrightarrow>
   storable x \<or> (x \<noteq> CHR 0x27 \<and> x \<noteq> CHR 0x22 \<and> (\<exists>p s. e = p @ [backslash, x] @ s))"
proof (induction e arbitrary: d rule: label_induct)
  case (Token c cs t r)
  from Token.prems(1) obtain d' where d': "decode_loop r = Decoded d'" "d = token_text t @ d'"
    using decode_loop_Decoded [OF Token.hyps(1), of d] by auto
  from label_token_consumes [OF Token.hyps(1)] obtain u where u: "c # cs = u @ r" by auto
  show ?case
  proof (cases "x \<in> set (token_text t)")
    case True
    from token_text_storable [OF Token.hyps(1) True] show ?thesis
    proof
      assume "t = TokLiteral x"
      with Token.hyps label_token_literal have "c # cs = [] @ [backslash, x] @ r"
        "x \<noteq> CHR 0x27" "x \<noteq> CHR 0x22" by fastforce+
      then show ?thesis by blast
    qed simp
  next
    case False
    with Token.prems d' Token.IH [OF d'(1)] u show ?thesis by (metis Un_iff append.assoc set_append)
  qed
qed simp

text \<open>Quotes never get into a stored label.\<close>

definition no_quotes :: "string \<Rightarrow> bool" where
  "no_quotes s \<longleftrightarrow> CHR 0x27 \<notin> set s \<and> CHR 0x22 \<notin> set s"

lemma decoded_no_quotes: "decode_loop e = Decoded d \<Longrightarrow> no_quotes d"
proof -
  assume "decode_loop e = Decoded d"
  moreover have "\<not> storable (CHR 0x27)" "\<not> storable (CHR 0x22)"
    by (simp_all add: storable_def)
  ultimately show ?thesis using decoded_chars unfolding no_quotes_def by blast
qed

lemma length_token_text: "length (token_text t) \<le> 4"
  by (cases t) (simp_all add: token_text_def length_put_code)

section \<open>Properties\<close>

text \<open>C33. \<open>compare_labels\<close> answers "equal" exactly when \<open>decode_label\<close> would store the
  encoded label as the given decoded label and no numeric escape of it denotes a byte of
  128 or more: the comparison that allocates nothing is equivalent to decode-and-compare on
  all other labels.\<close>

theorem compare_labels_decides_decoding:
  "compare_labels d e = Some ResultSuccess \<longleftrightarrow>
   fst (decode_label e quiet_io) = Decoded d \<and> low_escapes e"
  by (simp add: compare_labels_Success decode_label_def malloc_no_failure quiet_io_def)

text \<open>A label with a numeric escape for a byte of 128 or more (every non-ASCII label as
  udev encodes it) never compares equal to the very text it was decoded to, because the
  stored \<open>char\<close> is negative and the escape's value is not.\<close>

lemma high_escape_never_equal:
  assumes "decode_loop e = Decoded d" and "\<not> low_escapes e"
  shows "compare_labels d e = Some ResultFail"
  using assms compare_labels_defined compare_labels_Success by blast

text \<open>What a stored label can contain: only alphanumeric characters, spaces, bytes that
  are neither control nor punctuation, backslashes, and characters that stood after a
  backslash in the encoded label; never a single or double quote, so that a mount point
  made from a label cannot end the quoting of the \<^verbatim>\<open>mount\<close> command line.\<close>

lemma decoded_label_characters:
  assumes "decode_loop e = Decoded d"
  shows "CHR 0x27 \<notin> set d \<and> CHR 0x22 \<notin> set d \<and>
    (\<forall>x \<in> set d. storable x \<or> (\<exists>p s. e = p @ [backslash, x] @ s))"
  using decoded_chars [OF assms] decoded_no_quotes [OF assms] unfolding no_quotes_def by blast

text \<open>The last disjunct is real: an escaped slash is stored as it is.\<close>

lemma escaped_slash_kept: "decode_loop [backslash, CHR ''/''] = Decoded [backslash, CHR ''/'']"
  by code_simp

text \<open>The decoded text fits the buffer \<open>decode_label\<close> allocates, four bytes per byte of
  the encoded label and one for the terminating NUL.\<close>

lemma decoded_label_fits:
  assumes "decode_loop e = Decoded d"
  shows "length d + 1 \<le> 4 * length e + 1"
  using assms
proof (induction e arbitrary: d rule: label_induct)
  case (Token c cs t r)
  from Token.prems obtain d' where d': "decode_loop r = Decoded d'" "d = token_text t @ d'"
    using decode_loop_Decoded [OF Token.hyps(1), of d] by auto
  have "length r \<le> length cs" using label_token_rest [OF Token.hyps(1) [symmetric]] .
  with Token.IH [OF d'(1)] d'(2) length_token_text [of t] show ?case by simp
qed simp

end
