(* ===== verification/Dtmd_State.thy ===== *)
theory Dtmd_State
  imports Dtmd_Misc Dtmd_Label
begin

text \<open>
  The state of the daemon (\<^verbatim>\<open>daemon/lists.h\<close>, \<^verbatim>\<open>dtmd.h.in\<close>): the tree of removable
  devices, the list of connected clients and the environment.  The C program links siblings,
  children and clients by pointers; here a sibling list is a \<open>list\<close> and a pointer to a node
  is the path it is found by, the first one in the order \<open>dtmd_find_media\<close> visits nodes.
  The text every message consists of (\<^verbatim>\<open>library/dt-print-helpers.h\<close> and the printing
  functions of \<^verbatim>\<open>daemon/actions.c\<close>) is here too.
\<close>

section \<open>Data\<close>

record media_info =
  md_type :: media_type
  md_subtype :: media_subtype
  md_state :: media_state
  md_fstype :: "string option"
  md_label :: "string option"
  md_mnt_point :: "string option"
  md_mnt_opts :: "string option"
  md_sysfs_path :: "string option"
  md_mount_counter :: int

datatype media = Media (m_path: string) (m_info: media_info) (m_children: "media list")

text \<open>\<open>buf\<close> holds the \<open>buf_used\<close> bytes of the client's buffer that are in use.\<close>

record client =
  clientfd :: int
  buf :: string

record daemon =
  removable_media_root :: "media list"
  clients :: "client list"
  clients_count :: nat
  world :: io

definition dtmd_root_device_path :: string where
  "dtmd_root_device_path = ''/''"

section \<open>Finding a device\<close>

text \<open>The parent's path (\<open>None\<close> for a device at the root) and the device.\<close>

fun find_at :: "string option \<Rightarrow> string \<Rightarrow> media list \<Rightarrow> (string option \<times> media) option" where
  "find_at par path [] = None"
| "find_at par path (Media q i cs # ms) =
     (if strcmp path q = 0 then Some (par, Media q i cs)
      else case find_at (Some q) path cs of
        Some r \<Rightarrow> Some r
      | None \<Rightarrow> find_at par path ms)"

definition dtmd_find_media :: "string \<Rightarrow> media list \<Rightarrow> media option" where
  "dtmd_find_media path ms = map_option snd (find_at None path ms)"

text \<open>What the program does to the device it found, through the pointer to it: the device is
  replaced by the devices \<open>f\<close> gives for it.\<close>

fun edit_media :: "string \<Rightarrow> (media \<Rightarrow> media list) \<Rightarrow> media list \<Rightarrow> media list" where
  "edit_media path f [] = []"
| "edit_media path f (Media q i cs # ms) =
     (if strcmp path q = 0 then f (Media q i cs) @ ms
      else if find_at (Some q) path cs \<noteq> None then Media q i (edit_media path f cs) # ms
      else Media q i cs # edit_media path f ms)"

section \<open>Messages\<close>

abbreviation (input) newline :: char where "newline \<equiv> CHR 0x0A"

text \<open>\<open>dt_helper_print_with_all_checks\<close> under the format \<^verbatim>\<open>%d%s%s\<close>: the length, minus one for
  \<open>NULL\<close>, then a space and the text when there is one.\<close>

definition print_arg :: "string option \<Rightarrow> string" where
  "print_arg a = (case a of
     None \<Rightarrow> ''-1''
   | Some s \<Rightarrow> decimal (length s) @ (if length s > 0 then '' '' else '''') @
       (if length s > 0 then s else ''''))"

text \<open>The format \<^verbatim>\<open>%zu %s\<close>.\<close>

definition print_plain :: "string \<Rightarrow> string" where
  "print_plain s = decimal (length s) @ '' '' @ s"

fun join_args :: "string list \<Rightarrow> string" where
  "join_args [] = ''''"
| "join_args [a] = a"
| "join_args (a # b # as) = a @ '', '' @ join_args (b # as)"

definition message :: "string \<Rightarrow> string list \<Rightarrow> string" where
  "message action args = action @ ''('' @ join_args args @ '')'' @ [newline]"

text \<open>The arguments of the notifications about a device.\<close>

record device_desc =
  d_parent :: string
  d_path :: string
  d_type :: media_type
  d_subtype :: media_subtype
  d_state :: media_state
  d_fstype :: "string option"
  d_label :: "string option"
  d_mnt_point :: "string option"
  d_mnt_opts :: "string option"

definition device_args :: "device_desc \<Rightarrow> string option list option" where
  "device_args d = (case d_type d of
     media_type_device_partition \<Rightarrow>
       Some [Some (d_parent d), Some (d_path d), Some (device_type_to_string (d_type d)),
             d_fstype d, d_label d, d_mnt_point d, d_mnt_opts d]
   | media_type_stateless_device \<Rightarrow>
       Some [Some (d_parent d), Some (d_path d), Some (device_type_to_string (d_type d)),
             Some (device_subtype_to_string (d_subtype d))]
   | media_type_stateful_device \<Rightarrow>
       Some [Some (d_parent d), Some (d_path d), Some (device_type_to_string (d_type d)),
             Some (device_subtype_to_string (d_subtype d)),
             Some (device_state_to_string (d_state d)),
             d_fstype d, d_label d, d_mnt_point d, d_mnt_opts d]
   | media_type_unknown_or_persistent \<Rightarrow> None)"

definition print_removable_device_common ::
  "string \<Rightarrow> int \<Rightarrow> device_desc \<Rightarrow> io \<Rightarrow> result \<times> io" where
  "print_removable_device_common action fd d w = (case device_args d of
     None \<Rightarrow> (ResultFail, w)
   | Some args \<Rightarrow> (case dprintf fd (message action (map print_arg args)) w of
       (ok, w') \<Rightarrow> (if ok then ResultSuccess else ResultClientError, w')))"

section \<open>Notifications\<close>

text \<open>Every notification goes to every client; failures are ignored.\<close>

fun notify_each :: "(int \<Rightarrow> io \<Rightarrow> io) \<Rightarrow> client list \<Rightarrow> io \<Rightarrow> io" where
  "notify_each f [] w = w"
| "notify_each f (c # cs) w = notify_each f cs (f (clientfd c) w)"

definition notify_removable_device_added :: "device_desc \<Rightarrow> client list \<Rightarrow> io \<Rightarrow> io" where
  "notify_removable_device_added d =
     notify_each (\<lambda>fd w. snd (print_removable_device_common ''removable_device_added'' fd d w))"

definition notify_removable_device_changed :: "device_desc \<Rightarrow> client list \<Rightarrow> io \<Rightarrow> io" where
  "notify_removable_device_changed d =
     notify_each (\<lambda>fd w. snd (print_removable_device_common ''removable_device_changed'' fd d w))"

definition notify_removable_device_removed :: "string \<Rightarrow> client list \<Rightarrow> io \<Rightarrow> io" where
  "notify_removable_device_removed path =
     notify_each (\<lambda>fd w.
       snd (dprintf fd (message ''removable_device_removed'' [print_plain path]) w))"

definition notify_removable_device_mounted ::
  "string \<Rightarrow> string \<Rightarrow> string option \<Rightarrow> client list \<Rightarrow> io \<Rightarrow> io" where
  "notify_removable_device_mounted path mnt_point mnt_opts =
     notify_each (\<lambda>fd w. snd (dprintf fd (message ''removable_device_mounted''
       [print_plain path, print_plain mnt_point, print_arg mnt_opts]) w))"

definition notify_removable_device_unmounted :: "string \<Rightarrow> string \<Rightarrow> client list \<Rightarrow> io \<Rightarrow> io" where
  "notify_removable_device_unmounted path mnt_point =
     notify_each (\<lambda>fd w. snd (dprintf fd (message ''removable_device_unmounted''
       [print_plain path, print_plain mnt_point]) w))"

end
