(* ===== verification/Dtmd_Lists.thy ===== *)
theory Dtmd_Lists
  imports Dtmd_State
begin

text \<open>
  \<^verbatim>\<open>daemon/lists.c\<close>: adding, removing and changing devices in the tree, with the
  notifications each operation sends, and adding and removing clients.
\<close>

section \<open>Adding a device\<close>

text \<open>Decoding a label that may be \<open>NULL\<close>; \<open>None\<close> when \<open>decode_label\<close> returns \<open>NULL\<close>.\<close>

definition decode_opt :: "string option \<Rightarrow> io \<Rightarrow> string option option \<times> io" where
  "decode_opt label w = (case label of
     None \<Rightarrow> (Some None, w)
   | Some l \<Rightarrow> (case decode_label l w of
       (Decoded t, w') \<Rightarrow> (Some (Some t), w')
     | (LabelNull, w') \<Rightarrow> (None, w')
     | (LabelUndefined, w') \<Rightarrow> (None, undefined_behaviour w')))"

text \<open>The seven allocations, in order: the structure, path, fstype, label, mount point, mount
  options and sysfs path.\<close>

definition construct_media :: "device_desc \<Rightarrow> string option \<Rightarrow> io \<Rightarrow> media_info option \<times> io" where
  "construct_media a sysfs_path w =
     (case malloc_all [True, True, d_fstype a \<noteq> None] w of (ok, w1) \<Rightarrow>
        if \<not> ok then (None, w1)
        else case decode_opt (d_label a) w1 of (lab, w2) \<Rightarrow>
          (case lab of
             None \<Rightarrow> (None, w2)
           | Some l \<Rightarrow>
             (case malloc_all [d_mnt_point a \<noteq> None, d_mnt_opts a \<noteq> None, sysfs_path \<noteq> None] w2
              of (ok2, w3) \<Rightarrow>
                if \<not> ok2 then (None, w3)
                else (Some \<lparr>md_type = d_type a, md_subtype = d_subtype a, md_state = d_state a,
                        md_fstype = d_fstype a, md_label = l, md_mnt_point = d_mnt_point a,
                        md_mnt_opts = d_mnt_opts a, md_sysfs_path = sysfs_path,
                        md_mount_counter = (if d_mnt_point a \<noteq> None then 1 else 0)\<rparr>, w3))))"

fun insert_media :: "media \<Rightarrow> media list \<Rightarrow> media list" where
  "insert_media m [] = [m]"
| "insert_media m (n # ns) =
     (if strcmp (m_path m) (m_path n) < 0 then m # n # ns else n # insert_media m ns)"

definition insert_child :: "media \<Rightarrow> media \<Rightarrow> media list" where
  "insert_child m n = [Media (m_path n) (m_info n) (insert_media m (m_children n))]"

definition add_media :: "device_desc \<Rightarrow> string option \<Rightarrow> daemon \<Rightarrow> result \<times> daemon" where
  "add_media a sysfs_path d =
     (let is_parent_path = strcmp (d_parent a) dtmd_root_device_path = 0;
          root = removable_media_root d
      in if \<not> is_parent_path \<and> dtmd_find_media (d_parent a) root = None then (ResultFail, d)
         else case construct_media a sysfs_path (world d) of
           (None, w) \<Rightarrow> (ResultFatalError, d\<lparr>world := w\<rparr>)
         | (Some i, w) \<Rightarrow>
             let m = Media (d_path a) i [];
                 root' = (if is_parent_path then insert_media m root
                          else edit_media (d_parent a) (insert_child m) root)
             in (ResultSuccess, d\<lparr>removable_media_root := root',
                   world := notify_removable_device_added (a\<lparr>d_label := md_label i\<rparr>) (clients d) w\<rparr>))"

section \<open>Removing devices\<close>

text \<open>\<open>remove_media_helper\<close> on each of a list of siblings: the children's notifications come
  before the device's own.\<close>

fun remove_media_helpers :: "client list \<Rightarrow> media list \<Rightarrow> io \<Rightarrow> io" where
  "remove_media_helpers cl [] w = w"
| "remove_media_helpers cl (Media q i cs # ms) w =
     (let w1 = remove_media_helpers cl cs w;
          w2 = (case md_mnt_point i of
                  None \<Rightarrow> w1
                | Some mp \<Rightarrow> notify_removable_device_unmounted q mp cl w1);
          w3 = notify_removable_device_removed q cl w2
      in remove_media_helpers cl ms w3)"

definition remove_media_helper :: "client list \<Rightarrow> media \<Rightarrow> io \<Rightarrow> io" where
  "remove_media_helper cl m w = remove_media_helpers cl [m] w"

definition remove_media :: "string \<Rightarrow> daemon \<Rightarrow> result \<times> daemon" where
  "remove_media path d = (case dtmd_find_media path (removable_media_root d) of
     None \<Rightarrow> (ResultFail, d)
   | Some m \<Rightarrow> (ResultSuccess,
       d\<lparr>removable_media_root := edit_media path (\<lambda>_. []) (removable_media_root d),
         world := remove_media_helper (clients d) m (world d)\<rparr>))"

definition remove_all_media :: "daemon \<Rightarrow> daemon" where
  "remove_all_media d = d\<lparr>removable_media_root := [],
     world := remove_media_helpers (clients d) (removable_media_root d) (world d)\<rparr>"

section \<open>Changing a device\<close>

text \<open>A string of the device that may be \<open>NULL\<close> and the new value: freed when it differs, then
  copied when there is none.  The flag tells whether the copy could be allocated.\<close>

definition update_string ::
  "string option \<Rightarrow> string option \<Rightarrow> io \<Rightarrow> bool \<times> string option \<times> io" where
  "update_string old new w =
     (let cur = (case (old, new) of
                   (Some o', Some n) \<Rightarrow> if strcmp o' n \<noteq> 0 then None else Some o'
                 | (Some _, None) \<Rightarrow> None
                 | (None, _) \<Rightarrow> None)
      in case (cur, new) of
           (None, Some n) \<Rightarrow> (case malloc w of (ok, w') \<Rightarrow> (ok, if ok then Some n else None, w'))
         | _ \<Rightarrow> (True, cur, w))"

definition update_label ::
  "string option \<Rightarrow> string option \<Rightarrow> io \<Rightarrow> bool \<times> string option \<times> io" where
  "update_label old new w =
     (let (cur, w1) = (case (old, new) of
             (Some o', Some n) \<Rightarrow>
               (case compare_labels o' n of
                  None \<Rightarrow> (None, undefined_behaviour w)
                | Some r \<Rightarrow> (if is_result_failure r then None else Some o', w))
           | (Some _, None) \<Rightarrow> (None, w)
           | (None, _) \<Rightarrow> (None, w))
      in case (cur, new) of
           (None, Some n) \<Rightarrow> (case decode_opt (Some n) w1 of
              (None, w') \<Rightarrow> (False, None, w') | (Some l, w') \<Rightarrow> (True, l, w'))
         | _ \<Rightarrow> (True, cur, w1))"

definition same_string :: "string option \<Rightarrow> string option \<Rightarrow> bool" where
  "same_string a b = (case (a, b) of
     (None, None) \<Rightarrow> True | (Some x, Some y) \<Rightarrow> strcmp x y = 0 | _ \<Rightarrow> False)"

definition same_label :: "string option \<Rightarrow> string option \<Rightarrow> bool" where
  "same_label a b = (case (a, b) of
     (None, None) \<Rightarrow> True
   | (Some x, Some y) \<Rightarrow> (case compare_labels x y of None \<Rightarrow> False | Some r \<Rightarrow> result_code r \<noteq> 0)
   | _ \<Rightarrow> False)"

definition nothing_changed :: "device_desc \<Rightarrow> media_info \<Rightarrow> bool" where
  "nothing_changed a i \<longleftrightarrow>
     md_type i = d_type a \<and> md_subtype i = d_subtype a \<and> md_state i = d_state a \<and>
     same_string (md_fstype i) (d_fstype a) \<and> same_label (md_label i) (d_label a) \<and>
     same_string (md_mnt_point i) (d_mnt_point a) \<and> same_string (md_mnt_opts i) (d_mnt_opts a)"

text \<open>The mount point: a different one is reported as unmounted and dropped, a new one stored
  and reported as mounted.\<close>

definition update_mnt_point ::
  "client list \<Rightarrow> string \<Rightarrow> device_desc \<Rightarrow> media_info \<Rightarrow> io \<Rightarrow> bool \<times> media_info \<times> io" where
  "update_mnt_point cl path a i w =
     (let (i1, w1) = (case md_mnt_point i of
             Some o' \<Rightarrow>
               if \<not> same_string (Some o') (d_mnt_point a)
               then (i\<lparr>md_mnt_point := None, md_mount_counter := 0\<rparr>,
                     notify_removable_device_unmounted path o' cl w)
               else (i, w)
           | None \<Rightarrow> (i, w))
      in case (md_mnt_point i1, d_mnt_point a) of
           (None, Some n) \<Rightarrow> (case malloc w1 of (ok, w2) \<Rightarrow>
              if \<not> ok then (False, i1, w2)
              else (True, i1\<lparr>md_mnt_point := Some n, md_mount_counter := 1\<rparr>,
                    (if d_mnt_opts a \<noteq> None
                     then notify_removable_device_mounted path n (d_mnt_opts a) cl w2 else w2)))
         | _ \<Rightarrow> (True, i1, w1))"

definition change_info ::
  "client list \<Rightarrow> string \<Rightarrow> device_desc \<Rightarrow> media_info \<Rightarrow> io \<Rightarrow> result \<times> media_info \<times> io" where
  "change_info cl path a i w =
     (if nothing_changed a i then (ResultFail, i, w)
      else let i0 = i\<lparr>md_state := d_state a\<rparr> in
        case update_string (md_fstype i0) (d_fstype a) w of (ok1, f, w1) \<Rightarrow>
          let i1 = i0\<lparr>md_fstype := f\<rparr> in
          if \<not> ok1 then (ResultFatalError, i1, w1)
          else case update_label (md_label i1) (d_label a) w1 of (ok2, l, w2) \<Rightarrow>
            let i2 = i1\<lparr>md_label := l\<rparr> in
            if \<not> ok2 then (ResultFatalError, i2, w2)
            else case update_mnt_point cl path a i2 w2 of (ok3, i3, w3) \<Rightarrow>
              if \<not> ok3 then (ResultFatalError, i3, w3)
              else case update_string (md_mnt_opts i3) (d_mnt_opts a) w3 of (ok4, opts, w4) \<Rightarrow>
                let i4 = i3\<lparr>md_mnt_opts := opts\<rparr> in
                if \<not> ok4 then (ResultFatalError, i4, w4)
                else (ResultSuccess, i4,
                  notify_removable_device_changed (a\<lparr>d_label := md_label i4\<rparr>) cl w4))"

text \<open>\<open>compare_labels\<close> is called by the test for a change only when the fields before the label
  agree.\<close>

definition label_compared_undefined :: "device_desc \<Rightarrow> media_info \<Rightarrow> bool" where
  "label_compared_undefined a i \<longleftrightarrow>
     md_type i = d_type a \<and> md_subtype i = d_subtype a \<and> md_state i = d_state a \<and>
     same_string (md_fstype i) (d_fstype a) \<and>
     (case (md_label i, d_label a) of (Some x, Some y) \<Rightarrow> compare_labels x y = None | _ \<Rightarrow> False)"

definition set_info :: "media_info \<Rightarrow> media \<Rightarrow> media list" where
  "set_info i m = [Media (m_path m) i (m_children m)]"

definition change_media :: "device_desc \<Rightarrow> string option \<Rightarrow> daemon \<Rightarrow> result \<times> daemon" where
  "change_media a sysfs_path d =
     (case find_at None (d_path a) (removable_media_root d) of
        None \<Rightarrow> (ResultFail, d)
      | Some (par, m) \<Rightarrow>
          if strcmp (d_parent a) (case par of Some p \<Rightarrow> p | None \<Rightarrow> dtmd_root_device_path) \<noteq> 0
          then (ResultBug, d)
          else if \<not> same_string sysfs_path (md_sysfs_path (m_info m)) then (ResultBug, d)
          else case change_info (clients d) (m_path m) a (m_info m)
                 (if label_compared_undefined a (m_info m) then undefined_behaviour (world d)
                  else world d) of
            (r, i, w) \<Rightarrow> (r, d\<lparr>removable_media_root :=
                edit_media (d_path a) (set_info i) (removable_media_root d), world := w\<rparr>))"

section \<open>Clients\<close>

definition add_client :: "int \<Rightarrow> daemon \<Rightarrow> result \<times> daemon" where
  "add_client fd d =
     (if list_ex (\<lambda>c. clientfd c = fd) (clients d) then (ResultFail, d)
      else case malloc (world d) of (ok, w) \<Rightarrow>
        if \<not> ok then (ResultFatalError, d\<lparr>world := close_fd fd w\<rparr>)
        else (ResultSuccess, d\<lparr>clients := clients d @ [\<lparr>clientfd = fd, buf = []\<rparr>],
                clients_count := clients_count d + 1, world := w\<rparr>))"

fun unlink_client :: "int \<Rightarrow> client list \<Rightarrow> client list" where
  "unlink_client fd [] = []"
| "unlink_client fd (c # cs) = (if clientfd c = fd then cs else c # unlink_client fd cs)"

definition remove_client :: "int \<Rightarrow> daemon \<Rightarrow> result \<times> daemon" where
  "remove_client fd d =
     (if \<not> list_ex (\<lambda>c. clientfd c = fd) (clients d) then (ResultFail, d)
      else (ResultSuccess, d\<lparr>clients := unlink_client fd (clients d),
              clients_count := clients_count d - 1, world := close_fd fd (world d)\<rparr>))"

definition remove_all_clients :: "daemon \<Rightarrow> daemon" where
  "remove_all_clients d = d\<lparr>clients := [], clients_count := 0,
     world := foldl (\<lambda>w c. close_fd (clientfd c) w) (world d) (clients d)\<rparr>"

end
