(* ===== verification/Dtmd_Mounts.thy ===== *)
theory Dtmd_Mounts
  imports Dtmd_Lists
begin

text \<open>
  \<^verbatim>\<open>daemon/mnt_funcs.c\<close> (Linux build): bringing the mount points in the device tree in line
  with the kernel's mount table, counting the mounts of a directory, and maintaining
  \<^verbatim>\<open>mtab\<close>.  A mount table is the list of entries \<open>getmntent\<close> returns, \<open>None\<close> when the file
  cannot be opened.
\<close>

section \<open>Mount tables\<close>

record mntent =
  mnt_fsname :: string
  mnt_dir :: "string option"
  mnt_type :: string
  mnt_opts :: "string option"

definition is_mounted_now :: int where "is_mounted_now = 1"
definition is_mounted_last :: int where "is_mounted_last = 2"
definition is_processed :: int where "is_processed = 4"

lemmas mount_bits = is_mounted_now_def is_mounted_last_def is_processed_def

section \<open>Checking for changes\<close>

text \<open>\<open>mark_each_device_recursive\<close> on each of a list of siblings: the "mounted now" bit becomes
  the "mounted last" bit.\<close>

fun mark_each_device :: "media list \<Rightarrow> media list" where
  "mark_each_device [] = []"
| "mark_each_device (Media q i cs # ms) =
     Media q (i\<lparr>md_mount_counter := push_bit 1 (md_mount_counter i)\<rparr>) (mark_each_device cs)
       # mark_each_device ms"

text \<open>One entry of the mount table and the device it names.  The flag tells whether the copies
  could be allocated.\<close>

definition process_mount_dir ::
  "client list \<Rightarrow> string \<Rightarrow> string \<Rightarrow> string \<Rightarrow> media_info \<Rightarrow> io \<Rightarrow> bool \<times> media_info \<times> io" where
  "process_mount_dir cl path dir opts i w =
     (if (case md_mnt_point i of None \<Rightarrow> True | Some mp \<Rightarrow> strcmp mp dir \<noteq> 0)
      then (let w1 = (case md_mnt_point i of
                        None \<Rightarrow> w | Some mp \<Rightarrow> notify_removable_device_unmounted path mp cl w)
            in case malloc w1 of (ok, w2) \<Rightarrow>
              if \<not> ok then (False, i\<lparr>md_mnt_point := None\<rparr>, w2)
              else (True, i\<lparr>md_mnt_point := Some dir\<rparr>,
                    notify_removable_device_mounted path dir (Some opts) cl w2))
      else (True, i, w))"

definition process_mount_opts :: "string \<Rightarrow> media_info \<Rightarrow> io \<Rightarrow> bool \<times> media_info \<times> io" where
  "process_mount_opts opts i w =
     (if (case md_mnt_opts i of None \<Rightarrow> True | Some o' \<Rightarrow> strcmp o' opts \<noteq> 0)
      then (case malloc w of (ok, w1) \<Rightarrow>
              if \<not> ok then (False, i\<lparr>md_mnt_opts := None\<rparr>, w1)
              else (True, i\<lparr>md_mnt_opts := Some opts\<rparr>, w1))
      else (True, i, w))"

definition process_entry ::
  "client list \<Rightarrow> mntent \<Rightarrow> string \<Rightarrow> media_info \<Rightarrow> io \<Rightarrow> bool \<times> media_info \<times> io" where
  "process_entry cl e path i w =
     (if md_mount_counter i AND is_processed \<noteq> 0 then (True, i, w)
      else let i1 = i\<lparr>md_mount_counter := md_mount_counter i OR is_processed\<rparr> in
        case (mnt_dir e, mnt_opts e) of
          (Some dir, Some opts) \<Rightarrow>
            (let i2 = i1\<lparr>md_mount_counter := md_mount_counter i1 OR is_mounted_now\<rparr> in
             case process_mount_dir cl path dir opts i2 w of (ok, i3, w1) \<Rightarrow>
               if \<not> ok then (False, i3, w1) else process_mount_opts opts i3 w1)
        | _ \<Rightarrow> (True, i1\<lparr>md_mount_counter := md_mount_counter i1 AND NOT is_mounted_now\<rparr>, w))"

fun process_entries ::
  "client list \<Rightarrow> mntent list \<Rightarrow> media list \<Rightarrow> io \<Rightarrow> bool \<times> media list \<times> io" where
  "process_entries cl [] ms w = (True, ms, w)"
| "process_entries cl (e # es) ms w = (case dtmd_find_media (mnt_fsname e) ms of
     None \<Rightarrow> process_entries cl es ms w
   | Some m \<Rightarrow> (case process_entry cl e (m_path m) (m_info m) w of (ok, i, w1) \<Rightarrow>
       let ms' = edit_media (mnt_fsname e) (set_info i) ms in
       if ok then process_entries cl es ms' w1 else (False, ms', w1)))"

text \<open>\<open>process_changes_recursive\<close> on each of a list of siblings.  Reporting a device without a
  mount point as unmounted would dereference \<open>NULL\<close>.\<close>

definition process_change ::
  "client list \<Rightarrow> string \<Rightarrow> media_info \<Rightarrow> io \<Rightarrow> media_info \<times> io" where
  "process_change cl path i w =
     (let (i1, w1) =
        (if md_mount_counter i AND is_mounted_now = 0 \<and> md_mount_counter i AND is_mounted_last \<noteq> 0
         then (i\<lparr>md_mnt_point := None, md_mnt_opts := None\<rparr>,
               case md_mnt_point i of
                 None \<Rightarrow> undefined_behaviour w
               | Some mp \<Rightarrow> notify_removable_device_unmounted path mp cl w)
         else (i, w))
      in (i1\<lparr>md_mount_counter := md_mount_counter i AND is_mounted_now\<rparr>, w1))"

fun process_changes :: "client list \<Rightarrow> media list \<Rightarrow> io \<Rightarrow> media list \<times> io" where
  "process_changes cl [] w = ([], w)"
| "process_changes cl (Media q i cs # ms) w =
     (case process_change cl q i w of (i', w1) \<Rightarrow>
        case process_changes cl cs w1 of (cs', w2) \<Rightarrow>
          case process_changes cl ms w2 of (ms', w3) \<Rightarrow> (Media q i' cs' # ms', w3))"

definition check_mount_changes :: "mntent list option \<Rightarrow> daemon \<Rightarrow> result \<times> daemon" where
  "check_mount_changes mounts d = (case mounts of
     None \<Rightarrow> (ResultFatalError, d)
   | Some es \<Rightarrow>
       (case process_entries (clients d) es (mark_each_device (removable_media_root d)) (world d)
        of (ok, ms, w) \<Rightarrow>
          if \<not> ok then (ResultFatalError, d\<lparr>removable_media_root := ms, world := w\<rparr>)
          else (case process_changes (clients d) ms w of (ms', w') \<Rightarrow>
            (ResultSuccess, d\<lparr>removable_media_root := ms', world := w'\<rparr>))))"

section \<open>Mounts of a directory\<close>

text \<open>\<open>None\<close> is the error result; with a positive \<open>limit\<close> the scan stops at that count.\<close>

fun count_mounts :: "string \<Rightarrow> int \<Rightarrow> int \<Rightarrow> mntent list \<Rightarrow> int" where
  "count_mounts path limit n [] = n"
| "count_mounts path limit n (e # es) =
     (if mnt_dir e = Some path
      then (if limit > 0 \<and> n + 1 = limit then n + 1 else count_mounts path limit (n + 1) es)
      else count_mounts path limit n es)"

definition point_mount_count :: "string \<Rightarrow> int \<Rightarrow> mntent list option \<Rightarrow> int" where
  "point_mount_count path limit mounts = (case mounts of
     None \<Rightarrow> -1
   | Some es \<Rightarrow> count_mounts path limit 0 es)"

section \<open>The mtab file\<close>

text \<open>
  What the functions see of the file system: whether \<^verbatim>\<open>mtab\<close> is a regular file, its contents
  (\<open>None\<close> when it cannot be opened), and whether the calls on it and on the temporary file
  succeed.
\<close>

record mtab_fs =
  mtab_regular :: bool
  mtab :: "mntent list option"
  tmp_opens :: bool
  add_succeeds :: "bool list"
  stat_succeeds :: bool
  chmod_succeeds :: bool
  chown_succeeds :: bool
  rename_succeeds :: bool

definition is_mtab_writable :: "mtab_fs \<Rightarrow> result" where
  "is_mtab_writable fs = (if mtab_regular fs then ResultSuccess else ResultFail)"

text \<open>\<open>addmntent\<close>: does it succeed, and the outcomes left for the calls after it.\<close>

definition addmntent :: "bool list \<Rightarrow> bool \<times> bool list" where
  "addmntent bs = (case bs of [] \<Rightarrow> (True, []) | b # bs' \<Rightarrow> (b, bs'))"

text \<open>The result \<open>-1\<close> of a failed \<open>setmntent\<close> is the value of \<open>result_client_error\<close>.\<close>

definition add_to_mtab ::
  "string \<Rightarrow> string \<Rightarrow> string \<Rightarrow> string \<Rightarrow> mtab_fs \<Rightarrow> result \<times> mtab_fs" where
  "add_to_mtab path mount_point type opts fs = (case mtab fs of
     None \<Rightarrow> (ResultClientError, fs)
   | Some es \<Rightarrow> (case addmntent (add_succeeds fs) of (ok, bs) \<Rightarrow>
       if ok
       then (ResultSuccess, fs\<lparr>mtab := Some (es @ [\<lparr>mnt_fsname = path, mnt_dir = Some mount_point,
               mnt_type = type, mnt_opts = Some opts\<rparr>]), add_succeeds := bs\<rparr>)
       else (ResultFatalError, fs\<lparr>add_succeeds := bs\<rparr>)))"

definition mtab_entry_is :: "string \<Rightarrow> string \<Rightarrow> string \<Rightarrow> mntent \<Rightarrow> bool" where
  "mtab_entry_is path mount_point type e \<longleftrightarrow>
     mnt_dir e = Some mount_point \<and> mnt_fsname e = path \<and> mnt_type e = type"

text \<open>Copying the entries to keep; \<open>None\<close> when one cannot be written.\<close>

fun copy_mtab ::
  "string \<Rightarrow> string \<Rightarrow> string \<Rightarrow> mntent list \<Rightarrow> bool list \<Rightarrow> mntent list option \<times> bool list" where
  "copy_mtab path mount_point type [] bs = (Some [], bs)"
| "copy_mtab path mount_point type (e # es) bs =
     (if mtab_entry_is path mount_point type e then copy_mtab path mount_point type es bs
      else case addmntent bs of (ok, bs') \<Rightarrow>
        if \<not> ok then (None, bs')
        else case copy_mtab path mount_point type es bs' of
          (r, bs'') \<Rightarrow> (map_option ((#) e) r, bs''))"

definition remove_from_mtab :: "string \<Rightarrow> string \<Rightarrow> string \<Rightarrow> mtab_fs \<Rightarrow> result \<times> mtab_fs" where
  "remove_from_mtab path mount_point type fs = (case mtab fs of
     None \<Rightarrow> (ResultFatalError, fs)
   | Some es \<Rightarrow>
       if \<not> tmp_opens fs then (ResultFatalError, fs)
       else (case copy_mtab path mount_point type es (add_succeeds fs) of (new, bs) \<Rightarrow>
         let fs1 = fs\<lparr>add_succeeds := bs\<rparr> in
         (case new of
            None \<Rightarrow> (ResultFatalError, fs1)
          | Some es' \<Rightarrow>
              if \<not> stat_succeeds fs then (ResultFatalError, fs1)
              else if \<not> chmod_succeeds fs then (ResultFatalError, fs1)
              else if \<not> chown_succeeds fs then (ResultFatalError, fs1)
              else if \<not> rename_succeeds fs then (ResultFatalError, fs1)
              else (ResultSuccess, fs1\<lparr>mtab := Some es'\<rparr>))))"

end
