(* ===== verification/Dtmd_Os.thy ===== *)
theory Dtmd_Os
  imports Dtmd_Fsopts Dtmd_Mounts
begin

text \<open>
  The operating system as the daemon uses it (Linux build).  It is a parameter: a record of
  functions on a state of any type says what each call returns and how it changes that
  state.  The calls that change anything outside the daemon are recorded in order, but for the
  rewriting of \<^verbatim>\<open>mtab\<close> (\<open>os_set_mtab\<close>), which changes the state only.
\<close>

datatype umount_result = UmountOk | UmountBusy | UmountError

text \<open>\<open>stat\<close>: an error, a directory, or something else.\<close>

datatype stat_result = StatError | StatDir | StatOther

text \<open>The \<open>SG_IO\<close> requests of interface version 4 and 3: an error, with the flag for \<open>EINVAL\<close>, or
  the three status bytes.\<close>

datatype sg_result = SgError bool | SgStatus nat nat nat

text \<open>An entry \<open>readdir\<close> returns, with the flag for \<open>DT_DIR\<close>; dot and dot-dot are among them.\<close>

type_synonym dirent = "string \<times> bool"

record 'k os =
  os_mounts :: "'k \<Rightarrow> mntent list option"       \<comment> \<open>\<^verbatim>\<open>/proc/self/mounts\<close>\<close>
  os_credentials :: "'k \<Rightarrow> int \<Rightarrow> (32 word \<times> 32 word) option"  \<comment> \<open>\<^verbatim>\<open>SO_PEERCRED\<close>\<close>
  os_readdir :: "'k \<Rightarrow> string \<Rightarrow> dirent list option"
  os_stat :: "'k \<Rightarrow> string \<Rightarrow> stat_result"
  os_mkdir :: "string \<Rightarrow> 'k \<Rightarrow> bool \<times> 'k"
  os_rmdir :: "string \<Rightarrow> 'k \<Rightarrow> 'k"
  os_mount :: "string \<Rightarrow> string \<Rightarrow> string \<Rightarrow> ulong \<Rightarrow> string \<Rightarrow> 'k \<Rightarrow> bool \<times> 'k"
  os_umount :: "string \<Rightarrow> 'k \<Rightarrow> umount_result \<times> 'k"
  os_system :: "string \<Rightarrow> 'k \<Rightarrow> int \<times> 'k"
  os_mtab :: "'k \<Rightarrow> mtab_fs"
  os_set_mtab :: "mtab_fs \<Rightarrow> 'k \<Rightarrow> 'k"
  os_open_device :: "'k \<Rightarrow> string \<Rightarrow> bool"     \<comment> \<open>\<^verbatim>\<open>O_RDONLY|O_NONBLOCK|O_EXCL\<close>\<close>
  os_open_write :: "'k \<Rightarrow> string \<Rightarrow> bool"      \<comment> \<open>\<^verbatim>\<open>O_WRONLY\<close>\<close>
  os_fsync :: "string \<Rightarrow> 'k \<Rightarrow> bool \<times> 'k"
  os_sg_v4 :: "string \<Rightarrow> 8 word list \<Rightarrow> 'k \<Rightarrow> sg_result \<times> 'k"
  os_sg_v3 :: "string \<Rightarrow> 8 word list \<Rightarrow> 'k \<Rightarrow> sg_result \<times> 'k"
  os_write :: "string \<Rightarrow> string \<Rightarrow> 'k \<Rightarrow> nat option \<times> 'k"  \<comment> \<open>the number of bytes written\<close>

datatype syscall =
  SysMkdir string | SysRmdir string | SysMount string string string ulong string
| SysUmount string | SysSystem string | SysFsync string
| SysSgV4 string "8 word list" | SysSgV3 string "8 word list" | SysWrite string string

record 'k kernel =
  kstate :: 'k
  syscalls :: "syscall list"

definition sys_mkdir :: "'k os \<Rightarrow> string \<Rightarrow> 'k kernel \<Rightarrow> bool \<times> 'k kernel" where
  "sys_mkdir os p k = (case os_mkdir os p (kstate k) of (ok, s) \<Rightarrow>
     (ok, k\<lparr>kstate := s, syscalls := syscalls k @ [SysMkdir p]\<rparr>))"

definition sys_rmdir :: "'k os \<Rightarrow> string \<Rightarrow> 'k kernel \<Rightarrow> 'k kernel" where
  "sys_rmdir os p k =
     k\<lparr>kstate := os_rmdir os p (kstate k), syscalls := syscalls k @ [SysRmdir p]\<rparr>"

definition sys_mount ::
  "'k os \<Rightarrow> string \<Rightarrow> string \<Rightarrow> string \<Rightarrow> ulong \<Rightarrow> string \<Rightarrow> 'k kernel \<Rightarrow> bool \<times> 'k kernel" where
  "sys_mount os dev dir type flags opts k =
     (case os_mount os dev dir type flags opts (kstate k) of (ok, s) \<Rightarrow>
       (ok, k\<lparr>kstate := s, syscalls := syscalls k @ [SysMount dev dir type flags opts]\<rparr>))"

definition sys_umount :: "'k os \<Rightarrow> string \<Rightarrow> 'k kernel \<Rightarrow> umount_result \<times> 'k kernel" where
  "sys_umount os dir k = (case os_umount os dir (kstate k) of (r, s) \<Rightarrow>
     (r, k\<lparr>kstate := s, syscalls := syscalls k @ [SysUmount dir]\<rparr>))"

definition sys_system :: "'k os \<Rightarrow> string \<Rightarrow> 'k kernel \<Rightarrow> int \<times> 'k kernel" where
  "sys_system os cmd k = (case os_system os cmd (kstate k) of (r, s) \<Rightarrow>
     (r, k\<lparr>kstate := s, syscalls := syscalls k @ [SysSystem cmd]\<rparr>))"

definition sys_fsync :: "'k os \<Rightarrow> string \<Rightarrow> 'k kernel \<Rightarrow> bool \<times> 'k kernel" where
  "sys_fsync os dev k = (case os_fsync os dev (kstate k) of (ok, s) \<Rightarrow>
     (ok, k\<lparr>kstate := s, syscalls := syscalls k @ [SysFsync dev]\<rparr>))"

definition sys_sg_v4 :: "'k os \<Rightarrow> string \<Rightarrow> 8 word list \<Rightarrow> 'k kernel \<Rightarrow> sg_result \<times> 'k kernel" where
  "sys_sg_v4 os dev cdb k = (case os_sg_v4 os dev cdb (kstate k) of (r, s) \<Rightarrow>
     (r, k\<lparr>kstate := s, syscalls := syscalls k @ [SysSgV4 dev cdb]\<rparr>))"

definition sys_sg_v3 :: "'k os \<Rightarrow> string \<Rightarrow> 8 word list \<Rightarrow> 'k kernel \<Rightarrow> sg_result \<times> 'k kernel" where
  "sys_sg_v3 os dev cdb k = (case os_sg_v3 os dev cdb (kstate k) of (r, s) \<Rightarrow>
     (r, k\<lparr>kstate := s, syscalls := syscalls k @ [SysSgV3 dev cdb]\<rparr>))"

definition sys_write :: "'k os \<Rightarrow> string \<Rightarrow> string \<Rightarrow> 'k kernel \<Rightarrow> nat option \<times> 'k kernel" where
  "sys_write os file s k = (case os_write os file s (kstate k) of (r, t) \<Rightarrow>
     (r, k\<lparr>kstate := t, syscalls := syscalls k @ [SysWrite file s]\<rparr>))"

lemmas sys_defs = sys_mkdir_def sys_rmdir_def sys_mount_def sys_umount_def sys_system_def
  sys_fsync_def sys_sg_v4_def sys_sg_v3_def sys_write_def

end
