(* ===== verification/Dtmd_Mount.thy ===== *)
theory Dtmd_Mount
  imports Dtmd_Config Dtmd_Os
begin

text \<open>
  \<^verbatim>\<open>daemon/filesystem_mnt.c\<close> (Linux build with the external mount programs enabled): mounting
  and unmounting a device, over the operating system of \<open>Dtmd_Os\<close>.
\<close>

section \<open>Helpers\<close>

definition get_credentials :: "'k os \<Rightarrow> int \<Rightarrow> 'k kernel \<Rightarrow> (32 word \<times> 32 word) option" where
  "get_credentials os fd k = os_credentials os (kstate k) fd"

datatype dir_state = dir_state_not_dir | dir_state_empty | dir_state_not_empty

definition get_dir_state :: "'k os \<Rightarrow> string \<Rightarrow> 'k kernel \<Rightarrow> dir_state" where
  "get_dir_state os dirname k = (case os_readdir os (kstate k) dirname of
     None \<Rightarrow> dir_state_not_dir
   | Some es \<Rightarrow> if length es \<le> 2 then dir_state_empty else dir_state_not_empty)"

definition dtmd_internal_mount_dir :: string where
  "dtmd_internal_mount_dir = ''/media''"

definition mount_root :: "config \<Rightarrow> string" where
  "mount_root c = (case mount_dir c of Some m \<Rightarrow> m | None \<Rightarrow> dtmd_internal_mount_dir)"

text \<open>The mount path and the value \<open>mount_type\<close> has after the call: by name when there is no
  usable label.\<close>

definition calculate_path ::
  "config \<Rightarrow> string \<Rightarrow> string option \<Rightarrow> mount_by_value_enum \<Rightarrow> io \<Rightarrow>
   string option \<times> mount_by_value_enum \<times> io" where
  "calculate_path c path label mount_type w =
     (let use_label = (mount_type = mount_by_device_label \<and>
                       (case label of None \<Rightarrow> False | Some l \<Rightarrow> length l > 0));
          mt = (if use_label then mount_by_device_label else mount_by_device_name);
          leaf = (if use_label then label else map_option tl (strrchr path CHR ''/''))
      in case leaf of
           None \<Rightarrow> (None, mt, w)
         | Some s \<Rightarrow>
             if length s = 0 then (None, mt, w)
             else (case malloc w of (ok, w') \<Rightarrow>
               if \<not> ok then (None, mt, w')
               else (Some (mount_root c @ ''/'' @ s), mt, w')))"

section \<open>Mounting\<close>

definition mount_ext_cmd :: string where "mount_ext_cmd = ''mount''"
definition unmount_ext_cmd :: string where "unmount_ext_cmd = ''umount''"

text \<open>The command line in front of the options.\<close>

definition mount_command :: "string \<Rightarrow> string \<Rightarrow> string \<Rightarrow> string" where
  "mount_command fstype path mount_path =
     mount_ext_cmd @ '' -t '' @ fstype @ '' '' @ path @ '' '' @ [CHR 0x27] @ mount_path @ [CHR 0x27]"

text \<open>The buffers are filled from memory of unspecified contents.\<close>

definition fresh_memory :: "nat \<Rightarrow> string" where
  "fresh_memory n = replicate n (CHR 0x00)"

definition invoke_mount_external ::
  "'k os \<Rightarrow> string \<Rightarrow> string \<Rightarrow> string \<Rightarrow> fsopts_list \<Rightarrow> io \<Rightarrow> 'k kernel \<Rightarrow>
   result \<times> io \<times> 'k kernel" where
  "invoke_mount_external os path mount_path fstype l w k =
     (case fsopts_generate_string (Some l) None 0 None 0 of
        Inl r \<Rightarrow> (r, w, k)
      | Inr (full, _, _) \<Rightarrow>
          let string_full_len = ob_len full in
          (case malloc w of (ok, w1) \<Rightarrow>
             if \<not> ok then (ResultFatalError, w1, k)
             else (let base = mount_command fstype path mount_path in
               (case (if string_full_len > 0
                      then (case fsopts_generate_string (Some l)
                                   (Some (fresh_memory string_full_len)) string_full_len None 0 of
                              Inl r \<Rightarrow> Inl r
                            | Inr (full2, _, _) \<Rightarrow>
                                Inr (base @ '' -o '' @ (case ob_mem full2 of Some m \<Rightarrow> m | None \<Rightarrow> '''')))
                      else Inr base) of
                  Inl r \<Rightarrow> (r, w1, k)
                | Inr cmd \<Rightarrow> (case sys_system os cmd k of (status, k1) \<Rightarrow>
                    (if status = 16 \<or> status = 0 then ResultSuccess else ResultFail, w1, k1))))))"

definition invoke_mount_internal ::
  "'k os \<Rightarrow> string \<Rightarrow> string \<Rightarrow> string \<Rightarrow> fsopts_list \<Rightarrow> io \<Rightarrow> 'k kernel \<Rightarrow>
   result \<times> io \<times> 'k kernel" where
  "invoke_mount_internal os path mount_path fstype l w k =
     (case fsopts_generate_string (Some l) None 0 None 0 of
        Inl r \<Rightarrow> (r, w, k)
      | Inr (full, str, _) \<Rightarrow>
          (case malloc_all [True, True] w of (ok, w1) \<Rightarrow>
             if \<not> ok then (ResultFatalError, w1, k)
             else (case fsopts_generate_string (Some l)
                          (Some (fresh_memory (ob_len full))) (ob_len full)
                          (Some (fresh_memory (ob_len str))) (ob_len str) of
                Inl r \<Rightarrow> (r, w1, k)
              | Inr (full2, str2, mount_flags) \<Rightarrow>
                  let mount_full_opts = (case ob_mem full2 of Some m \<Rightarrow> m | None \<Rightarrow> '''');
                      mount_opts = (case ob_mem str2 of Some m \<Rightarrow> m | None \<Rightarrow> '''')
                  in (case sys_mount os path mount_path fstype mount_flags mount_opts k of
                        (mounted, k1) \<Rightarrow>
                          if \<not> mounted then (ResultFail, w1, k1)
                          else if is_result_successful (is_mtab_writable (os_mtab os (kstate k1)))
                            then (ResultSuccess, w1, k1\<lparr>kstate := os_set_mtab os
                                   (snd (add_to_mtab path mount_path fstype mount_full_opts
                                     (os_mtab os (kstate k1)))) (kstate k1)\<rparr>)
                          else (ResultSuccess, w1, k1)))))"

text \<open>The loop that looks for a free mount point: by label, then by device name.  An error comes
  with its code.\<close>

lemma calculate_path_label:
  "calculate_path c path label mt w = (mp, mount_by_device_label, w') \<Longrightarrow> mt = mount_by_device_label"
  by (auto simp: calculate_path_def Let_def split: if_splits option.splits prod.splits)

function find_mount_path ::
  "config \<Rightarrow> mntent list option \<Rightarrow> string \<Rightarrow> string option \<Rightarrow> mount_by_value_enum \<Rightarrow> io \<Rightarrow>
   (result \<times> error_code, string) sum \<times> io" where
  "find_mount_path c mounts path label mount_type w =
     (case calculate_path c path label mount_type w of
        (None, mt, w1) \<Rightarrow> (Inl (ResultFatalError, error_code_generic_error), w1)
      | (Some mount_path, mt, w1) \<Rightarrow>
          let n = point_mount_count mount_path 1 mounts in
          if n \<noteq> 0 then
            (if n < 0 then (Inl (ResultFatalError, error_code_generic_error), w1)
             else (case mt of
                mount_by_device_label \<Rightarrow>
                  find_mount_path c mounts path label mount_by_device_name w1
              | mount_by_device_name \<Rightarrow> (Inl (ResultFail, error_code_mount_point_busy), w1)))
          else (Inr mount_path, w1))"
  by pat_completeness auto
termination
  by (relation "measure (\<lambda>(c, m, p, l, mt, w). if mt = mount_by_device_label then 1 else 0)")
     (auto dest!: calculate_path_label [OF sym])

declare find_mount_path.simps [simp del]

text \<open>Equations for evaluation, in which the recursion is seen to end.\<close>

lemma find_mount_path_code [code]:
  "find_mount_path c mounts path label mount_by_device_name w =
     (case calculate_path c path label mount_by_device_name w of
        (None, mt, w1) \<Rightarrow> (Inl (ResultFatalError, error_code_generic_error), w1)
      | (Some mount_path, mt, w1) \<Rightarrow>
          let n = point_mount_count mount_path 1 mounts in
          if n \<noteq> 0 then
            (if n < 0 then (Inl (ResultFatalError, error_code_generic_error), w1)
             else (Inl (ResultFail, error_code_mount_point_busy), w1))
          else (Inr mount_path, w1))"
  "find_mount_path c mounts path label mount_by_device_label w =
     (case calculate_path c path label mount_by_device_label w of
        (None, mt, w1) \<Rightarrow> (Inl (ResultFatalError, error_code_generic_error), w1)
      | (Some mount_path, mt, w1) \<Rightarrow>
          let n = point_mount_count mount_path 1 mounts in
          if n \<noteq> 0 then
            (if n < 0 then (Inl (ResultFatalError, error_code_generic_error), w1)
             else (case mt of
                mount_by_device_label \<Rightarrow> find_mount_path c mounts path label mount_by_device_name w1
              | mount_by_device_name \<Rightarrow> (Inl (ResultFail, error_code_mount_point_busy), w1)))
          else (Inr mount_path, w1))"
proof -
  have "snd (snd (calculate_path c path label mount_by_device_name w)) = w1 \<Longrightarrow>
      fst (snd (calculate_path c path label mount_by_device_name w)) = mount_by_device_name" for w1
    by (simp add: calculate_path_def Let_def split: option.split prod.split)
  then show "find_mount_path c mounts path label mount_by_device_name w =
     (case calculate_path c path label mount_by_device_name w of
        (None, mt, w1) \<Rightarrow> (Inl (ResultFatalError, error_code_generic_error), w1)
      | (Some mount_path, mt, w1) \<Rightarrow>
          let n = point_mount_count mount_path 1 mounts in
          if n \<noteq> 0 then
            (if n < 0 then (Inl (ResultFatalError, error_code_generic_error), w1)
             else (Inl (ResultFail, error_code_mount_point_busy), w1))
          else (Inr mount_path, w1))"
    by (subst find_mount_path.simps) (auto simp: Let_def split: option.split prod.split)
qed (subst find_mount_path.simps, rule refl)

definition choose_options :: "string option \<Rightarrow> filesystem_options \<Rightarrow> config \<Rightarrow> string" where
  "choose_options mount_options fsopts c =
     (let o1 = (case mount_options of
                  Some s \<Rightarrow> Some s
                | None \<Rightarrow> (case external_fstype fsopts of
                     Some e \<Rightarrow> get_default_mount_options_for_fs_from_config e c
                   | None \<Rightarrow> get_default_mount_options_for_fs_from_config (fs_fstype fsopts) c))
      in case o1 of Some s \<Rightarrow> s | None \<Rightarrow> fs_defaults fsopts)"

definition choose_mandatory :: "filesystem_options \<Rightarrow> config \<Rightarrow> string" where
  "choose_mandatory fsopts c =
     (case (case external_fstype fsopts of
              Some e \<Rightarrow> get_mandatory_mount_options_for_fs_from_config e c
            | None \<Rightarrow> get_mandatory_mount_options_for_fs_from_config (fs_fstype fsopts) c) of
        Some s \<Rightarrow> s | None \<Rightarrow> fs_mandatory_options fsopts)"

text \<open>From a chosen mount path on: the directory is made when needed, and given up when the mount
  fails.\<close>

definition mount_at ::
  "'k os \<Rightarrow> filesystem_options \<Rightarrow> string \<Rightarrow> string \<Rightarrow> fsopts_list \<Rightarrow> io \<Rightarrow> 'k kernel \<Rightarrow>
   result \<times> error_code option \<times> io \<times> 'k kernel" where
  "mount_at os fsopts path mount_path l w k =
     (case (if get_dir_state os mount_path k = dir_state_not_dir then sys_mkdir os mount_path k
            else (True, k)) of
        (ok, k1) \<Rightarrow>
          if \<not> ok then (ResultFail, Some error_code_mount_point_busy, w, k1)
          else (case (case external_fstype fsopts of
                        Some e \<Rightarrow> invoke_mount_external os path mount_path e l w k1
                      | None \<Rightarrow> invoke_mount_internal os path mount_path (fs_fstype fsopts) l w k1) of
             (r, w1, k2) \<Rightarrow>
               if is_result_failure r
               then (r, Some error_code_generic_error, w1, sys_rmdir os mount_path k2)
               else (r, None, w1, k2)))"

text \<open>The error code is \<open>None\<close> where the code leaves \<open>*error_code\<close> unassigned.\<close>

definition invoke_mount ::
  "'k os \<Rightarrow> config \<Rightarrow> media list \<Rightarrow> int \<Rightarrow> string \<Rightarrow> string option \<Rightarrow> mount_by_value_enum \<Rightarrow>
   io \<Rightarrow> 'k kernel \<Rightarrow> result \<times> error_code option \<times> io \<times> 'k kernel" where
  "invoke_mount os c root fd path mount_options mount_type w k =
     (case dtmd_find_media path root of
        None \<Rightarrow> (ResultFail, Some error_code_no_such_removable_device, w, k)
      | Some m \<Rightarrow>
        if md_fstype (m_info m) = None
          then (ResultFail, Some error_code_fstype_not_recognized, w, k)
        else if md_mnt_point (m_info m) \<noteq> None
          then (ResultFail, Some error_code_device_already_mounted, w, k)
        else case get_credentials os fd k of
          None \<Rightarrow> (ResultClientError, Some error_code_generic_error, w, k)
        | Some (uid, gid) \<Rightarrow>
          (case get_fsopts_for_fs (md_fstype (m_info m)) of
             None \<Rightarrow> (ResultFail, Some error_code_unsupported_fstype, w, k)
           | Some fsopts \<Rightarrow>
             (case convert_options_to_list (Some (choose_options mount_options fsopts c))
                     (Some fsopts) (Some uid) (Some gid) init_options_list w of
                (r1, l1, w1) \<Rightarrow>
                  if is_result_failure r1
                  then (r1, Some error_code_failed_parsing_mount_options, w1, k)
                  else (case convert_options_to_list (Some (choose_mandatory fsopts c))
                               (Some fsopts) None None l1 w1 of
                    (r2, l2, w2) \<Rightarrow>
                      if is_result_failure r2 then (r2, Some error_code_generic_error, w2, k)
                      else (case find_mount_path c (os_mounts os (kstate k)) path
                                   (md_label (m_info m)) mount_type w2 of
                        (Inl (r, e), w3) \<Rightarrow> (r, Some e, w3, k)
                      | (Inr mount_path, w3) \<Rightarrow> mount_at os fsopts path mount_path l2 w3 k)))))"

section \<open>Unmounting\<close>

definition unmount_command :: "string \<Rightarrow> string \<Rightarrow> string" where
  "unmount_command fstype mnt_point =
     unmount_ext_cmd @ '' -t '' @ fstype @ '' '' @ [CHR 0x22] @ mnt_point @ [CHR 0x22]"

definition invoke_unmount_external ::
  "'k os \<Rightarrow> string \<Rightarrow> string \<Rightarrow> io \<Rightarrow> 'k kernel \<Rightarrow> result \<times> error_code option \<times> io \<times> 'k kernel" where
  "invoke_unmount_external os mnt_point fstype w k =
     (case malloc w of (ok, w1) \<Rightarrow>
        if \<not> ok then (ResultFatalError, Some error_code_generic_error, w1, k)
        else (case sys_system os (unmount_command fstype mnt_point) k of (status, k1) \<Rightarrow>
          if status = 0 then (ResultSuccess, None, w1, k1)
          else (ResultFail, Some error_code_generic_error, w1, k1)))"

definition invoke_unmount_internal ::
  "'k os \<Rightarrow> string \<Rightarrow> string \<Rightarrow> string \<Rightarrow> io \<Rightarrow> 'k kernel \<Rightarrow>
   result \<times> error_code option \<times> io \<times> 'k kernel" where
  "invoke_unmount_internal os path mnt_point fstype w k =
     (let n = point_mount_count mnt_point 2 (os_mounts os (kstate k)) in
      if n \<noteq> 1 then
        (if n < 0 then (ResultFatalError, Some error_code_generic_error, w, k)
         else (ResultFail, Some error_code_device_not_mounted, w, k))
      else (case sys_umount os mnt_point k of
          (UmountOk, k1) \<Rightarrow>
            (ResultSuccess, None, w,
             if is_result_successful (is_mtab_writable (os_mtab os (kstate k1)))
             then k1\<lparr>kstate := os_set_mtab os (snd (remove_from_mtab path mnt_point fstype
                    (os_mtab os (kstate k1)))) (kstate k1)\<rparr>
             else k1)
        | (UmountBusy, k1) \<Rightarrow> (ResultFail, Some error_code_mount_point_busy, w, k1)
        | (UmountError, k1) \<Rightarrow> (ResultFail, Some error_code_generic_error, w, k1)))"

definition invoke_unmount_common ::
  "'k os \<Rightarrow> string \<Rightarrow> string \<Rightarrow> string option \<Rightarrow> io \<Rightarrow> 'k kernel \<Rightarrow>
   result \<times> error_code option \<times> io \<times> 'k kernel" where
  "invoke_unmount_common os path mnt_point fstype w k =
     (case get_fsopts_for_fs fstype of
        None \<Rightarrow> (ResultFail, Some error_code_unsupported_fstype, w, k)
      | Some fsopts \<Rightarrow>
          (case (case external_fstype fsopts of
                   Some e \<Rightarrow> invoke_unmount_external os mnt_point e w k
                 | None \<Rightarrow> invoke_unmount_internal os path mnt_point (fs_fstype fsopts) w k) of
             (r, e, w1, k1) \<Rightarrow>
               (r, e, w1,
                if is_result_successful r \<and> get_dir_state os mnt_point k1 = dir_state_empty
                then sys_rmdir os mnt_point k1 else k1)))"

definition invoke_unmount ::
  "'k os \<Rightarrow> media list \<Rightarrow> string \<Rightarrow> io \<Rightarrow> 'k kernel \<Rightarrow>
   result \<times> error_code option \<times> io \<times> 'k kernel" where
  "invoke_unmount os root path w k =
     (case dtmd_find_media path root of
        None \<Rightarrow> (ResultFail, Some error_code_no_such_removable_device, w, k)
      | Some m \<Rightarrow>
          (case md_mnt_point (m_info m) of
             None \<Rightarrow> (ResultFail, Some error_code_device_not_mounted, w, k)
           | Some mp \<Rightarrow> invoke_unmount_common os (m_path m) mp (md_fstype (m_info m)) w k))"

text \<open>\<open>invoke_unmount_recursive\<close> on each of a list of siblings; a fatal error ends it.\<close>

fun invoke_unmount_list ::
  "'k os \<Rightarrow> media list \<Rightarrow> io \<Rightarrow> 'k kernel \<Rightarrow> result \<times> io \<times> 'k kernel" where
  "invoke_unmount_list os [] w k = (ResultSuccess, w, k)"
| "invoke_unmount_list os (Media q i cs # ms) w k =
     (case invoke_unmount_list os cs w k of (r, w1, k1) \<Rightarrow>
        if is_result_fatal_error r then (r, w1, k1)
        else (case (case md_mnt_point i of
                      None \<Rightarrow> (ResultSuccess, w1, k1)
                    | Some mp \<Rightarrow> (case invoke_unmount_common os q mp (md_fstype i) w1 k1 of
                        (r, _, w2, k2) \<Rightarrow> (r, w2, k2))) of
          (r2, w2, k2) \<Rightarrow>
            if is_result_fatal_error r2 then (r2, w2, k2)
            else invoke_unmount_list os ms w2 k2))"

definition invoke_unmount_recursive ::
  "'k os \<Rightarrow> media \<Rightarrow> io \<Rightarrow> 'k kernel \<Rightarrow> result \<times> io \<times> 'k kernel" where
  "invoke_unmount_recursive os m w k = invoke_unmount_list os [m] w k"

definition invoke_unmount_all ::
  "'k os \<Rightarrow> media list \<Rightarrow> io \<Rightarrow> 'k kernel \<Rightarrow> result \<times> io \<times> 'k kernel" where
  "invoke_unmount_all os root w k = invoke_unmount_list os root w k"

end
