(* ===== verification/Dtmd_Poweroff.thy ===== *)
theory Dtmd_Poweroff
  imports Dtmd_Os
begin

text \<open>
  \<^verbatim>\<open>daemon/poweroff.c\<close> (Linux build): powering a device off.  The two SCSI commands go through
  \<open>SG_IO\<close>, in version 4 of the interface and, when the driver does not know it, in version 3;
  their failures are ignored.  The device is then removed through \<^verbatim>\<open>sysfs\<close>.
\<close>

definition status_good :: "nat \<Rightarrow> nat \<Rightarrow> nat \<Rightarrow> result" where
  "status_good device transport driver =
     (if device = 0 \<and> transport = 0 \<and> driver = 0 then ResultSuccess else ResultFail)"

definition send_scsi_command_sync ::
  "'k os \<Rightarrow> string \<Rightarrow> 8 word list \<Rightarrow> 'k kernel \<Rightarrow> result \<times> 'k kernel" where
  "send_scsi_command_sync os dev cdb k = (case sys_sg_v4 os dev cdb k of
     (SgError einval, k1) \<Rightarrow>
       if einval then (case sys_sg_v3 os dev cdb k1 of
           (SgError _, k2) \<Rightarrow> (ResultFail, k2)
         | (SgStatus a b c, k2) \<Rightarrow> (status_good a b c, k2))
       else (ResultFail, k1)
   | (SgStatus a b c, k1) \<Rightarrow> (status_good a b c, k1))"

definition synchronize_cache_cdb :: "8 word list" where
  "synchronize_cache_cdb = (replicate 10 0)[0 := 0x35]"

definition start_stop_unit_cdb :: "8 word list" where
  "start_stop_unit_cdb = (replicate 6 0)[0 := 0x1b]"

definition send_scsi_synchronize_cache_command_sync ::
  "'k os \<Rightarrow> string \<Rightarrow> 'k kernel \<Rightarrow> result \<times> 'k kernel" where
  "send_scsi_synchronize_cache_command_sync os dev k =
     send_scsi_command_sync os dev synchronize_cache_cdb k"

definition send_scsi_start_stop_unit_command_sync ::
  "'k os \<Rightarrow> string \<Rightarrow> 'k kernel \<Rightarrow> result \<times> 'k kernel" where
  "send_scsi_start_stop_unit_command_sync os dev k =
     send_scsi_command_sync os dev start_stop_unit_cdb k"

definition path_max :: nat where "path_max = 4096"

text \<open>The path is printed with \<open>sprintf\<close> into a buffer of \<^verbatim>\<open>PATH_MAX + 1\<close> bytes before its length is
  looked at.\<close>

definition poweroff ::
  "'k os \<Rightarrow> string \<Rightarrow> string \<Rightarrow> io \<Rightarrow> 'k kernel \<Rightarrow> result \<times> error_code option \<times> io \<times> 'k kernel" where
  "poweroff os device_name sysfs_path w k =
     (if \<not> os_open_device os (kstate k) device_name
      then (ResultFail, Some error_code_generic_error, w, k)
      else case sys_fsync os device_name k of (synced, k1) \<Rightarrow>
        if \<not> synced then (ResultFail, Some error_code_generic_error, w, k1)
        else case send_scsi_synchronize_cache_command_sync os device_name k1 of (_, k2) \<Rightarrow>
          case send_scsi_start_stop_unit_command_sync os device_name k2 of (_, k3) \<Rightarrow>
            let fullpath = sysfs_path @ ''/remove'' in
            if length fullpath > path_max
            then (ResultFail, Some error_code_generic_error, undefined_behaviour w, k3)
            else if \<not> os_open_write os (kstate k3) fullpath
            then (ResultFail, Some error_code_generic_error, w, k3)
            else case sys_write os fullpath ''1'' k3 of (n, k4) \<Rightarrow>
              if n \<noteq> Some (length ''1'') then (ResultFail, Some error_code_generic_error, w, k4)
              else (ResultSuccess, None, w, k4))"

text \<open>\<open>poweroff_check_if_device_is_not_mounted\<close> on each of a list of siblings.\<close>

fun check_if_devices_are_not_mounted :: "media list \<Rightarrow> result" where
  "check_if_devices_are_not_mounted [] = ResultSuccess"
| "check_if_devices_are_not_mounted (Media q i cs # ms) =
     (if md_mnt_point i \<noteq> None then ResultFail
      else if is_result_failure (check_if_devices_are_not_mounted cs) then ResultFail
      else check_if_devices_are_not_mounted ms)"

definition poweroff_check_if_device_is_not_mounted :: "media \<Rightarrow> result" where
  "poweroff_check_if_device_is_not_mounted m = check_if_devices_are_not_mounted [m]"

definition invoke_poweroff ::
  "'k os \<Rightarrow> media list \<Rightarrow> string \<Rightarrow> io \<Rightarrow> 'k kernel \<Rightarrow>
   result \<times> error_code option \<times> io \<times> 'k kernel" where
  "invoke_poweroff os root path w k =
     (case dtmd_find_media path root of
        None \<Rightarrow> (ResultFail, Some error_code_no_such_removable_device, w, k)
      | Some m \<Rightarrow>
        if md_type (m_info m) \<noteq> media_type_stateless_device
          then (ResultFail, Some error_code_generic_error, w, k)
        else if is_result_failure (poweroff_check_if_device_is_not_mounted m)
          then (poweroff_check_if_device_is_not_mounted m, Some error_code_mount_point_busy, w, k)
        else (case md_sysfs_path (m_info m) of
          None \<Rightarrow> (ResultFail, Some error_code_generic_error, w, k)
        | Some sysfs_path \<Rightarrow> poweroff os path sysfs_path w k))"

end
