(* ===== verification/Dtmd_Actions.thy ===== *)
theory Dtmd_Actions
  imports Dtmd_Mount Dtmd_Poweroff
begin

text \<open>
  The commands of a client: \<open>invoke_command\<close> and the printing of the device tree
  (\<^verbatim>\<open>daemon/actions.c\<close>), and the two commands that list the supported filesystems and their
  options (\<^verbatim>\<open>daemon/filesystem_opts.c\<close>).  A command is what the command parser, an external
  library, hands over: a name and arguments that may be \<open>NULL\<close>.
\<close>

record dt_command =
  cmd :: string
  args :: "string option list"

definition command_list_all :: string where "command_list_all = ''list_all_removable_devices''"
definition command_list_device :: string where "command_list_device = ''list_removable_device''"
definition command_mount :: string where "command_mount = ''mount''"
definition command_unmount :: string where "command_unmount = ''unmount''"
definition command_list_filesystems :: string where
  "command_list_filesystems = ''list_supported_filesystems''"
definition command_list_options :: string where
  "command_list_options = ''list_supported_filesystem_options''"
definition command_poweroff :: string where "command_poweroff = ''poweroff''"

lemmas command_names = command_list_all_def command_list_device_def command_mount_def
  command_unmount_def command_list_filesystems_def command_list_options_def command_poweroff_def

definition response_started :: string where "response_started = ''started''"
definition response_finished :: string where "response_finished = ''finished''"
definition response_succeeded :: string where "response_succeeded = ''succeeded''"
definition response_failed :: string where "response_failed = ''failed''"

text \<open>A message to the client; when it cannot be written the client is given up.\<close>

definition reply :: "int \<Rightarrow> string \<Rightarrow> result \<Rightarrow> io \<Rightarrow> result \<times> io" where
  "reply fd s r w = (case dprintf fd s w of (ok, w') \<Rightarrow> (if ok then r else ResultClientError, w'))"

section \<open>Printing the device tree\<close>

definition node_desc :: "string option \<Rightarrow> string \<Rightarrow> media_info \<Rightarrow> device_desc" where
  "node_desc par q i = \<lparr>d_parent = (case par of Some p \<Rightarrow> p | None \<Rightarrow> dtmd_root_device_path),
     d_path = q, d_type = md_type i, d_subtype = md_subtype i, d_state = md_state i,
     d_fstype = md_fstype i, d_label = md_label i, d_mnt_point = md_mnt_point i,
     d_mnt_opts = md_mnt_opts i\<rparr>"

text \<open>\<open>print_all_removable_devices_recursive\<close> on each of a list of siblings.\<close>

fun print_devices :: "int \<Rightarrow> string option \<Rightarrow> media list \<Rightarrow> io \<Rightarrow> result \<times> io" where
  "print_devices fd par [] w = (ResultSuccess, w)"
| "print_devices fd par (Media q i cs # ms) w =
     (case print_removable_device_common ''removable_device'' fd (node_desc par q i) w of (r1, w1) \<Rightarrow>
        if is_result_failure r1 then (r1, w1)
        else case print_devices fd (Some q) cs w1 of (r2, w2) \<Rightarrow>
          if is_result_failure r2 then (r2, w2) else print_devices fd par ms w2)"

definition print_all_removable_devices_recursive ::
  "int \<Rightarrow> string option \<Rightarrow> media \<Rightarrow> io \<Rightarrow> result \<times> io" where
  "print_all_removable_devices_recursive fd par m w = print_devices fd par [m] w"

definition print_all_removable_devices :: "int \<Rightarrow> media list \<Rightarrow> io \<Rightarrow> result \<times> io" where
  "print_all_removable_devices fd root w = print_devices fd None root w"

section \<open>Supported filesystems and options\<close>

text \<open>Names with a comma before each but the first, one call per piece.\<close>

fun print_names :: "int \<Rightarrow> bool \<Rightarrow> string list \<Rightarrow> io \<Rightarrow> bool \<times> io" where
  "print_names fd first [] w = (True, w)"
| "print_names fd first (s # ss) w =
     (case (if first then (True, w) else dprintf fd '', '' w) of (ok1, w1) \<Rightarrow>
        if \<not> ok1 then (False, w1)
        else case dprintf fd (print_plain s) w1 of (ok2, w2) \<Rightarrow>
          if \<not> ok2 then (False, w2) else print_names fd False ss w2)"

definition print_list :: "int \<Rightarrow> string \<Rightarrow> string list \<Rightarrow> string \<Rightarrow> io \<Rightarrow> result \<times> io" where
  "print_list fd head names tail w = (case dprintf fd head w of (ok1, w1) \<Rightarrow>
     if \<not> ok1 then (ResultClientError, w1)
     else case print_names fd True names w1 of (ok2, w2) \<Rightarrow>
       if \<not> ok2 then (ResultClientError, w2) else reply fd tail ResultSuccess w2)"

definition invoke_list_supported_filesystems :: "int \<Rightarrow> io \<Rightarrow> result \<times> io" where
  "invoke_list_supported_filesystems fd w =
     print_list fd (message response_started [print_plain command_list_filesystems] @
         ''supported_filesystems_list'' @ ''('')
       (map fs_fstype filesystem_mount_options)
       ('')'' @ [newline] @ message response_finished [print_plain command_list_filesystems]) w"

definition invoke_list_supported_filesystem_options :: "int \<Rightarrow> string \<Rightarrow> io \<Rightarrow> result \<times> io" where
  "invoke_list_supported_filesystem_options fd filesystem w =
     (case get_fsopts_for_fs (Some filesystem) of
        None \<Rightarrow> reply fd (message response_failed [print_plain command_list_options, print_plain filesystem,
            print_arg (Some (error_code_to_string error_code_unsupported_fstype))]) ResultFail w
      | Some fsopts \<Rightarrow>
          print_list fd (message response_started [print_plain command_list_options, print_plain filesystem] @
              ''supported_filesystem_options_list'' @ ''('')
            (map mo_option (concat (fs_options fsopts)))
            ('')'' @ [newline] @
              message response_finished [print_plain command_list_options, print_plain filesystem]) w)"

section \<open>Commands\<close>

text \<open>The answer to a command that succeeds or fails as a whole.  A failure without an error code
  would print an uninitialised variable.\<close>

definition answer ::
  "int \<Rightarrow> string \<Rightarrow> string list \<Rightarrow> result \<Rightarrow> error_code option \<Rightarrow> io \<Rightarrow> result \<times> io" where
  "answer fd name as r e w =
     (if is_result_successful r then reply fd (message response_succeeded (print_plain name # as)) r w
      else case e of
        None \<Rightarrow> (r, undefined_behaviour w)
      | Some c \<Rightarrow> reply fd (message response_failed (print_plain name # as @
          [print_arg (Some (error_code_to_string c))])) r w)"

definition list_all_command :: "int \<Rightarrow> media list \<Rightarrow> io \<Rightarrow> result \<times> io" where
  "list_all_command fd root w =
     (case dprintf fd (message response_started [print_plain command_list_all]) w of (ok1, w1) \<Rightarrow>
        if \<not> ok1 then (ResultClientError, w1)
        else case print_all_removable_devices fd root w1 of (r, w2) \<Rightarrow>
          if is_result_failure r then (r, w2)
          else reply fd (message response_finished [print_plain command_list_all]) ResultSuccess w2)"

definition list_device_command :: "int \<Rightarrow> media list \<Rightarrow> string \<Rightarrow> io \<Rightarrow> result \<times> io" where
  "list_device_command fd root path w =
     (let is_parent_path = strcmp path dtmd_root_device_path = 0;
          found = find_at None path root
      in if \<not> is_parent_path \<and> found = None
         then reply fd (message response_failed [print_plain command_list_device, print_arg (Some path),
                print_arg (Some (error_code_to_string error_code_no_such_removable_device))]) ResultFail w
         else (case dprintf fd (message response_started
                      [print_plain command_list_device, print_arg (Some path)]) w of (ok1, w1) \<Rightarrow>
           if \<not> ok1 then (ResultClientError, w1)
           else case (if is_parent_path then print_all_removable_devices fd root w1
                      else case found of
                        Some (par, m) \<Rightarrow> print_all_removable_devices_recursive fd par m w1
                      | None \<Rightarrow> (ResultFail, w1)) of (r, w2) \<Rightarrow>
             if is_result_failure r then (r, w2)
             else reply fd (message response_finished
                    [print_plain command_list_device, print_arg (Some path)]) ResultSuccess w2))"

definition invoke_command ::
  "'k os \<Rightarrow> config \<Rightarrow> int \<Rightarrow> dt_command \<Rightarrow> daemon \<Rightarrow> 'k kernel \<Rightarrow> result \<times> daemon \<times> 'k kernel" where
  "invoke_command os c fd command d k =
     (let name = cmd command; as = args command; root = removable_media_root d; w = world d;
          output = (\<lambda>(r, w'). (r, d\<lparr>world := w'\<rparr>, k))
      in
      if strcmp name command_list_all = 0 \<and> length as = 0
        then output (list_all_command fd root w)
      else if strcmp name command_list_device = 0 \<and> length as = 1 \<and> as ! 0 \<noteq> None
        then output (list_device_command fd root (the (as ! 0)) w)
      else if strcmp name command_mount = 0 \<and> length as = 2 \<and> as ! 0 \<noteq> None then
        (case invoke_mount os c root fd (the (as ! 0)) (as ! 1) (mount_by_value c) w k of
           (r, e, w1, k1) \<Rightarrow>
             case answer fd command_mount [print_arg (as ! 0), print_arg (as ! 1)] r e w1 of
               (r2, w2) \<Rightarrow> (r2, d\<lparr>world := w2\<rparr>, k1))
      else if strcmp name command_unmount = 0 \<and> length as = 1 \<and> as ! 0 \<noteq> None then
        (case invoke_unmount os root (the (as ! 0)) w k of
           (r, e, w1, k1) \<Rightarrow>
             case answer fd command_unmount [print_arg (as ! 0)] r e w1 of
               (r2, w2) \<Rightarrow> (r2, d\<lparr>world := w2\<rparr>, k1))
      else if strcmp name command_list_filesystems = 0 \<and> length as = 0
        then output (invoke_list_supported_filesystems fd w)
      else if strcmp name command_list_options = 0 \<and> length as = 1 \<and> as ! 0 \<noteq> None
        then output (invoke_list_supported_filesystem_options fd (the (as ! 0)) w)
      else if strcmp name command_poweroff = 0 \<and> length as = 1 \<and> as ! 0 \<noteq> None then
        (case invoke_poweroff os root (the (as ! 0)) w k of
           (r, e, w1, k1) \<Rightarrow>
             case answer fd command_poweroff [print_arg (as ! 0)] r e w1 of
               (r2, w2) \<Rightarrow> (r2, d\<lparr>world := w2\<rparr>, k1))
      else (ResultFail, d, k))"

end
