(* ===== verification/Dtmd_Daemon.thy ===== *)
theory Dtmd_Daemon
  imports Dtmd_Actions
begin

text \<open>
  \<^verbatim>\<open>daemon/daemon-main.c\<close>: the command line, the mount directory, the devices found at the
  start, the event loop with the reading of the clients' commands, and the shutdown.  The
  device monitor (\<^verbatim>\<open>daemon/modules\<close>), \<open>poll\<close>, \<open>accept\<close> and \<open>read\<close> are inputs of the loop,
  the command parser is a parameter.  The lock file and the socket are in \<open>Dtmd_Start\<close>; the rest of
  what \<open>main\<close> does in between to become a daemon (\<open>fork\<close>, signals, standard descriptors) is not
  modelled.
\<close>

section \<open>The command line and the configuration check\<close>

text \<open>\<open>daemonize\<close> and \<open>check_config_only\<close>; \<open>None\<close> when the usage is printed.\<close>

fun parse_arguments :: "string list \<Rightarrow> bool \<times> bool \<Rightarrow> (bool \<times> bool) option" where
  "parse_arguments [] flags = Some flags"
| "parse_arguments (a # as) (daemonize, check_config_only) =
     (if strcmp a ''-n'' = 0 \<or> strcmp a ''--no-daemon'' = 0
      then parse_arguments as (False, check_config_only)
      else if strcmp a ''-c'' = 0 \<or> strcmp a ''--check-config'' = 0
      then parse_arguments as (daemonize, True)
      else None)"

text \<open>The exit status of a configuration check.\<close>

definition config_exit_status :: "int \<Rightarrow> int" where
  "config_exit_status rc =
     (if rc = read_config_return_ok \<or> rc = read_config_return_no_file then 0 else -1)"

section \<open>The mount directory\<close>

text \<open>The directory's path up to its last slash.\<close>

definition parent_directory :: "string \<Rightarrow> string option" where
  "parent_directory directory =
     map_option (\<lambda>s. take (length directory - length s) directory) (strrchr directory CHR ''/'')"

lemma parent_directory_shorter: "parent_directory s = Some t \<Longrightarrow> length t < length s"
  using strrchr_Some [of s "CHR ''/''"] by (fastforce simp: parent_directory_def)

function create_mount_dir_recursive :: "'k os \<Rightarrow> string \<Rightarrow> 'k kernel \<Rightarrow> result \<times> 'k kernel" where
  "create_mount_dir_recursive os directory k =
     (if length directory = 0 then (ResultSuccess, k)
      else case os_stat os (kstate k) directory of
        StatDir \<Rightarrow> (ResultSuccess, k)
      | StatOther \<Rightarrow> (ResultFatalError, k)
      | StatError \<Rightarrow>
          (case (case parent_directory directory of
                   None \<Rightarrow> (ResultSuccess, k)
                 | Some p \<Rightarrow> create_mount_dir_recursive os p k) of
             (r, k1) \<Rightarrow>
               if r = ResultSuccess
               then (case sys_mkdir os directory k1 of (ok, k2) \<Rightarrow>
                      (if ok then ResultSuccess else ResultFatalError, k2))
               else (r, k1)))"
  by pat_completeness auto
termination
  by (relation "measure (\<lambda>(os, s, k). length s)") (simp_all add: parent_directory_shorter)

declare create_mount_dir_recursive.simps [simp del]

definition create_mount_dir :: "'k os \<Rightarrow> string \<Rightarrow> io \<Rightarrow> 'k kernel \<Rightarrow> result \<times> io \<times> 'k kernel" where
  "create_mount_dir os directory w k = (case malloc w of (ok, w1) \<Rightarrow>
     if \<not> ok then (ResultFatalError, w1, k)
     else case create_mount_dir_recursive os directory k of (r, k1) \<Rightarrow> (r, w1, k1))"

text \<open>What the start does about it: create it or require it.\<close>

definition prepare_mount_dir :: "'k os \<Rightarrow> config \<Rightarrow> io \<Rightarrow> 'k kernel \<Rightarrow> bool \<times> io \<times> 'k kernel" where
  "prepare_mount_dir os c w k =
     (if create_mount_dir_on_startup c
      then (case create_mount_dir os (mount_root c) w k of (r, w1, k1) \<Rightarrow>
              (\<not> is_result_failure r, w1, k1))
      else (os_stat os (kstate k) (mount_root c) = StatDir, w, k))"

text \<open>The entries are those \<open>readdir\<close> returns of the directory as it was opened.  The buffer for
  the path is reallocated whenever a longer one is needed.\<close>

fun remove_dirs :: "'k os \<Rightarrow> string \<Rightarrow> dirent list \<Rightarrow> nat \<Rightarrow> io \<Rightarrow> 'k kernel \<Rightarrow> io \<times> 'k kernel" where
  "remove_dirs os dirname [] maxlen w k = (w, k)"
| "remove_dirs os dirname ((name, is_dir) # es) maxlen w k =
     (if is_dir \<and> strcmp name ''.'' \<noteq> 0 \<and> strcmp name ''..'' \<noteq> 0
      then (let len = length dirname + length name + 1 in
            case (if len > maxlen then malloc w else (True, w)) of (ok, w1) \<Rightarrow>
              if \<not> ok then (w1, k)
              else remove_dirs os dirname es (max len maxlen) w1
                     (sys_rmdir os (dirname @ ''/'' @ name) k))
      else remove_dirs os dirname es maxlen w k)"

definition remove_empty_dirs :: "'k os \<Rightarrow> string \<Rightarrow> io \<Rightarrow> 'k kernel \<Rightarrow> io \<times> 'k kernel" where
  "remove_empty_dirs os dirname w k = (case os_readdir os (kstate k) dirname of
     None \<Rightarrow> (w, k)
   | Some es \<Rightarrow> remove_dirs os dirname es 0 w k)"

section \<open>Device events\<close>

datatype device_action = device_action_unknown | device_action_add | device_action_online |
  device_action_remove | device_action_offline | device_action_change

record dtmd_info =
  in_path_parent :: "string option"
  in_path :: "string option"
  in_media_type :: media_type
  in_media_subtype :: media_subtype
  in_sysfs_path :: "string option"
  in_fstype :: "string option"
  in_label :: "string option"
  in_state :: media_state

definition event_complete :: "dtmd_info \<Rightarrow> bool" where
  "event_complete i \<longleftrightarrow> in_media_type i \<noteq> media_type_unknown_or_persistent \<and>
     in_media_subtype i \<noteq> media_subtype_unknown_or_persistent \<and>
     in_path i \<noteq> None \<and> in_path_parent i \<noteq> None"

definition event_desc :: "dtmd_info \<Rightarrow> device_desc" where
  "event_desc i = \<lparr>d_parent = the (in_path_parent i), d_path = the (in_path i),
     d_type = in_media_type i, d_subtype = in_media_subtype i, d_state = in_state i,
     d_fstype = in_fstype i, d_label = in_label i, d_mnt_point = None, d_mnt_opts = None\<rparr>"

text \<open>The flag tells whether the mounts are to be checked.\<close>

definition device_event :: "device_action \<Rightarrow> dtmd_info \<Rightarrow> daemon \<Rightarrow> result \<times> bool \<times> daemon" where
  "device_event action i d =
     (if action = device_action_add \<or> action = device_action_online then
        (if event_complete i
         then (case add_media (event_desc i) (in_sysfs_path i) d of (r, d') \<Rightarrow> (r, False, d'))
         else (ResultFail, False, d))
      else if action = device_action_remove \<or> action = device_action_offline then
        (case in_path i of
           Some p \<Rightarrow> (case remove_media p d of (r, d') \<Rightarrow> (r, False, d'))
         | None \<Rightarrow> (ResultFail, False, d))
      else if action = device_action_change then
        (if event_complete i
         then (case change_media (event_desc i) (in_sysfs_path i) d of (r, d') \<Rightarrow> (r, True, d'))
         else (ResultFail, False, d))
      else (ResultFail, False, d))"

text \<open>The devices found at the start; \<open>rc\<close> is the result that ends the enumeration.\<close>

fun enumerate_devices :: "dtmd_info list \<Rightarrow> result \<Rightarrow> daemon \<Rightarrow> bool \<times> daemon" where
  "enumerate_devices [] rc d = (\<not> is_result_fatal_error rc, d)"
| "enumerate_devices (i # is) rc d =
     (if event_complete i
      then (case add_media (event_desc i) (in_sysfs_path i) d of (r, d') \<Rightarrow>
              if is_result_fatal_error r then (False, d') else enumerate_devices is rc d')
      else enumerate_devices is rc d)"

section \<open>Reading a client's commands\<close>

definition dtmd_command_max_length :: nat where "dtmd_command_max_length = 4096"

text \<open>The command parser: \<open>dt_validate_command\<close> and \<open>dt_parse_command\<close>.\<close>

record command_parser =
  dt_validate_command :: "string \<Rightarrow> bool"
  dt_parse_command :: "string \<Rightarrow> dt_command option"

text \<open>The bytes of a buffer that string functions see.\<close>

definition c_str :: "string \<Rightarrow> string" where
  "c_str b = takeWhile (\<lambda>c. c \<noteq> CHR 0x00) b"

text \<open>\<open>strchr (buf, '\n')\<close>, and what the buffer holds after the command was moved out of it.\<close>

definition has_command :: "string \<Rightarrow> bool" where
  "has_command b \<longleftrightarrow> newline \<in> set (c_str b)"

definition after_command :: "string \<Rightarrow> string" where
  "after_command b = tl (dropWhile (\<lambda>c. c \<noteq> newline) b)"

text \<open>Why the loop ends other than by a signal.\<close>

datatype stop = StopPoll | StopSocket | StopAccept | StopAddClient | StopMonitor | StopDevice |
  StopMountMonitor | StopMountCheck | StopClientBug | StopParse | StopCommand | StopPollfds

datatype verdict = KeepClient | DropClient | StopDaemon stop

lemma after_command_shorter: "has_command b \<Longrightarrow> length (after_command b) < length b"
proof -
  assume "has_command b"
  then have "newline \<in> set b" by (auto simp: has_command_def c_str_def dest: set_takeWhileD)
  then have "dropWhile (\<lambda>c. c \<noteq> newline) b \<noteq> []" by auto
  moreover have "length (dropWhile (\<lambda>c. c \<noteq> newline) b) \<le> length b" by (rule length_dropWhile_le)
  ultimately show ?thesis
    unfolding after_command_def by (cases "dropWhile (\<lambda>c. c \<noteq> newline) b") auto
qed

function process_commands ::
  "'k os \<Rightarrow> config \<Rightarrow> command_parser \<Rightarrow> int \<Rightarrow> string \<Rightarrow> daemon \<Rightarrow> 'k kernel \<Rightarrow>
   verdict \<times> string \<times> daemon \<times> 'k kernel" where
  "process_commands os c ps fd b d k =
     (if \<not> has_command b then (KeepClient, b, d, k)
      else if \<not> dt_validate_command ps (c_str b) then (DropClient, b, d, k)
      else case dt_parse_command ps (c_str b) of
        None \<Rightarrow> (StopDaemon StopParse, b, d, k)
      | Some command \<Rightarrow>
          (case invoke_command os c fd command d k of (r, d1, k1) \<Rightarrow>
             if r = ResultBug \<or> r = ResultFatalError then (StopDaemon StopCommand, b, d1, k1)
             else if r = ResultClientError then (DropClient, b, d1, k1)
             else process_commands os c ps fd (after_command b) d1 k1))"
  by pat_completeness auto
termination
  by (relation "measure (\<lambda>(os, c, ps, fd, b, d, k). length b)") (auto simp: after_command_shorter)

declare process_commands.simps [simp del]

text \<open>What \<open>read\<close> returned: the bytes, or \<open>None\<close> for minus one; and whether \<open>errno\<close> is \<open>EINTR\<close>
  afterwards, which a successful call does not change.\<close>

record read_result =
  rd_data :: "string option"
  rd_eintr :: bool

definition read_length :: "nat \<Rightarrow> read_result \<Rightarrow> int" where
  "read_length room rd = (case rd_data rd of None \<Rightarrow> -1 | Some s \<Rightarrow> int (length (take room s)))"

text \<open>The buffer after \<open>buf_used += rc\<close>.  With an empty buffer and \<open>rc\<close> minus one \<open>buf_used\<close> wraps
  around, and the terminating NUL is written outside the buffer.\<close>

definition fill_buffer :: "string \<Rightarrow> read_result \<Rightarrow> string" where
  "fill_buffer b rd = (case rd_data rd of
     None \<Rightarrow> butlast b
   | Some s \<Rightarrow> b @ take (dtmd_command_max_length - length b) s)"

definition set_buffer :: "int \<Rightarrow> string \<Rightarrow> daemon \<Rightarrow> daemon" where
  "set_buffer fd b d = d\<lparr>clients := map (\<lambda>cl. if clientfd cl = fd then cl\<lparr>buf := b\<rparr> else cl) (clients d)\<rparr>"

definition client_readable ::
  "'k os \<Rightarrow> config \<Rightarrow> command_parser \<Rightarrow> int \<Rightarrow> read_result \<Rightarrow> daemon \<Rightarrow> 'k kernel \<Rightarrow>
   stop option \<times> daemon \<times> 'k kernel" where
  "client_readable os c ps fd rd d k =
     (case find (\<lambda>cl. clientfd cl = fd) (clients d) of
        None \<Rightarrow> (Some StopClientBug, d, k)
      | Some cl \<Rightarrow>
          if read_length (dtmd_command_max_length - length (buf cl)) rd \<le> 0 \<and> \<not> rd_eintr rd
          then (None, snd (remove_client fd d), k)
          else if rd_data rd = None \<and> buf cl = []
          then (None, d\<lparr>world := undefined_behaviour (world d)\<rparr>, k)
          else (case process_commands os c ps fd (fill_buffer (buf cl) rd) d k of
              (StopDaemon s, b, d1, k1) \<Rightarrow> (Some s, set_buffer fd b d1, k1)
            | (DropClient, b, d1, k1) \<Rightarrow> (None, snd (remove_client fd d1), k1)
            | (KeepClient, b, d1, k1) \<Rightarrow>
                if length b = dtmd_command_max_length then (None, snd (remove_client fd d1), k1)
                else (None, set_buffer fd b d1, k1)))"

section \<open>The event loop\<close>

record revents =
  pollhup :: bool
  pollerr :: bool
  pollnval :: bool
  pollin :: bool

definition poll_broken :: "revents \<Rightarrow> bool" where
  "poll_broken e \<longleftrightarrow> pollhup e \<or> pollerr e \<or> pollnval e"

text \<open>The clients' entries of the \<open>pollfds\<close> array.\<close>

fun poll_clients ::
  "'k os \<Rightarrow> config \<Rightarrow> command_parser \<Rightarrow> (int \<Rightarrow> revents \<times> read_result) \<Rightarrow> int list \<Rightarrow> daemon \<Rightarrow>
   'k kernel \<Rightarrow> stop option \<times> daemon \<times> 'k kernel" where
  "poll_clients os c ps ev [] d k = (None, d, k)"
| "poll_clients os c ps ev (fd # fds) d k =
     (case ev fd of (e, rd) \<Rightarrow>
        if poll_broken e then poll_clients os c ps ev fds (snd (remove_client fd d)) k
        else if pollin e then
          (case client_readable os c ps fd rd d k of
             (Some s, d1, k1) \<Rightarrow> (Some s, d1, k1)
           | (None, d1, k1) \<Rightarrow> poll_clients os c ps ev fds d1 k1)
        else poll_clients os c ps ev fds d k)"

text \<open>One pass of the loop: the outcome of \<open>poll\<close> with its events, what \<open>accept\<close> returns, what
  the device monitor returns, and for each client's descriptor its event and what \<open>read\<close>
  returns.\<close>

datatype poll_result = PollReady | PollInterrupted | PollFailed

record loop_input =
  in_poll :: poll_result
  in_socket :: revents
  in_monitor :: revents
  in_mounts :: revents
  in_accept :: "int option"
  in_device :: "result + device_action \<times> dtmd_info"
  in_clients :: "int \<Rightarrow> revents \<times> read_result"

record 'k main_state =
  dmn :: daemon
  krn :: "'k kernel"
  force_mounts_check :: bool
  pollfds_count :: nat

definition pollfds_count_default :: nat where "pollfds_count_default = 3"

definition accept_step :: "loop_input \<Rightarrow> 'k main_state \<Rightarrow> stop option \<times> 'k main_state" where
  "accept_step i s =
     (if poll_broken (in_socket i) then (Some StopSocket, s)
      else if pollin (in_socket i) then
        (case in_accept i of
           None \<Rightarrow> (Some StopAccept, s)
         | Some fd \<Rightarrow> (case add_client fd (dmn s) of (r, d) \<Rightarrow>
             (if is_result_fatal_error r then Some StopAddClient else None, s\<lparr>dmn := d\<rparr>)))
      else (None, s))"

definition device_step :: "loop_input \<Rightarrow> 'k main_state \<Rightarrow> stop option \<times> 'k main_state" where
  "device_step i s =
     (if poll_broken (in_monitor i) then (Some StopMonitor, s)
      else if pollin (in_monitor i) then
        (case in_device i of
           Inl r \<Rightarrow> (if is_result_fatal_error r then Some StopDevice else None, s)
         | Inr (action, info) \<Rightarrow> (case device_event action info (dmn s) of (r, force, d) \<Rightarrow>
             (if is_result_fatal_error r then Some StopDevice else None,
              s\<lparr>dmn := d, force_mounts_check := force_mounts_check s \<or> force\<rparr>)))
      else (None, s))"

definition mounts_step :: "'k os \<Rightarrow> loop_input \<Rightarrow> 'k main_state \<Rightarrow> stop option \<times> 'k main_state" where
  "mounts_step os i s =
     (if pollhup (in_mounts i) \<or> pollnval (in_mounts i) then (Some StopMountMonitor, s)
      else if pollerr (in_mounts i) \<or> force_mounts_check s then
        (case check_mount_changes (os_mounts os (kstate (krn s))) (dmn s) of (r, d) \<Rightarrow>
           (if is_result_fatal_error r then Some StopMountCheck else None,
            s\<lparr>dmn := d, force_mounts_check := False\<rparr>))
      else (None, s))"

definition clients_step ::
  "'k os \<Rightarrow> config \<Rightarrow> command_parser \<Rightarrow> loop_input \<Rightarrow> int list \<Rightarrow> 'k main_state \<Rightarrow>
   stop option \<times> 'k main_state" where
  "clients_step os c ps i fds s =
     (case poll_clients os c ps (in_clients i) fds (dmn s) (krn s) of
        (r, d, k) \<Rightarrow> (r, s\<lparr>dmn := d, krn := k\<rparr>))"

definition pollfds_step :: "'k main_state \<Rightarrow> stop option \<times> 'k main_state" where
  "pollfds_step s =
     (if pollfds_count s \<noteq> pollfds_count_default + clients_count (dmn s)
      then (case malloc (world (dmn s)) of (ok, w) \<Rightarrow>
              (if ok then None else Some StopPollfds,
               s\<lparr>dmn := (dmn s)\<lparr>world := w\<rparr>, pollfds_count := pollfds_count_default + clients_count (dmn s)\<rparr>))
      else (None, s))"

text \<open>A step after one that did not stop the loop.\<close>

definition next_step ::
  "stop option \<times> 's \<Rightarrow> ('s \<Rightarrow> stop option \<times> 's) \<Rightarrow> stop option \<times> 's" where
  "next_step r f = (case r of (Some x, s) \<Rightarrow> (Some x, s) | (None, s) \<Rightarrow> f s)"

text \<open>The array is filled for all clients and then looked at up to \<open>pollfds_count\<close>: with more
  clients than that it would be overrun, with fewer the rest would not be initialised.\<close>

definition fill_pollfds :: "'k main_state \<Rightarrow> 'k main_state" where
  "fill_pollfds s =
     (if pollfds_count s \<noteq> pollfds_count_default + length (clients (dmn s))
      then s\<lparr>dmn := (dmn s)\<lparr>world := undefined_behaviour (world (dmn s))\<rparr>\<rparr> else s)"

definition loop_step ::
  "'k os \<Rightarrow> config \<Rightarrow> command_parser \<Rightarrow> 'k main_state \<Rightarrow> loop_input \<Rightarrow> stop option \<times> 'k main_state" where
  "loop_step os c ps s i =
     (let s0 = fill_pollfds s; fds = map clientfd (clients (dmn s)) in
      case in_poll i of
        PollFailed \<Rightarrow> (Some StopPoll, s0)
      | PollInterrupted \<Rightarrow> (None, s0)
      | PollReady \<Rightarrow>
          next_step (next_step (next_step (next_step (accept_step i s0) (device_step i))
            (mounts_step os i)) (clients_step os c ps i fds)) pollfds_step)"

text \<open>The loop until a signal is seen, here at the end of the inputs, or until it stops itself;
  the exit status of the daemon is minus one in the second case.\<close>

fun main_loop ::
  "'k os \<Rightarrow> config \<Rightarrow> command_parser \<Rightarrow> loop_input list \<Rightarrow> 'k main_state \<Rightarrow> int \<times> 'k main_state" where
  "main_loop os c ps [] s = (0, s)"
| "main_loop os c ps (i # is) s = (case loop_step os c ps s i of
     (None, s') \<Rightarrow> main_loop os c ps is s'
   | (Some _, s') \<Rightarrow> (-1, s'))"

section \<open>Start and end\<close>

definition no_devices :: "io \<Rightarrow> daemon" where
  "no_devices w = \<lparr>removable_media_root = [], clients = [], clients_count = 0, world = w\<rparr>"

text \<open>From the enumeration of the devices to the first pass of the loop.\<close>

definition start_daemon ::
  "'k os \<Rightarrow> dtmd_info list \<Rightarrow> result \<Rightarrow> io \<Rightarrow> 'k kernel \<Rightarrow> bool \<times> 'k main_state" where
  "start_daemon os devices rc w k =
     (let start = (\<lambda>d. \<lparr>dmn = d, krn = k, force_mounts_check = False, pollfds_count = pollfds_count_default\<rparr>) in
      case enumerate_devices devices rc (no_devices w) of (ok, d) \<Rightarrow>
        if \<not> ok then (False, start d)
        else case check_mount_changes (os_mounts os (kstate k)) d of (r, d1) \<Rightarrow>
          if is_result_fatal_error r then (False, start d1)
          else case malloc (world d1) of (ok2, w2) \<Rightarrow> (ok2, start (d1\<lparr>world := w2\<rparr>)))"

definition shutdown :: "'k os \<Rightarrow> config \<Rightarrow> bool \<Rightarrow> 'k main_state \<Rightarrow> 'k main_state" where
  "shutdown os c successfully_initialized s =
     (let d1 = remove_all_clients (dmn s);
          (w2, k2) = (if unmount_on_exit c
                      then (case invoke_unmount_all os (removable_media_root d1) (world d1) (krn s) of
                              (r, w, k) \<Rightarrow> (w, k))
                      else (world d1, krn s));
          (w3, k3) = (if successfully_initialized \<and> clear_mount_dir c
                      then remove_empty_dirs os (mount_root c) w2 k2 else (w2, k2))
      in s\<lparr>dmn := remove_all_media (d1\<lparr>world := w3\<rparr>), krn := k3\<rparr>)"

text \<open>The daemon from the enumeration on: its exit status and the final state.\<close>

definition run_daemon ::
  "'k os \<Rightarrow> config \<Rightarrow> command_parser \<Rightarrow> dtmd_info list \<Rightarrow> result \<Rightarrow> loop_input list \<Rightarrow> io \<Rightarrow>
   'k kernel \<Rightarrow> int \<times> 'k main_state" where
  "run_daemon os c ps devices rc inputs w k =
     (case start_daemon os devices rc w k of
        (False, s) \<Rightarrow> (-1, shutdown os c False s)
      | (True, s) \<Rightarrow> (case main_loop os c ps inputs s of (status, s') \<Rightarrow>
          (status, shutdown os c True s')))"

end
