(* ===== verification/Dtmd_Library.thy ===== *)
theory Dtmd_Library
  imports Dtmd_Daemon
begin

text \<open>
  \<^verbatim>\<open>library/dtmd-library.c\<close>: the client's side of the protocol.  The checks of the daemon's
  messages, the state that follows the listings, the seven requests with their callbacks, the
  loop that sends a request and waits for its answer, and the worker thread that handles the
  messages in between.  The text of a connection that is not read yet is part of the state;
  when how much of it is read, and what the waiting returns, are inputs.  How the caller and
  the worker take turns on the socket is in \<open>Dtmd_Handover\<close>.
\<close>

section \<open>Data\<close>

datatype dtmd_result =
  dtmd_ok | dt_command_failed | dtmd_timeout | dtmd_not_connected | dtmd_io_error |
  dtmd_invalid_state | dtmd_fatal_io_error | dtmd_library_not_initialized | dtmd_input_error |
  dtmd_time_error | dtmd_memory_error | dtmd_internal_initialization_error |
  dtmd_daemon_not_responding_error | dtmd_label_decoding_error

datatype library_state =
  state_default | state_in_list_all_removable_devices | state_in_list_removable_device |
  state_in_list_supported_filesystems | state_in_list_supported_filesystem_options

datatype connection_state = state_connected | state_disconnected | state_failure

datatype helper_result = helper_ok | helper_exit | helper_error

text \<open>The handle.  \<open>h_buffer\<close> holds the \<open>cur_pos\<close> bytes of the buffer, \<open>incoming\<close> what the daemon
  has written and the client has not read, \<open>callbacks\<close> and \<open>state_callbacks\<close> the calls of the
  user's functions, \<open>to_worker\<close> and \<open>feedback\<close> the bytes written to the two pipes.\<close>

record handle =
  socket_fd :: int
  result_state :: dtmd_result
  handle_error_code :: error_code
  library_state :: library_state
  h_buffer :: string
  incoming :: string
  callbacks :: "dt_command list"
  state_callbacks :: "connection_state list"
  to_worker :: "int list"
  feedback :: "int list"
  h_world :: io

fun is_state_invalid :: "dtmd_result \<Rightarrow> bool" where
  "is_state_invalid dtmd_ok = False"
| "is_state_invalid dtmd_timeout = False"
| "is_state_invalid dt_command_failed = False"
| "is_state_invalid dtmd_not_connected = False"
| "is_state_invalid dtmd_io_error = False"
| "is_state_invalid _ = True"

definition dtmd_is_state_invalid :: "handle \<Rightarrow> bool" where
  "dtmd_is_state_invalid h = is_state_invalid (result_state h)"

section \<open>Which answer a message is\<close>

text \<open>\<open>arg_is c i s\<close>: argument \<open>i\<close> is not \<open>NULL\<close> and is the text \<open>s\<close>.\<close>

definition arg_is :: "dt_command \<Rightarrow> nat \<Rightarrow> string \<Rightarrow> bool" where
  "arg_is c i s \<longleftrightarrow> args c ! i \<noteq> None \<and> strcmp (the (args c ! i)) s = 0"

definition is_list_all_common :: "dt_command \<Rightarrow> bool" where
  "is_list_all_common c \<longleftrightarrow> arg_is c 0 command_list_all"

definition is_list_all_generic :: "dt_command \<Rightarrow> bool" where
  "is_list_all_generic c \<longleftrightarrow> length (args c) = 1 \<and> is_list_all_common c"

definition is_list_all_failed :: "dt_command \<Rightarrow> bool" where
  "is_list_all_failed c \<longleftrightarrow> length (args c) = 2 \<and> args c ! 1 \<noteq> None \<and> is_list_all_common c"

definition is_list_device_common :: "dt_command \<Rightarrow> bool" where
  "is_list_device_common c \<longleftrightarrow> args c ! 1 \<noteq> None \<and> arg_is c 0 command_list_device"

definition is_list_device_generic :: "dt_command \<Rightarrow> bool" where
  "is_list_device_generic c \<longleftrightarrow> length (args c) = 2 \<and> is_list_device_common c"

definition is_list_device_failed :: "dt_command \<Rightarrow> bool" where
  "is_list_device_failed c \<longleftrightarrow> length (args c) = 3 \<and> args c ! 2 \<noteq> None \<and> is_list_device_common c"

definition list_device_match :: "string \<Rightarrow> dt_command \<Rightarrow> bool" where
  "list_device_match device_path c \<longleftrightarrow> strcmp (the (args c ! 1)) device_path = 0"

definition is_mount_common :: "dt_command \<Rightarrow> bool" where
  "is_mount_common c \<longleftrightarrow> args c ! 1 \<noteq> None \<and> arg_is c 0 command_mount"

definition is_mount_generic :: "dt_command \<Rightarrow> bool" where
  "is_mount_generic c \<longleftrightarrow> length (args c) = 3 \<and> is_mount_common c"

definition is_mount_failed :: "dt_command \<Rightarrow> bool" where
  "is_mount_failed c \<longleftrightarrow> length (args c) = 4 \<and> args c ! 3 \<noteq> None \<and> is_mount_common c"

definition mount_match :: "string \<Rightarrow> string option \<Rightarrow> dt_command \<Rightarrow> bool" where
  "mount_match path mount_options c \<longleftrightarrow> strcmp (the (args c ! 1)) path = 0 \<and>
     (case (args c ! 2, mount_options) of
        (Some a, Some b) \<Rightarrow> strcmp a b = 0 | (None, None) \<Rightarrow> True | _ \<Rightarrow> False)"

definition is_unmount_common :: "dt_command \<Rightarrow> bool" where
  "is_unmount_common c \<longleftrightarrow> args c ! 1 \<noteq> None \<and> arg_is c 0 command_unmount"

definition is_unmount_generic :: "dt_command \<Rightarrow> bool" where
  "is_unmount_generic c \<longleftrightarrow> length (args c) = 2 \<and> is_unmount_common c"

definition is_unmount_failed :: "dt_command \<Rightarrow> bool" where
  "is_unmount_failed c \<longleftrightarrow> length (args c) = 3 \<and> args c ! 2 \<noteq> None \<and> is_unmount_common c"

definition unmount_match :: "string \<Rightarrow> dt_command \<Rightarrow> bool" where
  "unmount_match path c \<longleftrightarrow> strcmp (the (args c ! 1)) path = 0"

definition is_list_filesystems_common :: "dt_command \<Rightarrow> bool" where
  "is_list_filesystems_common c \<longleftrightarrow> arg_is c 0 command_list_filesystems"

definition is_list_filesystems_generic :: "dt_command \<Rightarrow> bool" where
  "is_list_filesystems_generic c \<longleftrightarrow> length (args c) = 1 \<and> is_list_filesystems_common c"

definition is_list_filesystems_failed :: "dt_command \<Rightarrow> bool" where
  "is_list_filesystems_failed c \<longleftrightarrow>
     length (args c) = 2 \<and> args c ! 1 \<noteq> None \<and> is_list_filesystems_common c"

definition is_list_options_common :: "dt_command \<Rightarrow> bool" where
  "is_list_options_common c \<longleftrightarrow> args c ! 1 \<noteq> None \<and> arg_is c 0 command_list_options"

definition is_list_options_generic :: "dt_command \<Rightarrow> bool" where
  "is_list_options_generic c \<longleftrightarrow> length (args c) = 2 \<and> is_list_options_common c"

definition is_list_options_failed :: "dt_command \<Rightarrow> bool" where
  "is_list_options_failed c \<longleftrightarrow> length (args c) = 3 \<and> args c ! 2 \<noteq> None \<and> is_list_options_common c"

definition list_options_match :: "string \<Rightarrow> dt_command \<Rightarrow> bool" where
  "list_options_match filesystem c \<longleftrightarrow> strcmp (the (args c ! 1)) filesystem = 0"

definition is_poweroff_common :: "dt_command \<Rightarrow> bool" where
  "is_poweroff_common c \<longleftrightarrow> args c ! 1 \<noteq> None \<and> arg_is c 0 command_poweroff"

definition is_poweroff_generic :: "dt_command \<Rightarrow> bool" where
  "is_poweroff_generic c \<longleftrightarrow> length (args c) = 2 \<and> is_poweroff_common c"

definition is_poweroff_failed :: "dt_command \<Rightarrow> bool" where
  "is_poweroff_failed c \<longleftrightarrow> length (args c) = 3 \<and> args c ! 2 \<noteq> None \<and> is_poweroff_common c"

definition poweroff_match :: "string \<Rightarrow> dt_command \<Rightarrow> bool" where
  "poweroff_match device_path c \<longleftrightarrow> strcmp (the (args c ! 1)) device_path = 0"

section \<open>Checks of the listed items\<close>

text \<open>The number of arguments a device of a type has, and which enumerations among them must be
  known.\<close>

definition check_removable_device_common :: "dt_command \<Rightarrow> bool" where
  "check_removable_device_common c \<longleftrightarrow>
     length (args c) \<ge> 3 \<and> args c ! 0 \<noteq> None \<and> args c ! 1 \<noteq> None \<and> args c ! 2 \<noteq> None \<and>
     (case string_to_device_type (args c ! 2) of
        media_type_device_partition \<Rightarrow> length (args c) = 7
      | media_type_stateless_device \<Rightarrow> length (args c) = 4 \<and> args c ! 3 \<noteq> None \<and>
          string_to_device_subtype (args c ! 3) \<noteq> media_subtype_unknown_or_persistent
      | media_type_stateful_device \<Rightarrow> length (args c) = 9 \<and> args c ! 3 \<noteq> None \<and> args c ! 4 \<noteq> None \<and>
          string_to_device_subtype (args c ! 3) \<noteq> media_subtype_unknown_or_persistent \<and>
          string_to_device_state (args c ! 4) \<noteq> media_state_unknown
      | media_type_unknown_or_persistent \<Rightarrow> False)"

definition check_removable_device :: "dt_command \<Rightarrow> bool" where
  "check_removable_device c \<longleftrightarrow>
     strcmp (cmd c) ''removable_device'' = 0 \<and> check_removable_device_common c"

definition validate_string_array :: "string option list \<Rightarrow> bool" where
  "validate_string_array as \<longleftrightarrow> list_all (\<lambda>a. a \<noteq> None) as"

definition check_supported_filesystems :: "dt_command \<Rightarrow> bool" where
  "check_supported_filesystems c \<longleftrightarrow>
     strcmp (cmd c) ''supported_filesystems_list'' = 0 \<and> validate_string_array (args c)"

definition check_supported_filesystem_options :: "dt_command \<Rightarrow> bool" where
  "check_supported_filesystem_options c \<longleftrightarrow>
     strcmp (cmd c) ''supported_filesystem_options_list'' = 0 \<and> validate_string_array (args c)"

section \<open>Messages that answer no request of the caller\<close>

definition handle_callback_cmd :: "dt_command \<Rightarrow> handle \<Rightarrow> dtmd_result \<times> handle" where
  "handle_callback_cmd c h =
     (if strcmp (cmd c) ''removable_device_added'' = 0 \<and> check_removable_device_common c \<or>
         strcmp (cmd c) ''removable_device_removed'' = 0 \<and> length (args c) = 1 \<and> args c ! 0 \<noteq> None \<or>
         strcmp (cmd c) ''removable_device_changed'' = 0 \<and> check_removable_device_common c \<or>
         strcmp (cmd c) ''removable_device_mounted'' = 0 \<and> length (args c) = 3 \<and>
           args c ! 0 \<noteq> None \<and> args c ! 1 \<noteq> None \<and> args c ! 2 \<noteq> None \<or>
         strcmp (cmd c) ''removable_device_unmounted'' = 0 \<and> length (args c) = 2 \<and>
           args c ! 0 \<noteq> None \<and> args c ! 1 \<noteq> None
      then (dtmd_ok, h\<lparr>callbacks := callbacks h @ [c]\<rparr>)
      else (dtmd_fatal_io_error, h))"

text \<open>Inside a listing: its last line, one of its items, or an error.\<close>

definition handle_listed ::
  "(dt_command \<Rightarrow> bool) \<Rightarrow> (dt_command \<Rightarrow> bool) \<Rightarrow> dt_command \<Rightarrow> handle \<Rightarrow> dtmd_result \<times> handle" where
  "handle_listed generic item c h =
     (if strcmp (cmd c) response_finished = 0 \<and> generic c then (dtmd_ok, h\<lparr>library_state := state_default\<rparr>)
      else if item c then (dtmd_ok, h) else (dtmd_fatal_io_error, h))"

definition handle_cmd :: "dt_command \<Rightarrow> handle \<Rightarrow> dtmd_result \<times> handle" where
  "handle_cmd c h = (case library_state h of
     state_default \<Rightarrow>
       if strcmp (cmd c) response_failed = 0 \<and>
         (is_list_all_failed c \<or> is_list_device_failed c \<or> is_mount_failed c \<or> is_unmount_failed c \<or>
          is_poweroff_failed c \<or> is_list_filesystems_failed c \<or> is_list_options_failed c)
       then (dtmd_ok, h)
       else if strcmp (cmd c) response_succeeded = 0 \<and>
         (is_mount_generic c \<or> is_unmount_generic c \<or> is_poweroff_generic c)
       then (dtmd_ok, h)
       else if strcmp (cmd c) response_started = 0 \<and> is_list_all_generic c
       then (dtmd_ok, h\<lparr>library_state := state_in_list_all_removable_devices\<rparr>)
       else if strcmp (cmd c) response_started = 0 \<and> is_list_device_generic c
       then (dtmd_ok, h\<lparr>library_state := state_in_list_removable_device\<rparr>)
       else if strcmp (cmd c) response_started = 0 \<and> is_list_filesystems_generic c
       then (dtmd_ok, h\<lparr>library_state := state_in_list_supported_filesystems\<rparr>)
       else if strcmp (cmd c) response_started = 0 \<and> is_list_options_generic c
       then (dtmd_ok, h\<lparr>library_state := state_in_list_supported_filesystem_options\<rparr>)
       else handle_callback_cmd c h
   | state_in_list_all_removable_devices \<Rightarrow>
       handle_listed is_list_all_generic check_removable_device c h
   | state_in_list_removable_device \<Rightarrow>
       handle_listed is_list_device_generic check_removable_device c h
   | state_in_list_supported_filesystems \<Rightarrow>
       handle_listed is_list_filesystems_generic check_supported_filesystems c h
   | state_in_list_supported_filesystem_options \<Rightarrow>
       handle_listed is_list_options_generic check_supported_filesystem_options c h)"

section \<open>A device from a message\<close>

definition filled_strings :: "string option list \<Rightarrow> string option list" where
  "filled_strings as = (case string_to_device_type (as ! 2) of
     media_type_device_partition \<Rightarrow> [as ! 3, as ! 4, as ! 5, as ! 6]
   | media_type_stateful_device \<Rightarrow> [as ! 5, as ! 6, as ! 7, as ! 8]
   | _ \<Rightarrow> [None, None, None, None])"

definition filled_info :: "string option list \<Rightarrow> media_info" where
  "filled_info as = (let t = string_to_device_type (as ! 2); ss = filled_strings as in
     \<lparr>md_type = t,
      md_subtype = (if t = media_type_stateless_device \<or> t = media_type_stateful_device
        then string_to_device_subtype (as ! 3) else media_subtype_unknown_or_persistent),
      md_state = (if t = media_type_stateful_device
        then string_to_device_state (as ! 4) else media_state_unknown),
      md_fstype = ss ! 0, md_label = ss ! 1, md_mnt_point = ss ! 2, md_mnt_opts = ss ! 3,
      md_sysfs_path = None, md_mount_counter = 0\<rparr>)"

text \<open>\<open>copies\<close>: the strings are duplicated (\<^verbatim>\<open>dtmd_internal_fill_copy\<close>), not linked or moved.  The
  daemon's private data of a device (sysfs path and mount counter) is not used here.\<close>

definition fill_removable_device :: "bool \<Rightarrow> dt_command \<Rightarrow> handle \<Rightarrow> media option \<times> handle" where
  "fill_removable_device copies c h =
     (case malloc_all (True # (if copies then map (\<lambda>s. s \<noteq> None) ((args c ! 1) # filled_strings (args c)) else []))
        (h_world h) of (ok, w) \<Rightarrow>
        if ok then (Some (Media (the (args c ! 1)) (filled_info (args c)) []), h\<lparr>h_world := w\<rparr>)
        else (None, h\<lparr>h_world := w, result_state := dtmd_memory_error\<rparr>))"

definition is_notification_valid_removable_device :: "dt_command \<Rightarrow> bool" where
  "is_notification_valid_removable_device c \<longleftrightarrow>
     (strcmp (cmd c) ''removable_device_added'' = 0 \<or> strcmp (cmd c) ''removable_device_changed'' = 0) \<and>
     check_removable_device_common c"

definition dtmd_fill_removable_device_from_notification ::
  "bool \<Rightarrow> dt_command \<Rightarrow> handle \<Rightarrow> dtmd_result \<times> media option \<times> handle" where
  "dtmd_fill_removable_device_from_notification copies c h =
     (if \<not> is_notification_valid_removable_device c then (dtmd_input_error, None, h)
      else case fill_removable_device copies c h of
        (None, h') \<Rightarrow> (result_state h', None, h') | (Some m, h') \<Rightarrow> (dtmd_ok, Some m, h'))"

end
