(* ===== verification/Dtmd_Requests.thy ===== *)
theory Dtmd_Requests
  imports Dtmd_Library
begin

text \<open>
  The requests of \<^verbatim>\<open>library/dtmd-library.c\<close>: the functions that process the messages while a
  request waits for its answer, the common loop \<open>generic_process\<close> with its callbacks as a
  record of functions, the functions of the interface, and the worker thread.
\<close>

section \<open>Processing a message while a request waits\<close>

text \<open>A message that does not concern the request; \<open>s\<close> is the request's own state.\<close>

definition process_other :: "dt_command \<Rightarrow> handle \<Rightarrow> 's \<Rightarrow> helper_result \<times> handle \<times> 's" where
  "process_other c h s = (case handle_cmd c h of (res, h1) \<Rightarrow>
     if res \<noteq> dtmd_ok
     then (if is_state_invalid res then helper_error else helper_exit, h1\<lparr>result_state := res\<rparr>, s)
     else (helper_ok, h1, s))"

text \<open>The error code of a failure is its last argument.\<close>

definition failed_handle :: "dt_command \<Rightarrow> handle \<Rightarrow> handle" where
  "failed_handle c h =
     h\<lparr>result_state := dt_command_failed, handle_error_code := string_to_error_code (args c ! (length (args c) - 1))\<rparr>"

definition process_action ::
  "(dt_command \<Rightarrow> bool) \<Rightarrow> (dt_command \<Rightarrow> bool) \<Rightarrow> dt_command \<Rightarrow> handle \<Rightarrow> unit \<Rightarrow>
   helper_result \<times> handle \<times> unit" where
  "process_action succeeded failed c h s =
     (if library_state h = state_default \<and> strcmp (cmd c) response_succeeded = 0 \<and> succeeded c
      then (helper_exit, h\<lparr>result_state := dtmd_ok\<rparr>, s)
      else if library_state h = state_default \<and> strcmp (cmd c) response_failed = 0 \<and> failed c
      then (helper_exit, failed_handle c h, s)
      else process_other c h s)"

definition process_mount :: "string \<Rightarrow> string option \<Rightarrow> dt_command \<Rightarrow> handle \<Rightarrow> unit \<Rightarrow> helper_result \<times> handle \<times> unit" where
  "process_mount path mount_options =
     process_action (\<lambda>c. is_mount_generic c \<and> mount_match path mount_options c)
       (\<lambda>c. is_mount_failed c \<and> mount_match path mount_options c)"

definition process_unmount :: "string \<Rightarrow> dt_command \<Rightarrow> handle \<Rightarrow> unit \<Rightarrow> helper_result \<times> handle \<times> unit" where
  "process_unmount path =
     process_action (\<lambda>c. is_unmount_generic c \<and> unmount_match path c)
       (\<lambda>c. is_unmount_failed c \<and> unmount_match path c)"

definition process_poweroff :: "string \<Rightarrow> dt_command \<Rightarrow> handle \<Rightarrow> unit \<Rightarrow> helper_result \<times> handle \<times> unit" where
  "process_poweroff device_path =
     process_action (\<lambda>c. is_poweroff_generic c \<and> poweroff_match device_path c)
       (\<lambda>c. is_poweroff_failed c \<and> poweroff_match device_path c)"

text \<open>The shape of the four listings: until the first line is seen, from then on, and the item.\<close>

definition process_listing ::
  "(dt_command \<Rightarrow> bool) \<Rightarrow> (dt_command \<Rightarrow> bool) \<Rightarrow> library_state \<Rightarrow>
   (dt_command \<Rightarrow> handle \<Rightarrow> 's \<Rightarrow> helper_result \<times> handle \<times> 's) \<Rightarrow> ('s \<Rightarrow> bool) \<Rightarrow> ('s \<Rightarrow> 's) \<Rightarrow>
   dt_command \<Rightarrow> handle \<Rightarrow> 's \<Rightarrow> helper_result \<times> handle \<times> 's" where
  "process_listing generic failed listing item got_started start c h s =
     (if got_started s then
        (if strcmp (cmd c) response_finished = 0 \<and> generic c
         then (helper_exit, h\<lparr>result_state := dtmd_ok, library_state := state_default\<rparr>, s)
         else item c h s)
      else if library_state h = state_default \<and> strcmp (cmd c) response_started = 0 \<and> generic c
      then (helper_ok, h\<lparr>library_state := listing\<rparr>, start s)
      else if library_state h = state_default \<and> strcmp (cmd c) response_failed = 0 \<and> failed c
      then (helper_exit, (failed_handle c h)\<lparr>library_state := state_default\<rparr>, s)
      else process_other c h s)"

text \<open>The state of the two device listings; \<open>accept_multiple_devices\<close> is used by one of them.\<close>

record devices_state =
  devices_started :: bool
  accept_multiple_devices :: bool
  devices_result :: "media list"

text \<open>A device is put below its parent, which must have come before, at its place among the
  siblings; \<open>at_root\<close> tells which devices have no parent.\<close>

definition process_device ::
  "(dt_command \<Rightarrow> bool) \<Rightarrow> dt_command \<Rightarrow> handle \<Rightarrow> devices_state \<Rightarrow> helper_result \<times> handle \<times> devices_state" where
  "process_device at_root c h s =
     (if \<not> check_removable_device c then (helper_error, h\<lparr>result_state := dtmd_invalid_state\<rparr>, s)
      else let parent = the (args c ! 0); found = devices_result s in
        if \<not> at_root c \<and> dtmd_find_media parent found = None
        then (helper_error, h\<lparr>result_state := dtmd_invalid_state\<rparr>, s)
        else case fill_removable_device False c h of
          (None, h1) \<Rightarrow> (helper_error, h1, s)
        | (Some m, h1) \<Rightarrow> (helper_ok, h1, s\<lparr>devices_result :=
            (if at_root c then insert_media m found else edit_media parent (insert_child m) found)\<rparr>))"

definition process_list_all :: "dt_command \<Rightarrow> handle \<Rightarrow> devices_state \<Rightarrow> helper_result \<times> handle \<times> devices_state" where
  "process_list_all =
     process_listing is_list_all_generic is_list_all_failed state_in_list_all_removable_devices
       (process_device (\<lambda>c. strcmp (the (args c ! 0)) dtmd_root_device_path = 0))
       devices_started (\<lambda>s. s\<lparr>devices_started := True\<rparr>)"

definition process_list_device ::
  "string \<Rightarrow> dt_command \<Rightarrow> handle \<Rightarrow> devices_state \<Rightarrow> helper_result \<times> handle \<times> devices_state" where
  "process_list_device device_path =
     process_listing (\<lambda>c. is_list_device_generic c \<and> list_device_match device_path c)
       (\<lambda>c. is_list_device_failed c \<and> list_device_match device_path c) state_in_list_removable_device
       (process_device (\<lambda>c. strcmp (the (args c ! 0)) dtmd_root_device_path = 0 \<or>
          strcmp (the (args c ! 1)) device_path = 0))
       devices_started (\<lambda>s. s\<lparr>devices_started := True\<rparr>)"

text \<open>The state of the two listings of names.  No names and no list are not told apart.\<close>

record names_state =
  names_started :: bool
  got_result :: bool
  names_result :: "string option list"

definition process_names ::
  "(dt_command \<Rightarrow> bool) \<Rightarrow> dt_command \<Rightarrow> handle \<Rightarrow> names_state \<Rightarrow> helper_result \<times> handle \<times> names_state" where
  "process_names check c h s =
     (if check c \<and> \<not> got_result s
      then (helper_ok, h, s\<lparr>got_result := True, names_result := args c\<rparr>)
      else (helper_error, h\<lparr>result_state := dtmd_invalid_state\<rparr>, s))"

definition process_list_filesystems :: "dt_command \<Rightarrow> handle \<Rightarrow> names_state \<Rightarrow> helper_result \<times> handle \<times> names_state" where
  "process_list_filesystems =
     process_listing is_list_filesystems_generic is_list_filesystems_failed
       state_in_list_supported_filesystems (process_names check_supported_filesystems)
       names_started (\<lambda>s. s\<lparr>names_started := True\<rparr>)"

definition process_list_options ::
  "string \<Rightarrow> dt_command \<Rightarrow> handle \<Rightarrow> names_state \<Rightarrow> helper_result \<times> handle \<times> names_state" where
  "process_list_options filesystem =
     process_listing (\<lambda>c. is_list_options_generic c \<and> list_options_match filesystem c)
       (\<lambda>c. is_list_options_failed c \<and> list_options_match filesystem c)
       state_in_list_supported_filesystem_options (process_names check_supported_filesystem_options)
       names_started (\<lambda>s. s\<lparr>names_started := True\<rparr>)"

section \<open>The end of a request\<close>

definition clear_devices :: "devices_state \<Rightarrow> devices_state" where
  "clear_devices s = s\<lparr>devices_result := []\<rparr>"

definition clear_names :: "names_state \<Rightarrow> names_state" where
  "clear_names s = s\<lparr>names_result := []\<rparr>"

text \<open>\<open>wrong\<close>: the answer is not complete although the request ended well.\<close>

definition exit_listing ::
  "('s \<Rightarrow> bool) \<Rightarrow> ('s \<Rightarrow> 's) \<Rightarrow> handle \<Rightarrow> 's \<Rightarrow> bool \<times> handle \<times> 's" where
  "exit_listing wrong clear h s =
     (if result_state h = dtmd_ok
      then (if wrong s then (False, h\<lparr>result_state := dtmd_invalid_state\<rparr>, s) else (True, h, s))
      else (True, h, clear s))"

definition exit_list_all :: "handle \<Rightarrow> devices_state \<Rightarrow> bool \<times> handle \<times> devices_state" where
  "exit_list_all = exit_listing (\<lambda>s. \<not> devices_started s) clear_devices"

definition exit_list_device :: "handle \<Rightarrow> devices_state \<Rightarrow> bool \<times> handle \<times> devices_state" where
  "exit_list_device = exit_listing (\<lambda>s. \<not> devices_started s \<or> devices_result s = [] \<or>
     \<not> accept_multiple_devices s \<and> tl (devices_result s) \<noteq> []) clear_devices"

definition exit_list_filesystems :: "handle \<Rightarrow> names_state \<Rightarrow> bool \<times> handle \<times> names_state" where
  "exit_list_filesystems = exit_listing (\<lambda>s. \<not> got_result s) clear_names"

definition exit_list_options :: "handle \<Rightarrow> names_state \<Rightarrow> bool \<times> handle \<times> names_state" where
  "exit_list_options = exit_listing (\<lambda>s. \<not> got_result s) clear_names"

section \<open>The common loop\<close>

text \<open>The four callbacks: the text that \<open>dprintf_func\<close> writes, \<open>process_func\<close>, \<open>exit_func\<close> and
  \<open>exit_clear_func\<close>; a request without a state of its own has trivial ones.\<close>

record 's request =
  rq_text :: string
  rq_process :: "dt_command \<Rightarrow> handle \<Rightarrow> 's \<Rightarrow> helper_result \<times> handle \<times> 's"
  rq_exit :: "handle \<Rightarrow> 's \<Rightarrow> bool \<times> handle \<times> 's"
  rq_clear :: "'s \<Rightarrow> 's"

text \<open>The complete lines of the buffer.  A line that does not validate leaves \<open>result_state\<close> as it
  is.\<close>

function process_lines ::
  "command_parser \<Rightarrow> 's request \<Rightarrow> string \<Rightarrow> handle \<Rightarrow> 's \<Rightarrow> helper_result \<times> string \<times> handle \<times> 's" where
  "process_lines ps rq b h s =
     (if \<not> has_command b then (helper_ok, b, h, s)
      else if \<not> dt_validate_command ps (c_str b) then (helper_error, b, h, s)
      else case dt_parse_command ps (c_str b) of
        None \<Rightarrow> (helper_error, after_command b, h\<lparr>result_state := dtmd_invalid_state\<rparr>, s)
      | Some c \<Rightarrow> (case rq_process rq c h s of (res, h1, s1) \<Rightarrow>
          if res = helper_ok then process_lines ps rq (after_command b) h1 s1
          else (res, after_command b, h1, s1)))"
  by pat_completeness auto
termination
  by (relation "measure (\<lambda>(ps, rq, b, h, s). length b)") (auto simp: after_command_shorter)

declare process_lines.simps [simp del]

text \<open>One attempt to read: the wait fails, \<open>read\<close> fails, or \<open>Suc n\<close> bytes have arrived, of which
  those that fit are read; with nothing left to come the connection is closed.\<close>

datatype client_input = WaitFailed dtmd_result | ReadFailed | Arrived nat

definition read_data :: "client_input \<Rightarrow> string \<Rightarrow> string \<Rightarrow> dtmd_result \<times> string \<times> string" where
  "read_data i b inc = (case i of
     WaitFailed r \<Rightarrow> (r, b, inc)
   | ReadFailed \<Rightarrow> (dtmd_io_error, b, inc)
   | Arrived n \<Rightarrow>
       (let got = take (min (Suc n) (dtmd_command_max_length - length b)) inc in
        if got = [] then (dtmd_io_error, b, inc)
        else (dtmd_ok, b @ got, drop (length got) inc)))"

text \<open>The loop of a request over the attempts to read; \<open>None\<close>: it still waits when they are used
  up.  The flag tells the exit path from the error path.\<close>

fun request_loop ::
  "command_parser \<Rightarrow> 's request \<Rightarrow> client_input list \<Rightarrow> string \<Rightarrow> string \<Rightarrow> handle \<Rightarrow> 's \<Rightarrow>
   (bool \<times> handle \<times> 's) option" where
  "request_loop ps rq is b inc h s =
     (case process_lines ps rq b h s of (res, b1, h1, s1) \<Rightarrow>
        let h2 = h1\<lparr>h_buffer := b1, incoming := inc\<rparr> in
        if res = helper_exit then Some (True, h2, s1)
        else if res = helper_error then Some (False, h2, s1)
        else if length b1 = dtmd_command_max_length
        then Some (False, h2\<lparr>result_state := dtmd_invalid_state\<rparr>, s1)
        else (case is of
          [] \<Rightarrow> None
        | i # is' \<Rightarrow> (case read_data i b1 inc of (r, b2, inc2) \<Rightarrow>
            if r = dtmd_ok then request_loop ps rq is' b2 inc2 h1 s1
            else Some (\<not> is_state_invalid r, h2\<lparr>result_state := r\<rparr>, s1))))"

declare request_loop.simps [simp del]

definition request_error :: "'s request \<Rightarrow> handle \<Rightarrow> 's \<Rightarrow> dtmd_result \<times> handle \<times> 's" where
  "request_error rq h s = (result_state h, h\<lparr>to_worker := to_worker h @ [0]\<rparr>, rq_clear rq s)"

definition request_end :: "'s request \<Rightarrow> bool \<times> handle \<times> 's \<Rightarrow> dtmd_result \<times> handle \<times> 's" where
  "request_end rq r = (case r of
     (True, h, s) \<Rightarrow> (case rq_exit rq h s of
         (True, h1, s1) \<Rightarrow> (result_state h1, h1, s1)
       | (False, h1, s1) \<Rightarrow> request_error rq h1 s1)
   | (False, h, s) \<Rightarrow> request_error rq h s)"

text \<open>\<open>captured\<close> is the result of \<open>dtmd_helper_capture_socket\<close>.\<close>

definition generic_process ::
  "command_parser \<Rightarrow> 's request \<Rightarrow> dtmd_result \<Rightarrow> client_input list \<Rightarrow> handle \<Rightarrow> 's \<Rightarrow>
   (dtmd_result \<times> handle \<times> 's) option" where
  "generic_process ps rq captured is h s =
     (if dtmd_is_state_invalid h then Some (dtmd_invalid_state, h, s)
      else let h0 = h\<lparr>to_worker := to_worker h @ [1]\<rparr> in
        if captured \<noteq> dtmd_ok
        then Some (request_end rq (\<not> is_state_invalid captured, h0\<lparr>result_state := captured\<rparr>, s))
        else if socket_fd h < 0
        then Some (request_end rq (True, h0\<lparr>result_state := dtmd_not_connected\<rparr>, s))
        else case dprintf (socket_fd h) (rq_text rq) (h_world h) of (ok, w) \<Rightarrow>
          let h1 = h0\<lparr>h_world := w\<rparr> in
          if \<not> ok then Some (request_end rq (False, h1\<lparr>result_state := dtmd_io_error\<rparr>, s))
          else map_option (request_end rq) (request_loop ps rq is (h_buffer h) (incoming h) h1 s))"

section \<open>The interface\<close>

text \<open>The requests.\<close>

definition list_all_request :: "devices_state request" where
  "list_all_request = \<lparr>rq_text = message command_list_all [], rq_process = process_list_all,
     rq_exit = exit_list_all, rq_clear = clear_devices\<rparr>"

definition list_device_request :: "string \<Rightarrow> devices_state request" where
  "list_device_request path = \<lparr>rq_text = message command_list_device [print_plain path],
     rq_process = process_list_device path, rq_exit = exit_list_device, rq_clear = clear_devices\<rparr>"

definition action_request ::
  "string \<Rightarrow> (dt_command \<Rightarrow> handle \<Rightarrow> unit \<Rightarrow> helper_result \<times> handle \<times> unit) \<Rightarrow> unit request" where
  "action_request text_out process = \<lparr>rq_text = text_out, rq_process = process,
     rq_exit = (\<lambda>h s. (True, h, s)), rq_clear = (\<lambda>s. s)\<rparr>"

definition mount_request :: "string \<Rightarrow> string option \<Rightarrow> unit request" where
  "mount_request path mount_options =
     action_request (message command_mount [print_plain path, print_arg mount_options])
       (process_mount path mount_options)"

definition unmount_request :: "string \<Rightarrow> unit request" where
  "unmount_request path =
     action_request (message command_unmount [print_plain path]) (process_unmount path)"

definition poweroff_request :: "string \<Rightarrow> unit request" where
  "poweroff_request path =
     action_request (message command_poweroff [print_plain path]) (process_poweroff path)"

definition list_filesystems_request :: "names_state request" where
  "list_filesystems_request = \<lparr>rq_text = message command_list_filesystems [],
     rq_process = process_list_filesystems, rq_exit = exit_list_filesystems, rq_clear = clear_names\<rparr>"

definition list_options_request :: "string \<Rightarrow> names_state request" where
  "list_options_request filesystem = \<lparr>rq_text = message command_list_options [print_plain filesystem],
     rq_process = process_list_options filesystem, rq_exit = exit_list_options, rq_clear = clear_names\<rparr>"

text \<open>The functions of the interface; a path may be \<open>NULL\<close>.\<close>

definition no_path :: "string option \<Rightarrow> bool" where
  "no_path path \<longleftrightarrow> path = None \<or> path = Some ''''"

definition dtmd_list_all_removable_devices ::
  "command_parser \<Rightarrow> dtmd_result \<Rightarrow> client_input list \<Rightarrow> handle \<Rightarrow> (dtmd_result \<times> handle \<times> media list) option" where
  "dtmd_list_all_removable_devices ps captured is h =
     map_option (\<lambda>(r, h', s). (r, h', devices_result s))
       (generic_process ps list_all_request captured is h
         \<lparr>devices_started = False, accept_multiple_devices = True, devices_result = []\<rparr>)"

definition dtmd_list_removable_device ::
  "command_parser \<Rightarrow> string option \<Rightarrow> dtmd_result \<Rightarrow> client_input list \<Rightarrow> handle \<Rightarrow>
   (dtmd_result \<times> handle \<times> media list) option" where
  "dtmd_list_removable_device ps path captured is h =
     (if no_path path then Some (dtmd_input_error, h, [])
      else map_option (\<lambda>(r, h', s). (r, h', devices_result s))
        (generic_process ps (list_device_request (the path)) captured is h
          \<lparr>devices_started = False,
           accept_multiple_devices = (strcmp (the path) dtmd_root_device_path = 0), devices_result = []\<rparr>))"

definition run_action_request ::
  "command_parser \<Rightarrow> unit request \<Rightarrow> dtmd_result \<Rightarrow> client_input list \<Rightarrow> handle \<Rightarrow> (dtmd_result \<times> handle) option" where
  "run_action_request ps rq captured is h =
     map_option (\<lambda>(r, h', s). (r, h')) (generic_process ps rq captured is h ())"

definition dtmd_mount ::
  "command_parser \<Rightarrow> string option \<Rightarrow> string option \<Rightarrow> dtmd_result \<Rightarrow> client_input list \<Rightarrow> handle \<Rightarrow>
   (dtmd_result \<times> handle) option" where
  "dtmd_mount ps path mount_options captured is h =
     (if no_path path then Some (dtmd_input_error, h)
      else run_action_request ps (mount_request (the path) mount_options) captured is h)"

definition dtmd_unmount ::
  "command_parser \<Rightarrow> string option \<Rightarrow> dtmd_result \<Rightarrow> client_input list \<Rightarrow> handle \<Rightarrow> (dtmd_result \<times> handle) option" where
  "dtmd_unmount ps path captured is h =
     (if no_path path then Some (dtmd_input_error, h)
      else run_action_request ps (unmount_request (the path)) captured is h)"

definition dtmd_poweroff ::
  "command_parser \<Rightarrow> string option \<Rightarrow> dtmd_result \<Rightarrow> client_input list \<Rightarrow> handle \<Rightarrow> (dtmd_result \<times> handle) option" where
  "dtmd_poweroff ps path captured is h =
     (if no_path path then Some (dtmd_input_error, h)
      else run_action_request ps (poweroff_request (the path)) captured is h)"

definition names_start :: names_state where
  "names_start = \<lparr>names_started = False, got_result = False, names_result = []\<rparr>"

definition dtmd_list_supported_filesystems ::
  "command_parser \<Rightarrow> dtmd_result \<Rightarrow> client_input list \<Rightarrow> handle \<Rightarrow>
   (dtmd_result \<times> handle \<times> string option list) option" where
  "dtmd_list_supported_filesystems ps captured is h =
     map_option (\<lambda>(r, h', s). (r, h', names_result s))
       (generic_process ps list_filesystems_request captured is h names_start)"

text \<open>The name of the filesystem is not checked for \<open>NULL\<close>; without it the request cannot be
  printed.\<close>

definition dtmd_list_supported_filesystem_options ::
  "command_parser \<Rightarrow> string option \<Rightarrow> dtmd_result \<Rightarrow> client_input list \<Rightarrow> handle \<Rightarrow>
   (dtmd_result \<times> handle \<times> string option list) option" where
  "dtmd_list_supported_filesystem_options ps filesystem captured is h =
     (if filesystem = None \<and> \<not> dtmd_is_state_invalid h \<and> captured = dtmd_ok \<and> socket_fd h \<ge> 0
      then Some (dtmd_ok, h\<lparr>h_world := undefined_behaviour (h_world h)\<rparr>, [])
      else map_option (\<lambda>(r, h', s). (r, h', names_result s))
        (generic_process ps (list_options_request (the filesystem)) captured is h names_start))"

section \<open>The worker thread\<close>

function worker_lines :: "command_parser \<Rightarrow> string \<Rightarrow> handle \<Rightarrow> bool \<times> string \<times> handle" where
  "worker_lines ps b h =
     (if \<not> has_command b then (True, b, h)
      else if \<not> dt_validate_command ps (c_str b) then (False, b, h)
      else case dt_parse_command ps (c_str b) of
        None \<Rightarrow> (False, after_command b, h)
      | Some c \<Rightarrow> (case handle_cmd c h of (res, h1) \<Rightarrow>
          if res \<noteq> dtmd_ok then (False, after_command b, h1)
          else worker_lines ps (after_command b) h1))"
  by pat_completeness auto
termination
  by (relation "measure (\<lambda>(ps, b, h). length b)") (auto simp: after_command_shorter)

declare worker_lines.simps [simp del]

text \<open>\<open>dtmd_try_connecting\<close>: \<open>socket\<close> or \<open>connect\<close> fails, or a descriptor.\<close>

datatype connect_outcome = NoSocket | Refused | Connected int

definition try_connecting :: "connect_outcome \<Rightarrow> handle \<Rightarrow> int \<times> handle" where
  "try_connecting out h = (case out of
     NoSocket \<Rightarrow> (-1, h\<lparr>socket_fd := -1\<rparr>)
   | Refused \<Rightarrow> (0, h\<lparr>socket_fd := -1\<rparr>)
   | Connected fd \<Rightarrow> (1, h\<lparr>socket_fd := fd\<rparr>))"

text \<open>An event of the directory of the daemon's socket: a file was created or moved there, or the
  directory itself is gone; what connecting would give then, and what the new connection
  would carry.\<close>

record watch_event =
  we_created :: bool
  we_name :: "string option"
  we_gone :: bool
  we_connect :: connect_outcome
  we_incoming :: string

fun watch_events :: "string \<Rightarrow> watch_event list \<Rightarrow> handle \<Rightarrow> bool \<times> handle" where
  "watch_events file_name [] h = (True, h)"
| "watch_events file_name (e # es) h =
     (case (if we_created e \<and> socket_fd h < 0 \<and> we_name e \<noteq> None \<and> strcmp (the (we_name e)) file_name = 0
            then (case try_connecting (we_connect e) h of (rc, h1) \<Rightarrow>
              if rc < 0 then (False, h1)
              else if rc > 0
              then (True, h1\<lparr>h_buffer := [], incoming := we_incoming e,
                     state_callbacks := state_callbacks h1 @ [state_connected]\<rparr>)
              else (True, h1))
            else (True, h)) of (ok, h2) \<Rightarrow>
        if \<not> ok \<or> we_gone e then (False, h2) else watch_events file_name es h2)"

text \<open>What \<open>poll\<close> reports, in the order the worker looks at it.  The byte of the pipe is \<open>None\<close> when
  it cannot be read.\<close>

datatype worker_input =
  WorkerInterrupted | WorkerPollFailed | SocketBroken | PipeReadable "int option" |
  Watched "watch_event list" | SocketReadable nat | SocketReadFailed

datatype worker_end = WorkerExit | WorkerError

definition disconnect :: "handle \<Rightarrow> handle" where
  "disconnect h = h\<lparr>state_callbacks := state_callbacks h @ [state_disconnected],
     h_world := close_fd (socket_fd h) (h_world h), socket_fd := -1\<rparr>"

definition worker_event :: "string \<Rightarrow> worker_input \<Rightarrow> handle \<Rightarrow> worker_end option \<times> handle" where
  "worker_event file_name i h = (case i of
     WorkerInterrupted \<Rightarrow> (None, h)
   | WorkerPollFailed \<Rightarrow> (Some WorkerError, h)
   | SocketBroken \<Rightarrow> (None, if socket_fd h \<ge> 0 then disconnect h else h)
   | PipeReadable x \<Rightarrow> (case x of
         None \<Rightarrow> (Some WorkerError, h)
       | Some b \<Rightarrow> if b = 1 then (None, h\<lparr>feedback := feedback h @ [1]\<rparr>) else (Some WorkerExit, h))
   | Watched es \<Rightarrow> (case watch_events file_name es h of (ok, h1) \<Rightarrow> (if ok then None else Some WorkerError, h1))
   | SocketReadable n \<Rightarrow>
       if socket_fd h < 0 then (None, h)
       else (case read_data (Arrived n) (h_buffer h) (incoming h) of (r, b, inc) \<Rightarrow>
         if r = dtmd_ok then (None, h\<lparr>h_buffer := b, incoming := inc\<rparr>) else (None, disconnect h))
   | SocketReadFailed \<Rightarrow> if socket_fd h < 0 then (None, h) else (None, disconnect h))"

definition worker_step ::
  "command_parser \<Rightarrow> string \<Rightarrow> worker_input \<Rightarrow> handle \<Rightarrow> worker_end option \<times> handle" where
  "worker_step ps file_name i h = (case worker_lines ps (h_buffer h) h of (ok, b, h1) \<Rightarrow>
     let h2 = h1\<lparr>h_buffer := b\<rparr> in
     if ok then worker_event file_name i h2 else (Some WorkerError, h2))"

fun worker_function ::
  "command_parser \<Rightarrow> string \<Rightarrow> worker_input list \<Rightarrow> handle \<Rightarrow> worker_end option \<times> handle" where
  "worker_function ps file_name [] h = (None, h)"
| "worker_function ps file_name (i # is) h = (case worker_step ps file_name i h of
     (None, h1) \<Rightarrow> worker_function ps file_name is h1
   | (Some WorkerExit, h1) \<Rightarrow> (Some WorkerExit, h1\<lparr>feedback := feedback h1 @ [0]\<rparr>)
   | (Some WorkerError, h1) \<Rightarrow> (Some WorkerError, h1\<lparr>state_callbacks := state_callbacks h1 @ [state_failure],
       feedback := feedback h1 @ [0]\<rparr>))"

end
