(* ===== verification/Dtmd_Lists_Spec.thy ===== *)
theory Dtmd_Lists_Spec
  imports Dtmd_Lists "HOL-Library.Multiset"
begin

text \<open>
  What \<^verbatim>\<open>daemon/lists.c\<close> promises: the tree of devices as the sequence of its nodes
  (\<open>nodes\<close>), the invariant every operation keeps, the effect of each operation on the
  nodes, and the notifications it sends.
\<close>

section \<open>The nodes of the tree\<close>

type_synonym node = "string option \<times> string \<times> media_info"

fun nodes :: "string option \<Rightarrow> media list \<Rightarrow> node list" where
  "nodes par [] = []"
| "nodes par (Media q i cs # ms) = (par, q, i) # nodes (Some q) cs @ nodes par ms"

definition node_path :: "node \<Rightarrow> string" where
  "node_path n = fst (snd n)"

lemma node_path_simp [simp]: "node_path (pp, q, i) = q"
  by (simp add: node_path_def)

definition paths :: "string option \<Rightarrow> media list \<Rightarrow> string set" where
  "paths par ms = node_path ` set (nodes par ms)"

lemma paths_simps [simp]:
  "paths par [] = {}"
  "paths par (Media q i cs # ms) = insert q (paths (Some q) cs \<union> paths par ms)"
  by (auto simp: paths_def node_path_def)

lemma nodes_append [simp]: "nodes par (xs @ ys) = nodes par xs @ nodes par ys"
  by (induction par xs rule: nodes.induct) auto

lemma find_at_None: "find_at par p ms = None \<longleftrightarrow> p \<notin> paths par ms"
  by (induction par p ms rule: find_at.induct) (auto split: option.splits)

lemma find_at_Some:
  "find_at par p ms = Some (pp, m) \<Longrightarrow> m_path m = p \<and> (pp, p, m_info m) \<in> set (nodes par ms)"
  by (induction par p ms rule: find_at.induct) (auto split: option.splits if_splits)

text \<open>The tree around the device found, and what an edit leaves of it.\<close>

lemma nodes_edit:
  assumes "find_at par p ms = Some (pp, m)"
  shows "\<exists>xs ys. nodes par ms = xs @ nodes pp [m] @ ys \<and> p \<notin> node_path ` set xs \<and>
    (\<forall>f. nodes par (edit_media p f ms) = xs @ nodes pp (f m) @ ys)"
  using assms
proof (induction par p ms rule: find_at.induct)
  case (2 par p q i cs ms)
  consider "p = q" | "p \<noteq> q" "find_at (Some q) p cs \<noteq> None" | "p \<noteq> q" "find_at (Some q) p cs = None"
    by blast
  then show ?case
  proof cases
    case 1
    with 2 have "pp = par" "m = Media q i cs" by auto
    with 1 have "nodes par (Media q i cs # ms) = [] @ nodes pp [m] @ nodes par ms \<and>
      p \<notin> node_path ` set [] \<and>
      (\<forall>f. nodes par (edit_media p f (Media q i cs # ms)) = [] @ nodes pp (f m) @ nodes par ms)"
      by simp
    then show ?thesis by blast
  next
    case n: 2
    with 2 have "find_at (Some q) p cs = Some (pp, m)" by auto
    with 2 n obtain xs ys where "nodes (Some q) cs = xs @ nodes pp [m] @ ys" "p \<notin> node_path ` set xs"
      "\<forall>f. nodes (Some q) (edit_media p f cs) = xs @ nodes pp (f m) @ ys" by auto
    with n have "nodes par (Media q i cs # ms) = ((par, q, i) # xs) @ nodes pp [m] @ (ys @ nodes par ms) \<and>
      p \<notin> node_path ` set ((par, q, i) # xs) \<and>
      (\<forall>f. nodes par (edit_media p f (Media q i cs # ms)) =
         ((par, q, i) # xs) @ nodes pp (f m) @ (ys @ nodes par ms))"
      by (auto simp: node_path_def)
    then show ?thesis by blast
  next
    case n: 3
    with 2 have "find_at par p ms = Some (pp, m)" by auto
    with 2 n obtain xs ys where "nodes par ms = xs @ nodes pp [m] @ ys" "p \<notin> node_path ` set xs"
      "\<forall>f. nodes par (edit_media p f ms) = xs @ nodes pp (f m) @ ys" by auto
    with n find_at_None [of "Some q" p cs]
    have "nodes par (Media q i cs # ms) = ((par, q, i) # nodes (Some q) cs @ xs) @ nodes pp [m] @ ys \<and>
      p \<notin> node_path ` set ((par, q, i) # nodes (Some q) cs @ xs) \<and>
      (\<forall>f. nodes par (edit_media p f (Media q i cs # ms)) =
         ((par, q, i) # nodes (Some q) cs @ xs) @ nodes pp (f m) @ ys)"
      by (auto simp: node_path_def paths_def)
    then show ?thesis by blast
  qed
qed simp

lemma nodes_insert: "mset (nodes par (insert_media m ms)) = mset (nodes par [m]) + mset (nodes par ms)"
proof (induction ms)
  case (Cons n ns)
  then show ?case by (cases m; cases n) auto
qed simp

lemma nodes_insert_child:
  "mset (nodes pp (insert_child m n)) = mset (nodes (Some (m_path n)) [m]) + mset (nodes pp [n])"
  by (cases n) (simp add: insert_child_def nodes_insert)

section \<open>Invariant\<close>

definition info_ok :: "media_info \<Rightarrow> bool" where
  "info_ok i \<longleftrightarrow> md_mount_counter i = (if md_mnt_point i = None then 0 else 1) \<and>
     (case md_label i of None \<Rightarrow> True | Some l \<Rightarrow> no_quotes l)"

text \<open>Siblings are sorted by path.\<close>

fun media_ok :: "media list \<Rightarrow> bool" where
  "media_ok [] = True"
| "media_ok (Media q i cs # ms) \<longleftrightarrow>
     info_ok i \<and> media_ok cs \<and> media_ok ms \<and> (\<forall>m \<in> set ms. q \<le> m_path m)"

definition daemon_ok :: "daemon \<Rightarrow> bool" where
  "daemon_ok d \<longleftrightarrow> media_ok (removable_media_root d) \<and> distinct (map clientfd (clients d)) \<and>
     clients_count d = length (clients d)"

lemma set_insert_media [simp]: "set (insert_media m ms) = insert m (set ms)"
  by (induction ms) auto

lemma media_ok_insert: "media_ok [m] \<Longrightarrow> media_ok ms \<Longrightarrow> media_ok (insert_media m ms)"
proof (induction ms)
  case (Cons n ns)
  show ?case
  proof (cases "strcmp (m_path m) (m_path n) < 0")
    case True
    then have "m_path m < m_path n" by (simp add: strcmp_less_0)
    with True Cons.prems show ?thesis by (cases m; cases n) (auto intro: less_imp_le order.trans)
  next
    case False
    then have "m_path n \<le> m_path m" by (simp add: strcmp_less_0)
    with False Cons show ?thesis by (cases m; cases n) auto
  qed
qed simp

lemma media_ok_edit:
  assumes "media_ok ms" and "find_at par p ms = Some (pp, m)"
    and "media_ok [m] \<Longrightarrow> media_ok (f m)" and "length (f m) \<le> 1" and "\<forall>x \<in> set (f m). m_path x = p"
  shows "media_ok (edit_media p f ms) \<and> m_path ` set (edit_media p f ms) \<subseteq> m_path ` set ms"
  using assms
proof (induction par p ms rule: find_at.induct)
  case (2 par p q i cs ms)
  consider "p = q" | "p \<noteq> q" "find_at (Some q) p cs \<noteq> None" | "p \<noteq> q" "find_at (Some q) p cs = None"
    by blast
  then show ?case
  proof cases
    case 1
    with 2 have m: "m = Media q i cs" by auto
    with 2 have ok: "media_ok (f m)" by simp
    from 2(6) consider "f m = []" | x where "f m = [x]"
      by (metis One_nat_def Suc_length_conv le_Suc_eq le_zero_eq length_0_conv)
    then show ?thesis
    proof cases
      case a: 2
      obtain q' i' cs' where x: "x = Media q' i' cs'" by (cases x)
      with a 2(7) 1 have "q' = q" by simp
      with 1 2 a x ok m show ?thesis by auto
    qed (use 1 2 m in auto)
  next
    case n: 2
    with 2 have "find_at (Some q) p cs = Some (pp, m)" by auto
    with 2 n show ?thesis by auto
  next
    case n: 3
    with 2 have "find_at par p ms = Some (pp, m)" by auto
    with 2 n have ih: "media_ok (edit_media p f ms)"
      "m_path ` set (edit_media p f ms) \<subseteq> m_path ` set ms" by auto
    then have "\<forall>x \<in> set (edit_media p f ms). q \<le> m_path x"
      using 2(3) by (auto simp: subset_iff image_iff)
    with ih 2 n show ?thesis by auto
  qed
qed simp

lemma media_ok_nodes: "media_ok ms \<Longrightarrow> n \<in> set (nodes par ms) \<Longrightarrow> info_ok (snd (snd n))"
  by (induction par ms rule: nodes.induct) auto


section \<open>The operations keep the invariant\<close>

lemma decode_opt_chars: "decode_opt lab w = (Some (Some l), w') \<Longrightarrow> no_quotes l"
  using decoded_no_quotes
  by (auto simp: decode_opt_def decode_label_def split: option.splits label_result.splits prod.splits if_splits)

lemma construct_media_ok: "construct_media a s w = (Some i, w') \<Longrightarrow> info_ok i"
  using decode_opt_chars by (fastforce simp: construct_media_def info_ok_def split: prod.splits option.splits if_splits)

lemma media_ok_leaf: "info_ok i \<Longrightarrow> media_ok [Media q i []]"
  by simp

lemma media_ok_insert_child: "media_ok [m] \<Longrightarrow> info_ok i \<Longrightarrow> media_ok (insert_child (Media q i []) m)"
  using media_ok_insert [OF media_ok_leaf] by (cases m) (simp add: insert_child_def)

lemma find_media_None: "dtmd_find_media p ms = None \<longleftrightarrow> find_at None p ms = None"
  by (simp add: dtmd_find_media_def)

lemma add_media_ok [inv_intros]: "daemon_ok d \<Longrightarrow> daemon_ok (snd (add_media a s d))"
proof -
  assume ok: "daemon_ok d"
  let ?root = "removable_media_root d"
  show ?thesis
  proof (cases "fst (construct_media a s (world d))")
    case None
    with ok show ?thesis by (auto simp: add_media_def Let_def daemon_ok_def split: prod.split)
  next
    case (Some i)
    then obtain w' where c: "construct_media a s (world d) = (Some i, w')" by (metis prod.collapse)
    note i = construct_media_ok [OF c]
    have m: "media_ok ?root" using ok by (simp add: daemon_ok_def)
    have "media_ok (insert_media (Media (d_path a) i []) ?root)"
      using media_ok_insert [OF media_ok_leaf [OF i] m] .
    moreover have "media_ok (edit_media (d_parent a) (insert_child (Media (d_path a) i [])) ?root)"
      if "find_at None (d_parent a) ?root = Some (pp, n)" for pp n
      using media_ok_edit [OF m that, of "insert_child (Media (d_path a) i [])"] i find_at_Some [OF that]
        media_ok_insert_child
      by (auto simp: insert_child_def)
    ultimately show ?thesis using ok c
      by (auto simp: add_media_def Let_def daemon_ok_def find_media_None)
  qed
qed

lemma remove_media_ok [inv_intros]: "daemon_ok d \<Longrightarrow> daemon_ok (snd (remove_media p d))"
proof (cases "find_at None p (removable_media_root d)")
  case (Some r)
  then obtain pp m where "find_at None p (removable_media_root d) = Some (pp, m)" by (cases r) auto
  moreover assume "daemon_ok d"
  ultimately show ?thesis
    using media_ok_edit [of "removable_media_root d" None p pp m "\<lambda>_. []"]
    by (auto simp: remove_media_def daemon_ok_def split: option.split)
qed (simp add: remove_media_def dtmd_find_media_def)

lemma remove_all_media_ok [inv_intros]: "daemon_ok d \<Longrightarrow> daemon_ok (remove_all_media d)"
  by (simp add: daemon_ok_def remove_all_media_def)

lemma update_label_ok:
  assumes "update_label old new w = (ok, l, w')"
    and "\<forall>t. old = Some t \<longrightarrow> no_quotes t"
  shows "\<forall>t. l = Some t \<longrightarrow> no_quotes t"
  using assms decode_opt_chars
  by (fastforce simp: update_label_def split: option.splits prod.splits if_splits)

lemma update_mnt_point_ok:
  "update_mnt_point cl path a i w = (ok, i', w') \<Longrightarrow> info_ok i \<Longrightarrow> info_ok i'"
  by (auto simp: update_mnt_point_def info_ok_def split: option.splits prod.splits if_splits)

lemma info_ok_simps [simp]:
  "info_ok (i\<lparr>md_state := x\<rparr>) = info_ok i" "info_ok (i\<lparr>md_fstype := f\<rparr>) = info_ok i"
  "info_ok (i\<lparr>md_mnt_opts := f\<rparr>) = info_ok i"
  by (simp_all add: info_ok_def)

lemma info_ok_label:
  "info_ok i \<Longrightarrow> \<forall>t. l = Some t \<longrightarrow> no_quotes t \<Longrightarrow> info_ok (i\<lparr>md_label := l\<rparr>)"
  by (simp add: info_ok_def split: option.split)

lemma change_info_steps:
  assumes "\<not> nothing_changed a i"
    and "update_string (md_fstype (i\<lparr>md_state := d_state a\<rparr>)) (d_fstype a) w = (ok1, f, w1)"
    and "i1 = i\<lparr>md_state := d_state a, md_fstype := f\<rparr>"
    and "update_label (md_label i1) (d_label a) w1 = (ok2, l, w2)" and "i2 = i1\<lparr>md_label := l\<rparr>"
    and "update_mnt_point cl path a i2 w2 = (ok3, i3, w3)"
    and "update_string (md_mnt_opts i3) (d_mnt_opts a) w3 = (ok4, opts, w4)"
    and "i4 = i3\<lparr>md_mnt_opts := opts\<rparr>"
  shows "change_info cl path a i w =
    (if \<not> ok1 then (ResultFatalError, i1, w1) else if \<not> ok2 then (ResultFatalError, i2, w2)
     else if \<not> ok3 then (ResultFatalError, i3, w3) else if \<not> ok4 then (ResultFatalError, i4, w4)
     else (ResultSuccess, i4, notify_removable_device_changed (a\<lparr>d_label := md_label i4\<rparr>) cl w4))"
proof -
  have i1: "(i\<lparr>md_state := d_state a\<rparr>)\<lparr>md_fstype := f\<rparr> = i1" using assms(3) by simp
  show ?thesis
    unfolding change_info_def Let_def
    by (simp only: assms(1) assms(2) i1 assms(4) assms(5) [symmetric] assms(6,7) assms(8) [symmetric]
          if_False prod.case)
qed

lemma change_info_ok:
  assumes "change_info cl path a i w = (r, i', w')" and i: "info_ok i"
  shows "info_ok i'"
proof (cases "nothing_changed a i")
  case False
  obtain ok1 f w1 where 1: "update_string (md_fstype (i\<lparr>md_state := d_state a\<rparr>)) (d_fstype a) w = (ok1, f, w1)"
    by (metis prod_cases3)
  define i1 where "i1 = i\<lparr>md_state := d_state a, md_fstype := f\<rparr>"
  obtain ok2 l w2 where 2: "update_label (md_label i1) (d_label a) w1 = (ok2, l, w2)"
    by (metis prod_cases3)
  define i2 where "i2 = i1\<lparr>md_label := l\<rparr>"
  obtain ok3 i3 w3 where 3: "update_mnt_point cl path a i2 w2 = (ok3, i3, w3)"
    by (metis prod_cases3)
  obtain ok4 opts w4 where 4: "update_string (md_mnt_opts i3) (d_mnt_opts a) w3 = (ok4, opts, w4)"
    by (metis prod_cases3)
  have i1: "info_ok i1" using i by (simp add: i1_def)
  have "\<forall>t. md_label i1 = Some t \<longrightarrow> no_quotes t" using i1 by (simp add: info_ok_def split: option.splits)
  from info_ok_label [OF i1 update_label_ok [OF 2 this]] have i2: "info_ok i2" by (simp only: i2_def)
  have i3: "info_ok i3" by (rule update_mnt_point_ok [OF 3 i2])
  have i4: "info_ok (i3\<lparr>md_mnt_opts := opts\<rparr>)" using i3 by simp
  note steps = change_info_steps [OF False 1 i1_def 2 i2_def 3 4 refl]
  have "info_ok (fst (snd (change_info cl path a i w)))"
    unfolding steps using i1 i2 i3 i4 by (simp only: fst_conv snd_conv split: if_split) simp
  with assms(1) show ?thesis by simp
qed (use assms in \<open>simp add: change_info_def\<close>)

lemma change_media_ok [inv_intros]: "daemon_ok d \<Longrightarrow> daemon_ok (snd (change_media a s d))"
proof -
  assume ok: "daemon_ok d"
  show ?thesis
  proof (cases "find_at None (d_path a) (removable_media_root d)")
    case (Some pm)
    then obtain pp m where f: "find_at None (d_path a) (removable_media_root d) = Some (pp, m)"
      by (cases pm) auto
    have "media_ok (edit_media (d_path a) (set_info i) (removable_media_root d))" if "info_ok i" for i
      using media_ok_edit [OF _ f, of "set_info i"] ok that find_at_Some [OF f]
      by (cases m) (auto simp: set_info_def daemon_ok_def)
    moreover have "info_ok (m_info m)"
      using media_ok_nodes [of "removable_media_root d"] find_at_Some [OF f] ok
      by (force simp: daemon_ok_def)
    ultimately show ?thesis
      using ok f change_info_ok by (auto simp: change_media_def daemon_ok_def Let_def split: prod.split)
  qed (use ok in \<open>simp add: change_media_def\<close>)
qed

lemma add_client_ok [inv_intros]: "daemon_ok d \<Longrightarrow> daemon_ok (snd (add_client fd d))"
  by (auto simp: add_client_def daemon_ok_def list_ex_iff split: prod.splits)

lemma unlink_client_filter:
  "distinct (map clientfd cs) \<Longrightarrow> unlink_client fd cs = filter (\<lambda>c. clientfd c \<noteq> fd) cs"
proof (induction cs)
  case (Cons c cs)
  then have "clientfd c = fd \<Longrightarrow> filter (\<lambda>c. clientfd c \<noteq> fd) cs = cs"
    by (auto simp: filter_id_conv image_iff)
  with Cons show ?case by auto
qed simp

lemma length_unlink: "list_ex (\<lambda>c. clientfd c = fd) cs \<Longrightarrow> Suc (length (unlink_client fd cs)) = length cs"
  by (induction cs) auto

lemma remove_client_ok [inv_intros]: "daemon_ok d \<Longrightarrow> daemon_ok (snd (remove_client fd d))"
  using length_unlink [of fd "clients d"]
  by (auto simp: remove_client_def daemon_ok_def unlink_client_filter distinct_map_filter)

lemma remove_all_clients_ok [inv_intros]: "daemon_ok d \<Longrightarrow> daemon_ok (remove_all_clients d)"
  by (simp add: remove_all_clients_def daemon_ok_def)


section \<open>Messages sent\<close>

definition to_all :: "client list \<Rightarrow> string \<Rightarrow> (int \<times> string) list" where
  "to_all cl s = map (\<lambda>c. (clientfd c, s)) cl"

lemma notify_each_print:
  "writes w = [] \<Longrightarrow>
   notify_each (\<lambda>fd w. snd (dprintf fd s w)) cl w = w\<lparr>sent := sent w @ to_all cl s\<rparr>"
  by (induction cl arbitrary: w) (simp_all add: to_all_def io_simps)

definition message_of :: "string \<Rightarrow> device_desc \<Rightarrow> string list" where
  "message_of action a = (case device_args a of
     None \<Rightarrow> [] | Some args \<Rightarrow> [message action (map print_arg args)])"

lemma notify_each_common:
  "writes w = [] \<Longrightarrow>
   notify_each (\<lambda>fd w. snd (print_removable_device_common action fd a w)) cl w =
     w\<lparr>sent := sent w @ concat (map (to_all cl) (message_of action a))\<rparr>"
proof (cases "device_args a")
  case None
  have "notify_each (\<lambda>fd w. w) cl w = w" by (induction cl) auto
  with None show ?thesis by (simp add: print_removable_device_common_def message_of_def)
next
  case (Some args)
  have "(\<lambda>fd w. snd (print_removable_device_common action fd a w)) =
    (\<lambda>fd w. snd (dprintf fd (message action (map print_arg args)) w))"
    using Some by (intro ext) (simp add: print_removable_device_common_def split: prod.split)
  moreover assume "writes w = []"
  ultimately show ?thesis using Some by (simp add: notify_each_print message_of_def)
qed

lemmas notify_defs = notify_removable_device_added_def notify_removable_device_changed_def
  notify_removable_device_removed_def notify_removable_device_mounted_def
  notify_removable_device_unmounted_def

lemma decode_opt_sent: "decode_opt l w = (x, w') \<Longrightarrow> sent w' = sent w \<and> writes w' = writes w"
  by (auto simp: decode_opt_def decode_label_def undefined_behaviour_def split: option.splits prod.splits
      label_result.splits if_splits dest!: malloc_sent)

lemma construct_media_sent:
  "construct_media a s w = (x, w') \<Longrightarrow> sent w' = sent w \<and> writes w' = writes w"
  by (auto simp: construct_media_def simp del: malloc_all.simps split: option.splits prod.splits if_splits
      dest!: malloc_all_sent decode_opt_sent)

text \<open>What \<open>construct_media\<close> builds.\<close>

definition label_stored :: "string option \<Rightarrow> string option \<Rightarrow> bool" where
  "label_stored given st = (case given of
     None \<Rightarrow> st = None | Some e \<Rightarrow> (\<exists>l. st = Some l \<and> decode_loop e = Decoded l))"

definition built_from :: "device_desc \<Rightarrow> string option \<Rightarrow> media_info \<Rightarrow> bool" where
  "built_from a s i \<longleftrightarrow> md_type i = d_type a \<and> md_subtype i = d_subtype a \<and> md_state i = d_state a \<and>
     md_fstype i = d_fstype a \<and> label_stored (d_label a) (md_label i) \<and>
     md_mnt_point i = d_mnt_point a \<and> md_mnt_opts i = d_mnt_opts a \<and> md_sysfs_path i = s"

lemma construct_media_built: "construct_media a s w = (Some i, w') \<Longrightarrow> built_from a s i"
  by (auto simp: construct_media_def built_from_def label_stored_def decode_opt_def decode_label_def
      simp del: malloc_all.simps split: option.splits prod.splits if_splits label_result.splits)

section \<open>Removal\<close>

text \<open>The order in which the devices of a subtree are given up: children first.\<close>

fun postorder :: "string option \<Rightarrow> media list \<Rightarrow> node list" where
  "postorder par [] = []"
| "postorder par (Media q i cs # ms) = postorder (Some q) cs @ (par, q, i) # postorder par ms"

lemma mset_postorder: "mset (postorder par ms) = mset (nodes par ms)"
  by (induction par ms rule: postorder.induct) auto

definition removal_messages :: "client list \<Rightarrow> node \<Rightarrow> (int \<times> string) list" where
  "removal_messages cl n = (case n of (par, q, i) \<Rightarrow>
     (case md_mnt_point i of None \<Rightarrow> []
      | Some mp \<Rightarrow> to_all cl (message ''removable_device_unmounted'' [print_plain q, print_plain mp])) @
     to_all cl (message ''removable_device_removed'' [print_plain q]))"

lemma remove_media_helpers_sent:
  "writes w = [] \<Longrightarrow> remove_media_helpers cl ms w =
     w\<lparr>sent := sent w @ concat (map (removal_messages cl) (postorder par ms))\<rparr>"
proof (induction cl ms w arbitrary: par rule: remove_media_helpers.induct)
  case (2 cl q i cs ms w)
  show ?case
  proof (cases "md_mnt_point i")
    case None
    with 2 "2.IH"(1) [where par = "Some q"] show ?thesis
      by (simp add: notify_defs notify_each_print removal_messages_def)
  next
    case (Some mp)
    with 2 "2.IH"(1) [where par = "Some q"] show ?thesis
      by (simp add: notify_defs notify_each_print removal_messages_def)
  qed
qed simp

section \<open>Changing a device\<close>

lemma update_string_result: "update_string old new w = (True, v, w') \<Longrightarrow> v = new"
  by (auto simp: update_string_def Let_def split: option.splits prod.splits if_splits)

lemma compare_success_decodes: "compare_labels l e = Some ResultSuccess \<Longrightarrow> decode_loop e = Decoded l"
  by (simp add: compare_labels_Success)

lemma decode_opt_stored: "decode_opt (Some e) w = (Some l, w') \<Longrightarrow> label_stored (Some e) l"
  by (auto simp: decode_opt_def decode_label_def label_stored_def
      split: label_result.splits prod.splits if_splits)

lemma update_label_result:
  assumes "update_label old new w = (True, l, w')"
  shows "label_stored new l"
proof (cases new)
  case None
  with assms show ?thesis by (auto simp: update_label_def label_stored_def split: option.splits)
next
  case (Some e)
  show ?thesis
  proof (cases "\<exists>t. old = Some t \<and> compare_labels t e = Some ResultSuccess")
    case True
    with assms Some compare_success_decodes show ?thesis
      by (auto simp: update_label_def label_stored_def)
  next
    case False
    with assms Some have "\<exists>w1. decode_opt (Some e) w1 = (Some l, w')"
      by (auto simp: update_label_def split: option.splits prod.splits if_splits)
    with decode_opt_stored Some show ?thesis by blast
  qed
qed

lemma update_mnt_point_result:
  "update_mnt_point cl path a i w = (ok, i', w') \<Longrightarrow>
   \<exists>mp n. i' = i\<lparr>md_mnt_point := mp, md_mount_counter := n\<rparr> \<and> (ok \<longrightarrow> mp = d_mnt_point a)"
proof (cases i)
  case (fields t u v f l mp os sp n)
  assume "update_mnt_point cl path a i w = (ok, i', w')"
  with fields show ?thesis
    by (cases mp; cases "d_mnt_point a")
      (auto simp: update_mnt_point_def same_string_def Let_def split: prod.splits if_splits)
qed

lemma change_info_result:
  assumes "change_info cl path a i w = (r, i', w')"
  shows "md_type i' = md_type i \<and> md_subtype i' = md_subtype i \<and> md_sysfs_path i' = md_sysfs_path i \<and>
    (r = ResultFail \<and> i' = i \<and> nothing_changed a i \<or>
     r = ResultFatalError \<and> \<not> nothing_changed a i \<or>
     r = ResultSuccess \<and> \<not> nothing_changed a i \<and>
       built_from (a\<lparr>d_type := md_type i, d_subtype := md_subtype i\<rparr>) (md_sysfs_path i) i')"
proof (cases "nothing_changed a i")
  case False
  obtain ok1 f w1 where 1: "update_string (md_fstype (i\<lparr>md_state := d_state a\<rparr>)) (d_fstype a) w = (ok1, f, w1)"
    by (metis prod_cases3)
  define i1 where "i1 = i\<lparr>md_state := d_state a, md_fstype := f\<rparr>"
  obtain ok2 l w2 where 2: "update_label (md_label i1) (d_label a) w1 = (ok2, l, w2)"
    by (metis prod_cases3)
  define i2 where "i2 = i1\<lparr>md_label := l\<rparr>"
  obtain ok3 i3 w3 where 3: "update_mnt_point cl path a i2 w2 = (ok3, i3, w3)"
    by (metis prod_cases3)
  obtain ok4 opts w4 where 4: "update_string (md_mnt_opts i3) (d_mnt_opts a) w3 = (ok4, opts, w4)"
    by (metis prod_cases3)
  note steps = change_info_steps [OF False 1 i1_def 2 i2_def 3 4 refl]
  obtain mp n where i3: "i3 = i2\<lparr>md_mnt_point := mp, md_mount_counter := n\<rparr>" "ok3 \<longrightarrow> mp = d_mnt_point a"
    using update_mnt_point_result [OF 3] by blast
  define i4 where "i4 = i3\<lparr>md_mnt_opts := opts\<rparr>"
  have keep: "md_type x = md_type i \<and> md_subtype x = md_subtype i \<and> md_sysfs_path x = md_sysfs_path i"
    if "x \<in> {i1, i2, i3, i4}" for x
    using that i3(1) by (auto simp: i1_def i2_def i4_def)
  have built: "built_from (a\<lparr>d_type := md_type i, d_subtype := md_subtype i\<rparr>) (md_sysfs_path i) i4"
    if "ok1" "ok2" "ok3" "ok4"
    using that update_string_result [of _ _ _ f] update_label_result [of _ _ _ l]
      update_string_result [of _ _ _ opts] 1 2 4 i3
    by (simp add: built_from_def i1_def i2_def i4_def)
  consider "r = ResultFatalError" "i' \<in> {i1, i2, i3, i4}" | "r = ResultSuccess" "i' = i4" "ok1" "ok2" "ok3" "ok4"
    using assms unfolding steps i4_def [symmetric] by (simp split: if_splits)
  then show ?thesis
  proof cases
    case 1
    with keep [OF 1(2)] False show ?thesis by simp
  next
    case 2
    with keep [of i4] built False show ?thesis by simp
  qed
qed (use assms in \<open>auto simp: change_info_def\<close>)

lemma find_at_edit:
  assumes "find_at par p ms = Some (pp, m)" and "f m = [n]" and "m_path n = p"
  shows "find_at par p (edit_media p f ms) = Some (pp, n)"
  using assms
proof (induction par p ms rule: find_at.induct)
  case (2 par p q i cs ms)
  then show ?case by (cases n) (auto split: option.splits if_splits)
qed simp

lemma nothing_changed_built:
  assumes "built_from (a\<lparr>d_type := t, d_subtype := u\<rparr>) s i"
  shows "nothing_changed a i \<longleftrightarrow>
    t = d_type a \<and> u = d_subtype a \<and> (\<forall>e. d_label a = Some e \<longrightarrow> low_escapes e)"
proof -
  have "same_string x x" for x by (cases x) (simp_all add: same_string_def)
  moreover have "same_label (md_label i) (d_label a) \<longleftrightarrow> (\<forall>e. d_label a = Some e \<longrightarrow> low_escapes e)"
  proof (cases "d_label a")
    case (Some e)
    with assms obtain l where l: "md_label i = Some l" "decode_loop e = Decoded l"
      by (auto simp: built_from_def label_stored_def)
    with Some compare_labels_defined [OF l(2), of l] compare_labels_Success [of l e]
    show ?thesis by (auto simp: same_label_def)
  qed (use assms in \<open>auto simp: built_from_def label_stored_def same_label_def\<close>)
  ultimately show ?thesis
    using assms by (auto simp: nothing_changed_def built_from_def)
qed

text \<open>What adding a device needs: its parent, memory for each of its strings, and a well-formed label.\<close>

definition parent_known :: "device_desc \<Rightarrow> daemon \<Rightarrow> bool" where
  "parent_known a d \<longleftrightarrow> d_parent a = ''/'' \<or> dtmd_find_media (d_parent a) (removable_media_root d) \<noteq> None"

definition allocations_needed :: "device_desc \<Rightarrow> string option \<Rightarrow> nat" where
  "allocations_needed a s = count_list [True, True, d_fstype a \<noteq> None, d_label a \<noteq> None, d_mnt_point a \<noteq> None,
     d_mnt_opts a \<noteq> None, s \<noteq> None] True"

definition well_formed_label :: "string \<Rightarrow> bool" where
  "well_formed_label e \<longleftrightarrow> (case decode_loop e of Decoded l \<Rightarrow> True | LabelNull \<Rightarrow> False | LabelUndefined \<Rightarrow> False)"

definition can_construct :: "device_desc \<Rightarrow> string option \<Rightarrow> io \<Rightarrow> bool" where
  "can_construct a s w \<longleftrightarrow> list_all id (take (allocations_needed a s) (allocs w)) \<and>
     (case d_label a of None \<Rightarrow> True | Some e \<Rightarrow> well_formed_label e)"

lemma malloc_all_count:
  "case malloc_all cs w of (ok, w') \<Rightarrow> (ok \<longleftrightarrow> list_all id (take (count_list cs True) (allocs w))) \<and>
     (ok \<longrightarrow> allocs w' = drop (count_list cs True) (allocs w))"
proof (induction cs w rule: malloc_all.induct)
  case (3 cs w)
  then show ?case by (cases "allocs w") (auto simp: malloc_def split: prod.splits)
qed auto

lemma decode_opt_count:
  "case decode_opt lab w of (l, w') \<Rightarrow>
     (l \<noteq> None \<longleftrightarrow> list_all id (take (count_list [lab \<noteq> None] True) (allocs w)) \<and>
        (case lab of None \<Rightarrow> True | Some e \<Rightarrow> well_formed_label e)) \<and>
     (l \<noteq> None \<longrightarrow> allocs w' = drop (count_list [lab \<noteq> None] True) (allocs w))"
proof (cases lab)
  case (Some e)
  then show ?thesis
    by (cases "allocs w"; cases "decode_loop e")
      (auto simp: decode_opt_def decode_label_def malloc_def undefined_behaviour_def well_formed_label_def)
qed (simp add: decode_opt_def)

lemma take_add_all: "list_all id (take (m + n) xs) \<longleftrightarrow> list_all id (take m xs) \<and> list_all id (take n (drop m xs))"
  by (simp add: take_add)

lemma construct_media_can: "fst (construct_media a s w) \<noteq> None \<longleftrightarrow> can_construct a s w"
proof -
  let ?c1 = "[True, True, d_fstype a \<noteq> None]" and ?c3 = "[d_mnt_point a \<noteq> None, d_mnt_opts a \<noteq> None, s \<noteq> None]"
  obtain ok w1 where 1: "malloc_all ?c1 w = (ok, w1)" by fastforce
  obtain l w2 where 2: "decode_opt (d_label a) w1 = (l, w2)" by fastforce
  obtain ok3 w3 where 3: "malloc_all ?c3 w2 = (ok3, w3)" by fastforce
  have "allocations_needed a s = count_list ?c1 True + (count_list [d_label a \<noteq> None] True + count_list ?c3 True)"
    by (simp add: allocations_needed_def)
  moreover have "fst (construct_media a s w) \<noteq> None \<longleftrightarrow> ok \<and> l \<noteq> None \<and> ok3"
    unfolding construct_media_def 1 prod.case 2 3 by (auto split: option.split)
  ultimately show ?thesis
    using malloc_all_count [of ?c1 w] decode_opt_count [of "d_label a" w1] malloc_all_count [of ?c3 w2]
    unfolding 1 2 3 can_construct_def prod.case by (simp only: take_add_all) (metis drop_drop)
qed

lemma add_media_nodes:
  "case add_media a s d of (r, d') \<Rightarrow>
     clients d' = clients d \<and> clients_count d' = clients_count d \<and>
     (r = ResultFail \<longleftrightarrow> \<not> parent_known a d) \<and>
     (r = ResultFatalError \<longleftrightarrow> parent_known a d \<and> \<not> can_construct a s (world d)) \<and>
     (if parent_known a d \<and> can_construct a s (world d)
      then r = ResultSuccess \<and> (\<exists>i. built_from a s i \<and> mset (nodes None (removable_media_root d')) =
           add_mset (if d_parent a = ''/'' then None else Some (d_parent a), d_path a, i)
             (mset (nodes None (removable_media_root d))))
      else removable_media_root d' = removable_media_root d \<and> sent (world d') = sent (world d)) \<and>
     (r = ResultFail \<longrightarrow> d' = d)"
proof (cases "parent_known a d")
  case False
  then show ?thesis by (simp add: add_media_def dtmd_root_device_path_def parent_known_def)
next
  case True
  let ?root = "removable_media_root d"
  obtain x w' where c: "construct_media a s (world d) = (x, w')" by fastforce
  then have can: "can_construct a s (world d) \<longleftrightarrow> x \<noteq> None" using construct_media_can [of a s "world d"] by simp
  have known: "\<not> (strcmp (d_parent a) dtmd_root_device_path \<noteq> 0 \<and> dtmd_find_media (d_parent a) ?root = None)"
    using True by (auto simp: parent_known_def dtmd_root_device_path_def)
  show ?thesis
  proof (cases x)
    case None
    with c known can True construct_media_sent [OF c] show ?thesis
      by (auto simp: add_media_def Let_def dtmd_root_device_path_def)
  next
    case (Some i)
    define m where "m = Media (d_path a) i []"
    have child: "mset (nodes None (edit_media (d_parent a) (insert_child m) ?root)) =
        add_mset (Some (d_parent a), d_path a, i) (mset (nodes None ?root))"
      if f: "find_at None (d_parent a) ?root = Some (pp, n)" for pp n
      using nodes_edit [OF f] find_at_Some [OF f]
      by (auto simp: nodes_insert_child m_def)
    have "mset (nodes None (insert_media m ?root)) = add_mset (None, d_path a, i) (mset (nodes None ?root))"
      by (simp add: nodes_insert m_def)
    with child c Some known can True construct_media_built [of a s "world d" i w'] show ?thesis
      by (auto simp: add_media_def Let_def dtmd_root_device_path_def dtmd_find_media_def m_def)
  qed
qed

lemma add_media_added:
  assumes "add_media a s d = (ResultSuccess, d')"
  obtains i where "built_from a s i" "mset (nodes None (removable_media_root d')) =
      add_mset (if d_parent a = ''/'' then None else Some (d_parent a), d_path a, i) (mset (nodes None (removable_media_root d)))"
  using add_media_nodes [where a = a and s = s and d = d] assms that
  by (cases "parent_known a d \<and> can_construct a s (world d)") auto

section \<open>Properties\<close>

text \<open>C12. Adding a device: it fails, without any effect, exactly when the parent is unknown; it is a fatal
  error exactly when the parent is known and one of the allocations fails or the label is
  malformed, and then the tree is unchanged and nothing is announced; otherwise it succeeds and
  the tree has exactly one node more, under the given parent, with the given fields and the
  decoded label.\<close>

theorem add_media_effect:
  "case add_media a s d of (r, d') \<Rightarrow>
     clients d' = clients d \<and> clients_count d' = clients_count d \<and>
     (r = ResultFail \<longleftrightarrow> \<not> parent_known a d) \<and>
     (r = ResultFatalError \<longleftrightarrow> parent_known a d \<and> \<not> can_construct a s (world d)) \<and>
     (if parent_known a d \<and> can_construct a s (world d)
      then r = ResultSuccess \<and> (\<exists>i. built_from a s i \<and> mset (nodes None (removable_media_root d')) =
           add_mset (if d_parent a = ''/'' then None else Some (d_parent a), d_path a, i)
             (mset (nodes None (removable_media_root d))))
      else removable_media_root d' = removable_media_root d \<and> sent (world d') = sent (world d)) \<and>
     (r = ResultFail \<longrightarrow> d' = d)"
  by (rule add_media_nodes)

text \<open>C10. Removing a device removes exactly the devices of its subtree, and every client is told of
  each of them once, children before parents, a mounted one first as unmounted.\<close>

theorem remove_media_effect:
  assumes "find_at None p (removable_media_root d) = Some (pp, m)" and "writes (world d) = []"
  shows "\<exists>xs ys d'. remove_media p d = (ResultSuccess, d') \<and>
    nodes None (removable_media_root d) = xs @ nodes pp [m] @ ys \<and>
    nodes None (removable_media_root d') = xs @ ys \<and>
    sent (world d') = sent (world d) @ concat (map (removal_messages (clients d)) (postorder pp [m])) \<and>
    mset (postorder pp [m]) = mset (nodes pp [m])"
proof -
  obtain xs ys where "nodes None (removable_media_root d) = xs @ nodes pp [m] @ ys"
    "\<forall>f. nodes None (edit_media p f (removable_media_root d)) = xs @ nodes pp (f m) @ ys"
    using nodes_edit [OF assms(1)] by blast
  moreover have "remove_media_helper (clients d) m (world d) = (world d)\<lparr>sent := sent (world d) @
      concat (map (removal_messages (clients d)) (postorder pp [m]))\<rparr>"
    unfolding remove_media_helper_def by (rule remove_media_helpers_sent [OF assms(2)])
  ultimately show ?thesis
    using assms(1) by (simp add: remove_media_def dtmd_find_media_def mset_postorder) blast
qed


text \<open>C11. A change event never moves, adds or removes a device, and touches only the first device
  with its path: on success the state, filesystem, label and mount fields are the event's,
  but the type and subtype stay what they were when the device was added.\<close>

theorem change_media_effect:
  assumes "find_at None (d_path a) (removable_media_root d) = Some (pp, m)"
    and "change_media a s d = (r, d')"
  shows "\<exists>xs ys i'. nodes None (removable_media_root d) =
      xs @ (pp, d_path a, m_info m) # nodes (Some (d_path a)) (m_children m) @ ys \<and>
    nodes None (removable_media_root d') =
      xs @ (pp, d_path a, i') # nodes (Some (d_path a)) (m_children m) @ ys \<and>
    (r = ResultSuccess \<longrightarrow> built_from
       (a\<lparr>d_type := md_type (m_info m), d_subtype := md_subtype (m_info m)\<rparr>) s i') \<and>
    (r = ResultFail \<or> r = ResultBug \<longrightarrow> i' = m_info m)"
proof -
  let ?root = "removable_media_root d" and ?p = "d_path a"
  obtain xs ys where n: "nodes None ?root = xs @ nodes pp [m] @ ys"
    "\<forall>f. nodes None (edit_media ?p f ?root) = xs @ nodes pp (f m) @ ys"
    using nodes_edit [OF assms(1)] by blast
  have m: "m_path m = ?p" using find_at_Some [OF assms(1)] by simp
  then have nm: "nodes pp [m] = (pp, ?p, m_info m) # nodes (Some ?p) (m_children m)" by (cases m) simp
  have set: "nodes pp (set_info i m) = (pp, ?p, i) # nodes (Some ?p) (m_children m)" for i
    using m by (simp add: set_info_def)
  have ss: "same_string x y \<longleftrightarrow> x = y" for x y
    by (cases x; cases y) (simp_all add: same_string_def)
  obtain r1 i1 w1 where ch: "change_info (clients d) (m_path m) a (m_info m)
      (if label_compared_undefined a (m_info m) then undefined_behaviour (world d) else world d)
      = (r1, i1, w1)" by (metis prod_cases3)
  from assms ch have "r = ResultBug \<and> d' = d \<or> r = r1 \<and> s = md_sysfs_path (m_info m) \<and>
      removable_media_root d' = edit_media ?p (set_info i1) ?root"
    by (simp add: change_media_def ss split: if_splits) auto
  then show ?thesis
  proof
    assume "r = ResultBug \<and> d' = d"
    with n nm show ?thesis by auto
  next
    assume a: "r = r1 \<and> s = md_sysfs_path (m_info m) \<and>
      removable_media_root d' = edit_media ?p (set_info i1) ?root"
    with change_info_result [OF ch] n nm set
    have "nodes None ?root = xs @ (pp, ?p, m_info m) # nodes (Some ?p) (m_children m) @ ys \<and>
      nodes None (removable_media_root d') = xs @ (pp, ?p, i1) # nodes (Some ?p) (m_children m) @ ys \<and>
      (r = ResultSuccess \<longrightarrow> built_from
       (a\<lparr>d_type := md_type (m_info m), d_subtype := md_subtype (m_info m)\<rparr>) s i1) \<and>
      (r = ResultFail \<or> r = ResultBug \<longrightarrow> i1 = m_info m)" by auto
    then show ?thesis by blast
  qed
qed

text \<open>After a successful change, the same event again is recognised as no change, and
  announced to nobody, exactly when the device had the event's type and subtype from the
  start and the label has no numeric escape for a byte of 128 or more; otherwise every
  repetition is announced as a change again.\<close>

lemma change_media_repeated:
  assumes "find_at None (d_path a) (removable_media_root d) = Some (pp, m)"
    and "change_media a s d = (ResultSuccess, d')"
  shows "fst (change_media a s d') = ResultFail \<longleftrightarrow>
    md_type (m_info m) = d_type a \<and> md_subtype (m_info m) = d_subtype a \<and>
    (\<forall>e. d_label a = Some e \<longrightarrow> low_escapes e)"
proof -
  let ?root = "removable_media_root d" and ?p = "d_path a"
  have ss: "same_string x y \<longleftrightarrow> x = y" for x y
    by (cases x; cases y) (simp_all add: same_string_def)
  have m: "m_path m = ?p" using find_at_Some [OF assms(1)] by simp
  obtain r1 i1 w1 where ch: "change_info (clients d) (m_path m) a (m_info m)
      (if label_compared_undefined a (m_info m) then undefined_behaviour (world d) else world d)
      = (r1, i1, w1)" by (metis prod_cases3)
  from assms ch have d': "r1 = ResultSuccess" "s = md_sysfs_path (m_info m)"
      "removable_media_root d' = edit_media ?p (set_info i1) ?root"
      "d_parent a = (case pp of None \<Rightarrow> dtmd_root_device_path | Some p \<Rightarrow> p)"
    by (simp_all add: change_media_def ss split: if_splits) auto
  note built = change_info_result [OF ch]
  have f': "find_at None ?p (removable_media_root d') = Some (pp, Media ?p i1 (m_children m))"
    unfolding d'(3) by (rule find_at_edit [OF assms(1)]) (simp_all add: set_info_def m)
  obtain r2 i2 w2 where ch2: "change_info (clients d') ?p a i1
      (if label_compared_undefined a i1 then undefined_behaviour (world d') else world d')
      = (r2, i2, w2)" by (metis prod_cases3)
  have "fst (change_media a s d') = r2"
    using f' ch2 d' built by (simp add: change_media_def ss)
  moreover have "r2 = ResultFail \<longleftrightarrow> nothing_changed a i1"
    using change_info_result [OF ch2] by auto
  moreover have "built_from (a\<lparr>d_type := md_type (m_info m), d_subtype := md_subtype (m_info m)\<rparr>) s i1"
    using built d' by simp
  ultimately show ?thesis using nothing_changed_built by simp
qed

text \<open>A client that was accepted and then removed leaves the clients as they were, and its
  descriptor, and no other, has been closed.\<close>

lemma add_remove_client:
  assumes "add_client fd d = (ResultSuccess, d')"
  shows "case remove_client fd d' of (r, d2) \<Rightarrow> r = ResultSuccess \<and> clients d2 = clients d \<and>
    clients_count d2 = clients_count d \<and> closed (world d2) = closed (world d) @ [fd]"
proof -
  have "\<not> list_ex (\<lambda>c. clientfd c = fd) cs \<Longrightarrow> unlink_client fd (cs @ [c]) = cs"
    if "clientfd c = fd" for c cs using that by (induction cs) auto
  moreover have "malloc w = (ok, w') \<Longrightarrow> closed w' = closed w" for w ok w'
    by (auto simp: malloc_def split: list.splits)
  ultimately show ?thesis
    using assms by (auto simp: add_client_def remove_client_def close_fd_def split: prod.splits if_splits)
qed


section \<open>Witnesses\<close>

text \<open>One client, a disk with one labelled partition.\<close>

definition disk_desc :: device_desc where
  "disk_desc = \<lparr>d_parent = ''/'', d_path = ''/dev/sdb'', d_type = media_type_stateless_device,
     d_subtype = media_subtype_removable_disk, d_state = media_state_unknown, d_fstype = None,
     d_label = None, d_mnt_point = None, d_mnt_opts = None\<rparr>"

definition part_desc :: device_desc where
  "part_desc = \<lparr>d_parent = ''/dev/sdb'', d_path = ''/dev/sdb1'', d_type = media_type_device_partition,
     d_subtype = media_subtype_removable_disk, d_state = media_state_ok, d_fstype = Some ''vfat'',
     d_label = Some ''a.b'', d_mnt_point = Some ''/media/a'', d_mnt_opts = Some ''rw''\<rparr>"

definition empty_daemon :: daemon where
  "empty_daemon = \<lparr>removable_media_root = [], clients = [], clients_count = 0, world = quiet_io\<rparr>"

definition disk_daemon :: daemon where
  "disk_daemon = snd (add_media part_desc None (snd (add_media disk_desc (Some ''/sys/b'')
     (snd (add_client 5 empty_daemon)))))"

definition disk_media :: media where
  "disk_media = hd (removable_media_root disk_daemon)"

definition part_media :: media where
  "part_media = hd (m_children disk_media)"

lemma disk_find:
  "find_at None ''/dev/sdb'' (removable_media_root disk_daemon) = Some (None, disk_media)"
  "find_at None (d_path part_desc) (removable_media_root disk_daemon) = Some (Some ''/dev/sdb'', part_media)"
  "writes (world disk_daemon) = []"
  by code_simp+

text \<open>The partition comes when its disk is there, with memory for four strings out of six, and with memory
  for all.\<close>

theorem add_media_effect_witness:
  "\<exists>d d'. fst (add_media part_desc None (d\<lparr>world := (world d)\<lparr>allocs := [True, True, True, True, True, False]\<rparr>\<rparr>)) = ResultFatalError \<and>
     add_media part_desc None d = (ResultSuccess, d') \<and> size (nodes None (removable_media_root d')) = 2"
proof -
  let ?d = "snd (add_media disk_desc (Some ''/sys/b'') (snd (add_client 5 empty_daemon)))"
  let ?e = "?d\<lparr>world := (world ?d)\<lparr>allocs := [True, True, True, True, True, False]\<rparr>\<rparr>"
  have known: "parent_known part_desc ?d" "parent_known part_desc ?e" and can: "can_construct part_desc None (world ?d)"
    and not: "\<not> can_construct part_desc None (world ?e)" and one: "size (nodes None (removable_media_root ?d)) = 1"
    by code_simp+
  obtain r d' where r: "add_media part_desc None ?d = (r, d')" by fastforce
  note ok = add_media_effect [where a = part_desc and s = None and d = ?d, unfolded r prod.case]
  then obtain n where "r = ResultSuccess" "mset (nodes None (removable_media_root d')) = add_mset n (mset (nodes None (removable_media_root ?d)))"
    using known(1) can by auto
  then have "r = ResultSuccess \<and> size (nodes None (removable_media_root d')) = 2"
    using one by (metis size_add_mset size_mset Suc_1)
  moreover have "fst (add_media part_desc None ?e) = ResultFatalError"
    using add_media_effect [where a = part_desc and s = None and d = ?e] known(2) not by (auto split: prod.splits)
  ultimately show ?thesis using r by blast
qed

theorem remove_media_effect_witness:
  "\<exists>d'. remove_media ''/dev/sdb'' disk_daemon = (ResultSuccess, d') \<and>
    sent (world d') = sent (world disk_daemon) @
      [(5, message ''removable_device_unmounted'' [''9 /dev/sdb1'', ''8 /media/a'']),
       (5, message ''removable_device_removed'' [''9 /dev/sdb1'']),
       (5, message ''removable_device_removed'' [''8 /dev/sdb''])]"
proof -
  have "concat (map (removal_messages (clients disk_daemon)) (postorder None [disk_media])) =
    [(5, message ''removable_device_unmounted'' [''9 /dev/sdb1'', ''8 /media/a'']),
       (5, message ''removable_device_removed'' [''9 /dev/sdb1'']),
       (5, message ''removable_device_removed'' [''8 /dev/sdb''])]"
    by code_simp
  with remove_media_effect [OF disk_find(1,3)] show ?thesis by auto
qed

text \<open>The partition is reported again with another label and as a card.\<close>

definition part_event :: device_desc where
  "part_event = part_desc\<lparr>d_label := Some ''c'', d_subtype := media_subtype_sd_card\<rparr>"

definition changed_daemon :: daemon where
  "changed_daemon = snd (change_media part_event None disk_daemon)"

lemma changed_val: "change_media part_event None disk_daemon = (ResultSuccess, changed_daemon)"
  by code_simp

lemma part_event_find:
  "find_at None (d_path part_event) (removable_media_root disk_daemon) = Some (Some ''/dev/sdb'', part_media)"
  by code_simp

theorem change_media_effect_witness:
  "\<exists>i'. (Some ''/dev/sdb'', ''/dev/sdb1'', i') \<in> set (nodes None (removable_media_root changed_daemon)) \<and>
     md_label i' = Some ''c'' \<and> md_subtype i' = media_subtype_removable_disk"
proof -
  have "d_path part_event = ''/dev/sdb1''" "d_label part_event = Some ''c''"
    "md_subtype (m_info part_media) = media_subtype_removable_disk" "decode_loop ''c'' = Decoded ''c''"
    by code_simp+
  with change_media_effect [OF part_event_find changed_val] show ?thesis
    by (auto simp: built_from_def label_stored_def)
qed

end
