(* ===== verification/Dtmd_Mounts_Spec.thy ===== *)
theory Dtmd_Mounts_Spec
  imports Dtmd_Mounts Dtmd_Lists_Spec
begin

text \<open>
  What \<^verbatim>\<open>daemon/mnt_funcs.c\<close> promises: after \<open>check_mount_changes\<close> every device carries the
  mount point and options of the first entry of the mount table that names it, a tree
  that already does is left alone without a message, and \<^verbatim>\<open>mtab\<close> is changed atomically.
\<close>

section \<open>Changing all nodes of a tree\<close>

fun map_tree :: "(string \<Rightarrow> media_info \<Rightarrow> media_info) \<Rightarrow> media list \<Rightarrow> media list" where
  "map_tree f [] = []"
| "map_tree f (Media q i cs # ms) = Media q (f q i) (map_tree f cs) # map_tree f ms"

lemma nodes_map_tree: "nodes par (map_tree f ms) = map (\<lambda>(pp, q, i). (pp, q, f q i)) (nodes par ms)"
  by (induction par ms rule: nodes.induct) auto

lemma node_path_map_tree [simp]: "map node_path (nodes par (map_tree f ms)) = map node_path (nodes par ms)"
  by (simp add: nodes_map_tree node_path_def case_prod_unfold)

lemma map_tree_map_tree: "map_tree f (map_tree g ms) = map_tree (\<lambda>q i. f q (g q i)) ms"
  by (induction g ms rule: map_tree.induct) auto

lemma map_tree_cong:
  "(\<And>pp q i. (pp, q, i) \<in> set (nodes par ms) \<Longrightarrow> f q i = g q i) \<Longrightarrow> map_tree f ms = map_tree g ms"
proof (induction par ms rule: nodes.induct)
  case (2 par q i cs ms)
  have "f q i = g q i" using "2.prems" [of par q i] by simp
  moreover have "map_tree f cs = map_tree g cs" using "2.prems" by (intro "2.IH"(1)) auto
  moreover have "map_tree f ms = map_tree g ms" using "2.prems" by (intro "2.IH"(2)) auto
  ultimately show ?case by simp
qed simp

lemma map_tree_id: "map_tree (\<lambda>q i. i) ms = ms"
  by (induction "\<lambda>(q::string) (i::media_info). i" ms rule: map_tree.induct) auto

text \<open>With distinct paths, editing the node found is a change at its path.\<close>

lemma edit_map_tree:
  assumes "distinct (map node_path (nodes par ms))" and "find_at par p ms = Some (pp, m)"
  shows "edit_media p (set_info (g (m_info m))) ms = map_tree (\<lambda>q i. if q = p then g i else i) ms"
  using assms
proof (induction par p ms rule: find_at.induct)
  case (2 par p q i cs ms)
  have other: "map_tree (\<lambda>q i. if q = p then g i else i) xs = xs" if "p \<notin> paths pp xs" for pp xs
  proof -
    have "map_tree (\<lambda>q i. if q = p then g i else i) xs = map_tree (\<lambda>q i. i) xs"
      by (rule map_tree_cong [where par = pp]) (use that in \<open>force simp: paths_def node_path_def\<close>)
    then show ?thesis by (simp add: map_tree_id)
  qed
  have disj: "q \<notin> paths (Some q) cs" "q \<notin> paths par ms" "paths (Some q) cs \<inter> paths par ms = {}"
    "distinct (map node_path (nodes (Some q) cs))" "distinct (map node_path (nodes par ms))"
    using "2.prems"(1) by (auto simp: paths_def)
  consider "p = q" | "p \<noteq> q" "find_at (Some q) p cs \<noteq> None" | "p \<noteq> q" "find_at (Some q) p cs = None"
    by blast
  then show ?case
  proof cases
    case 1
    with "2.prems" have "m = Media q i cs" by simp
    with 1 other disj show ?thesis by (simp add: set_info_def)
  next
    case n: 2
    then have "p \<in> paths (Some q) cs" by (metis find_at_None)
    then have "p \<notin> paths par ms" using disj(3) by blast
    with n 2 disj other show ?thesis by auto
  next
    case n: 3
    then have "p \<notin> paths (Some q) cs" by (metis find_at_None)
    with n 2 disj other show ?thesis by auto
  qed
qed simp

lemma mark_map_tree:
  "mark_each_device ms = map_tree (\<lambda>q i. i\<lparr>md_mount_counter := push_bit 1 (md_mount_counter i)\<rparr>) ms"
  by (induction ms rule: mark_each_device.induct) auto

section \<open>The effect on one device\<close>

definition entry_info :: "mntent \<Rightarrow> media_info \<Rightarrow> media_info" where
  "entry_info e i =
     (if md_mount_counter i AND is_processed \<noteq> 0 then i
      else case (mnt_dir e, mnt_opts e) of
        (Some dir, Some opts) \<Rightarrow> i\<lparr>md_mnt_point := Some dir, md_mnt_opts := Some opts,
          md_mount_counter := (md_mount_counter i OR is_processed) OR is_mounted_now\<rparr>
      | _ \<Rightarrow> i\<lparr>md_mount_counter := (md_mount_counter i OR is_processed) AND NOT is_mounted_now\<rparr>)"

definition change_result :: "media_info \<Rightarrow> media_info" where
  "change_result i =
     (if md_mount_counter i AND is_mounted_now = 0 \<and> md_mount_counter i AND is_mounted_last \<noteq> 0
      then i\<lparr>md_mnt_point := None, md_mnt_opts := None, md_mount_counter := md_mount_counter i AND is_mounted_now\<rparr>
      else i\<lparr>md_mount_counter := md_mount_counter i AND is_mounted_now\<rparr>)"

lemma notify_allocs:
  assumes "\<And>fd w. allocs (f fd w) = allocs w"
  shows "allocs (notify_each f cl w) = allocs w"
  using assms by (induction cl arbitrary: w) auto

lemma dprintf_allocs: "allocs (snd (dprintf fd s w)) = allocs w"
  by (simp add: dprintf_def split: list.split)

lemma notify_mount_allocs [simp]:
  "allocs (notify_removable_device_unmounted p mp cl w) = allocs w"
  "allocs (notify_removable_device_mounted p mp os cl w) = allocs w"
  by (simp_all add: notify_defs notify_allocs dprintf_allocs)

lemma process_entry_info:
  assumes "allocs w = []"
  shows "\<exists>w'. process_entry cl e p i w = (True, entry_info e i, w') \<and> allocs w' = []"
proof (cases "mnt_dir e = None \<or> mnt_opts e = None \<or> md_mount_counter i AND is_processed \<noteq> 0")
  case True
  with assms show ?thesis by (auto simp: process_entry_def entry_info_def Let_def split: option.split)
next
  case False
  then obtain dir opts where e: "mnt_dir e = Some dir" "mnt_opts e = Some opts" by auto
  define i2 where "i2 = i\<lparr>md_mount_counter := (md_mount_counter i OR is_processed) OR is_mounted_now\<rparr>"
  have "\<exists>w'. process_mount_dir cl p dir opts i2 w = (True, i2\<lparr>md_mnt_point := Some dir\<rparr>, w') \<and> allocs w' = []"
    using assms by (auto simp: process_mount_dir_def Let_def malloc_no_failure split: option.splits)
  then obtain w1 where 1: "process_mount_dir cl p dir opts i2 w = (True, i2\<lparr>md_mnt_point := Some dir\<rparr>, w1)"
    "allocs w1 = []" by blast
  have "process_mount_opts opts j w1 = (True, j\<lparr>md_mnt_opts := Some opts\<rparr>, w1)" for j
    using 1(2) by (auto simp: process_mount_opts_def malloc_no_failure split: option.splits)
  with 1 False e show ?thesis
    by (simp add: process_entry_def entry_info_def Let_def i2_def)
qed

definition entries_info :: "mntent list \<Rightarrow> string \<Rightarrow> media_info \<Rightarrow> media_info" where
  "entries_info es q i = foldl (\<lambda>i e. if mnt_fsname e = q then entry_info e i else i) i es"

lemma process_entries_info:
  "allocs w = [] \<Longrightarrow> distinct (map node_path (nodes None ms)) \<Longrightarrow>
   \<exists>w'. process_entries cl es ms w = (True, map_tree (entries_info es) ms, w') \<and> allocs w' = []"
proof (induction cl es ms w rule: process_entries.induct)
  case (1 cl ms w)
  then show ?case using map_tree_id by (simp add: entries_info_def)
next
  case (2 cl e es ms w)
  have step: "map_tree (entries_info (e # es)) ms =
      map_tree (entries_info es) (map_tree (\<lambda>q i. if q = mnt_fsname e then entry_info e i else i) ms)"
    unfolding map_tree_map_tree by (rule map_tree_cong [where par = None]) (auto simp: entries_info_def)
  show ?case
  proof (cases "find_at None (mnt_fsname e) ms")
    case None
    then have "map_tree (\<lambda>q i. if q = mnt_fsname e then entry_info e i else i) ms = map_tree (\<lambda>q i. i) ms"
      by (intro map_tree_cong [where par = None]) (force simp: find_at_None paths_def node_path_def)
    with None 2 step show ?thesis by (simp add: dtmd_find_media_def map_tree_id)
  next
    case (Some r)
    then obtain pp m where f: "find_at None (mnt_fsname e) ms = Some (pp, m)" by (cases r) auto
    obtain w1 where 1: "process_entry cl e (m_path m) (m_info m) w = (True, entry_info e (m_info m), w1)"
      "allocs w1 = []" using process_entry_info [OF "2.prems"(1)] by blast
    note ed = edit_map_tree [OF "2.prems"(2) f, of "entry_info e"]
    have fm: "dtmd_find_media (mnt_fsname e) ms = Some m" using f by (simp add: dtmd_find_media_def)
    have "distinct (map node_path (nodes None (edit_media (mnt_fsname e) (set_info (entry_info e (m_info m))) ms)))"
      unfolding ed using "2.prems"(2) by simp
    with "2.IH"(2) [OF fm 1(1) [symmetric] refl refl TrueI 1(2)] show ?thesis
      using fm 1 step ed by (simp add: Let_def)
  qed
qed

lemma fst_process_change: "fst (process_change cl q i w) = change_result i"
  by (simp add: process_change_def change_result_def Let_def)

lemma fst_process_changes: "fst (process_changes cl ms w) = map_tree (\<lambda>q. change_result) ms"
proof (induction cl ms w rule: process_changes.induct)
  case (2 cl q i cs ms w)
  obtain i' w1 where 1: "process_change cl q i w = (i', w1)" by fastforce
  obtain cs' w2 where c: "process_changes cl cs w1 = (cs', w2)" by fastforce
  obtain ms' w3 where m: "process_changes cl ms w2 = (ms', w3)" by fastforce
  from 2(1) [OF 1 [symmetric]] c have "cs' = map_tree (\<lambda>q. change_result) cs" by simp
  moreover from 2(2) [OF 1 [symmetric] c [symmetric]] m have "ms' = map_tree (\<lambda>q. change_result) ms" by simp
  moreover have "i' = change_result i" using fst_process_change [of cl q i w] 1 by simp
  ultimately show ?case using 1 c m by simp
qed simp

section \<open>Specification\<close>

definition unmounted_info :: "media_info \<Rightarrow> media_info" where
  "unmounted_info i = (if md_mnt_point i = None then i
     else i\<lparr>md_mnt_point := None, md_mnt_opts := None, md_mount_counter := 0\<rparr>)"

text \<open>What the mount table says of the device \<open>q\<close>: the first entry that names it counts.\<close>

definition mounted_info :: "mntent list \<Rightarrow> string \<Rightarrow> media_info \<Rightarrow> media_info" where
  "mounted_info es q i = (case find (\<lambda>e. mnt_fsname e = q) es of
     None \<Rightarrow> unmounted_info i
   | Some e \<Rightarrow> (case (mnt_dir e, mnt_opts e) of
       (Some dir, Some opts) \<Rightarrow>
         i\<lparr>md_mnt_point := Some dir, md_mnt_opts := Some opts, md_mount_counter := 1\<rparr>
     | _ \<Rightarrow> unmounted_info i))"

lemma entries_info_processed:
  "md_mount_counter i AND is_processed \<noteq> 0 \<Longrightarrow> entries_info es q i = i"
  by (induction es) (simp_all add: entries_info_def entry_info_def)

lemma entries_info_find:
  assumes "md_mount_counter i \<in> {0, 2}"
  shows "entries_info es q i = (case find (\<lambda>e. mnt_fsname e = q) es of None \<Rightarrow> i | Some e \<Rightarrow> entry_info e i)"
proof (induction es)
  case (Cons e es)
  have "md_mount_counter (entry_info e i) AND is_processed \<noteq> 0"
    using assms by (auto simp: entry_info_def mount_bits split: option.split)
  then have "entries_info es q (entry_info e i) = entry_info e i" by (rule entries_info_processed)
  with Cons show ?case by (simp add: entries_info_def)
qed (simp add: entries_info_def)

lemma entry_info_marked:
  assumes "info_ok i"
  shows "change_result (entries_info es q (i\<lparr>md_mount_counter := push_bit 1 (md_mount_counter i)\<rparr>)) =
    mounted_info es q i"
proof -
  let ?i = "i\<lparr>md_mount_counter := push_bit 1 (md_mount_counter i)\<rparr>"
  have c: "md_mount_counter i = (if md_mnt_point i = None then 0 else 1)"
    using assms by (simp add: info_ok_def)
  have m: "md_mount_counter ?i = (if md_mnt_point i = None then 0 else 2)" using c by simp
  then have "md_mount_counter ?i \<in> {0, 2}" by simp
  note f = entries_info_find [OF this, of es q]
  show ?thesis
  proof (cases "md_mnt_point i")
    case None
    with c m f show ?thesis
      by (cases i) (auto simp: mounted_info_def unmounted_info_def change_result_def entry_info_def mount_bits
          split: option.split)
  next
    case (Some mp)
    with c m f show ?thesis
      by (cases i) (auto simp: mounted_info_def unmounted_info_def change_result_def entry_info_def mount_bits
          split: option.split)
  qed
qed


lemma check_mount_changes_result:
  assumes "media_ok (removable_media_root d)"
    and "distinct (map node_path (nodes None (removable_media_root d)))"
    and "allocs (world d) = []"
  shows "\<exists>w. check_mount_changes (Some es) d = (ResultSuccess,
    d\<lparr>removable_media_root := map_tree (mounted_info es) (removable_media_root d), world := w\<rparr>)"
proof -
  let ?root = "removable_media_root d"
  have "distinct (map node_path (nodes None (mark_each_device ?root)))"
    using assms(2) by (simp add: mark_map_tree)
  from process_entries_info [OF assms(3) this] obtain w1 where
    1: "process_entries (clients d) es (mark_each_device ?root) (world d) =
      (True, map_tree (entries_info es) (mark_each_device ?root), w1)" by blast
  obtain ms' w2 where 2: "process_changes (clients d) (map_tree (entries_info es) (mark_each_device ?root)) w1
      = (ms', w2)" by fastforce
  then have "ms' = map_tree (\<lambda>q. change_result) (map_tree (entries_info es) (mark_each_device ?root))"
    using fst_process_changes [of "clients d" "map_tree (entries_info es) (mark_each_device ?root)" w1] by simp
  also have "\<dots> = map_tree (mounted_info es) ?root"
    unfolding mark_map_tree map_tree_map_tree
  proof (rule map_tree_cong [where par = None])
    fix pp q i assume "(pp, q, i) \<in> set (nodes None ?root)"
    with media_ok_nodes [OF assms(1)] have "info_ok i" by force
    then show "change_result (entries_info es q (i\<lparr>md_mount_counter := push_bit 1 (md_mount_counter i)\<rparr>)) =
        mounted_info es q i" by (rule entry_info_marked)
  qed
  finally have "check_mount_changes (Some es) d = (ResultSuccess,
      d\<lparr>removable_media_root := map_tree (mounted_info es) ?root, world := w2\<rparr>)"
    using 1 2 by (simp add: check_mount_changes_def)
  then show ?thesis by blast
qed

section \<open>A tree that agrees with the table\<close>

text \<open>The device needs no change when the table's entries \<open>es\<close> are still to be processed.\<close>

definition settled :: "mntent list \<Rightarrow> string \<Rightarrow> media_info \<Rightarrow> bool" where
  "settled es q i \<longleftrightarrow> md_mount_counter i AND is_processed \<noteq> 0 \<or>
     (case find (\<lambda>e. mnt_fsname e = q) es of
        None \<Rightarrow> True
      | Some e \<Rightarrow> (case (mnt_dir e, mnt_opts e) of
          (Some dir, Some opts) \<Rightarrow> md_mnt_point i = Some dir \<and> md_mnt_opts i = Some opts
        | _ \<Rightarrow> True))"

lemma process_entry_settled:
  assumes "settled (e # es) (mnt_fsname e) i"
  shows "process_entry cl e p i w = (True, entry_info e i, w) \<and>
    settled es q (entry_info e i)"
proof (cases "md_mount_counter i AND is_processed \<noteq> 0")
  case True
  then show ?thesis by (simp add: process_entry_def entry_info_def settled_def)
next
  case False
  have "bit (md_mount_counter (entry_info e i)) 2"
    using False by (auto simp: entry_info_def mount_bits bit_simps split: option.split)
  moreover have "(4::int) = push_bit 2 1" by simp
  ultimately have "md_mount_counter (entry_info e i) AND is_processed \<noteq> 0"
    by (metis and_exp_eq_0_iff_not_bit is_processed_def numeral_Bit0 numeral_One one_add_one power2_eq_square mult_2 add_numeral_left)
  with False assms show ?thesis
    by (cases i) (auto simp: settled_def process_entry_def entry_info_def process_mount_dir_def process_mount_opts_def
        Let_def split: option.splits)
qed

lemma settled_other: "mnt_fsname e \<noteq> q \<Longrightarrow> settled (e # es) q i \<Longrightarrow> settled es q i"
  by (simp add: settled_def)

lemma process_entries_settled:
  "distinct (map node_path (nodes None ms)) \<Longrightarrow>
   (\<And>pp q i. (pp, q, i) \<in> set (nodes None ms) \<Longrightarrow> settled es q i) \<Longrightarrow>
   process_entries cl es ms w = (True, map_tree (entries_info es) ms, w)"
proof (induction cl es ms w rule: process_entries.induct)
  case (1 cl ms w)
  then show ?case using map_tree_id by (simp add: entries_info_def)
next
  case (2 cl e es ms w)
  define f where "f = (\<lambda>q i. if q = mnt_fsname e then entry_info e i else i)"
  have step: "map_tree (entries_info (e # es)) ms = map_tree (entries_info es) (map_tree f ms)"
    unfolding map_tree_map_tree by (rule map_tree_cong [where par = None]) (auto simp: entries_info_def f_def)
  have st: "settled es q i" if "(pp, q, i) \<in> set (nodes None (map_tree f ms))" for pp q i
  proof -
    from that obtain j where j: "(pp, q, j) \<in> set (nodes None ms)" "i = f q j"
      by (auto simp: nodes_map_tree)
    with "2.prems"(2) have "settled (e # es) q j" by blast
    with j(2) show ?thesis
      using process_entry_settled [of e es j cl "[]" w q] settled_other [of e q es j]
      by (cases "q = mnt_fsname e") (auto simp: f_def)
  qed
  have dist: "distinct (map node_path (nodes None (map_tree f ms)))" using "2.prems"(1) by simp
  show ?case
  proof (cases "find_at None (mnt_fsname e) ms")
    case None
    then have same: "map_tree f ms = ms"
      using map_tree_cong [of None ms f "\<lambda>q i. i"]
      by (force simp: find_at_None paths_def node_path_def f_def map_tree_id)
    have fm: "dtmd_find_media (mnt_fsname e) ms = None" using None by (simp add: dtmd_find_media_def)
    with "2.IH"(1) [OF fm "2.prems"(1)] st same step show ?thesis by simp
  next
    case (Some r)
    then obtain pp m where f: "find_at None (mnt_fsname e) ms = Some (pp, m)" by (cases r) auto
    then have m: "(pp, mnt_fsname e, m_info m) \<in> set (nodes None ms)" "m_path m = mnt_fsname e"
      using find_at_Some by blast+
    have 1: "process_entry cl e (m_path m) (m_info m) w = (True, entry_info e (m_info m), w)"
      using process_entry_settled "2.prems"(2) [OF m(1)] by blast
    note ed = edit_map_tree [OF "2.prems"(1) f, of "entry_info e", folded f_def]
    have fm: "dtmd_find_media (mnt_fsname e) ms = Some m" using f by (simp add: dtmd_find_media_def)
    from "2.IH"(2) [OF fm 1 [symmetric] refl refl TrueI] st dist
    show ?thesis using fm 1 step ed by (simp add: Let_def)
  qed
qed

lemma process_changes_quiet:
  "(\<And>pp q i. (pp, q, i) \<in> set (nodes par ms) \<Longrightarrow>
     \<not> (md_mount_counter i AND is_mounted_now = 0 \<and> md_mount_counter i AND is_mounted_last \<noteq> 0)) \<Longrightarrow>
   process_changes cl ms w = (map_tree (\<lambda>q. change_result) ms, w)"
proof (induction par ms arbitrary: w rule: nodes.induct)
  case (2 par q i cs ms)
  have "process_change cl q i w = (change_result i, w)"
    using "2.prems" [of par q i] by (auto simp: process_change_def change_result_def Let_def)
  moreover have "process_changes cl cs w = (map_tree (\<lambda>q. change_result) cs, w)"
    by (rule "2.IH"(1)) (metis "2.prems" UnI1 list.set_intros(2) nodes.simps(2) set_append)
  moreover have "process_changes cl ms w = (map_tree (\<lambda>q. change_result) ms, w)"
    by (rule "2.IH"(2)) (metis "2.prems" UnI2 list.set_intros(2) nodes.simps(2) set_append)
  ultimately show ?case by simp
qed simp

lemma mounted_info_settled:
  assumes ok: "info_ok i" and same: "mounted_info es q i = i"
  defines "j \<equiv> i\<lparr>md_mount_counter := push_bit 1 (md_mount_counter i)\<rparr>"
  shows "settled es q j" and
    "\<not> (md_mount_counter (entries_info es q j) AND is_mounted_now = 0 \<and>
        md_mount_counter (entries_info es q j) AND is_mounted_last \<noteq> 0)"
proof -
  have c: "md_mount_counter i = (if md_mnt_point i = None then 0 else 1)"
    using ok by (simp add: info_ok_def)
  then have "md_mount_counter j \<in> {0, 2}" by (simp add: j_def)
  note f = entries_info_find [OF this, of es q]
  have 1: "settled es q j" if "find (\<lambda>e. mnt_fsname e = q) es = Some e" for e
    using same that c by (cases i) (auto simp: settled_def mounted_info_def j_def split: option.splits)
  show "settled es q j" using 1 by (cases "find (\<lambda>e. mnt_fsname e = q) es") (simp_all add: settled_def)
  have un: "unmounted_info i = i \<Longrightarrow> md_mnt_point i = None"
    using c by (cases i) (auto simp: unmounted_info_def split: if_splits)
  show "\<not> (md_mount_counter (entries_info es q j) AND is_mounted_now = 0 \<and>
        md_mount_counter (entries_info es q j) AND is_mounted_last \<noteq> 0)"
    using f same c un
    by (auto simp: mounted_info_def j_def entry_info_def mount_bits split: option.splits)
qed

section \<open>Properties\<close>

text \<open>C13. Unless memory runs out, \<open>check_mount_changes\<close> gives every device of a well-formed tree
  the mount point and options of the first entry of the mount table that names it, and
  clears those of a device no entry names; nothing else in the tree changes.\<close>

theorem check_mount_changes_follows_table:
  assumes "media_ok (removable_media_root d)"
    and "distinct (map node_path (nodes None (removable_media_root d)))"
    and "allocs (world d) = []"
  shows "case check_mount_changes (Some es) d of (r, d') \<Rightarrow> r = ResultSuccess \<and> clients d' = clients d \<and>
    nodes None (removable_media_root d') =
      map (\<lambda>(pp, q, i). (pp, q, mounted_info es q i)) (nodes None (removable_media_root d))"
  using check_mount_changes_result [OF assms, of es] by (auto simp: nodes_map_tree)

text \<open>When the tree already agrees with the mount table, \<open>check_mount_changes\<close> sends no message,
  allocates nothing and leaves the daemon's state exactly as it was, whatever may fail.\<close>

lemma check_mount_changes_idle:
  assumes "media_ok (removable_media_root d)"
    and "distinct (map node_path (nodes None (removable_media_root d)))"
    and "\<And>pp q i. (pp, q, i) \<in> set (nodes None (removable_media_root d)) \<Longrightarrow> mounted_info es q i = i"
  shows "check_mount_changes (Some es) d = (ResultSuccess, d)"
proof -
  let ?root = "removable_media_root d" and ?marked = "mark_each_device (removable_media_root d)"
  have ok: "info_ok i" if "(pp, q, i) \<in> set (nodes None ?root)" for pp q i
    using media_ok_nodes [OF assms(1) that] by simp
  have dist: "distinct (map node_path (nodes None ?marked))" using assms(2) by (simp add: mark_map_tree)
  have "settled es q j" if "(pp, q, j) \<in> set (nodes None ?marked)" for pp q j
    using that mounted_info_settled(1) [OF ok assms(3)] by (fastforce simp: mark_map_tree nodes_map_tree)
  note 1 = process_entries_settled [OF dist this]
  let ?after = "map_tree (entries_info es) ?marked"
  have "\<not> (md_mount_counter k AND is_mounted_now = 0 \<and> md_mount_counter k AND is_mounted_last \<noteq> 0)"
    if "(pp, q, k) \<in> set (nodes None ?after)" for pp q k
    using that mounted_info_settled(2) [OF ok assms(3)]
    by (fastforce simp: mark_map_tree nodes_map_tree map_tree_map_tree)
  note 2 = process_changes_quiet [of None, OF this]
  have "map_tree (\<lambda>q. change_result) ?after = map_tree (\<lambda>q i. i) ?root"
    unfolding mark_map_tree map_tree_map_tree
    by (rule map_tree_cong [where par = None]) (simp only: entry_info_marked ok assms(3))
  with 1 2 show ?thesis by (simp add: check_mount_changes_def map_tree_id)
qed

text \<open>\<open>point_mount_count\<close> with a positive limit is the number of entries mounted at the directory,
  cut off at the limit; without one it is that number.\<close>

lemma point_mount_count_counts:
  "point_mount_count path limit (Some es) =
     (let n = int (length (filter (\<lambda>e. mnt_dir e = Some path) es))
      in if limit > 0 then min limit n else n)"
proof -
  have "count_mounts path limit k es =
      (if limit > 0 then min limit (k + int (length (filter (\<lambda>e. mnt_dir e = Some path) es)))
       else k + int (length (filter (\<lambda>e. mnt_dir e = Some path) es)))"
    if "limit > 0 \<longrightarrow> k < limit" for k
    using that by (induction es arbitrary: k) auto
  from this [of 0] show ?thesis by (simp add: point_mount_count_def Let_def)
qed

text \<open>Removing an entry from \<^verbatim>\<open>mtab\<close> is all or nothing: on success exactly the entries for the
  device, mount point and type are gone and all others are kept in order, on failure the
  file is as it was.\<close>

lemma remove_from_mtab_atomic:
  "case remove_from_mtab path mp type fs of (r, fs') \<Rightarrow>
     r = ResultSuccess \<and>
       mtab fs' = map_option (filter (\<lambda>e. \<not> mtab_entry_is path mp type e)) (mtab fs) \<and> mtab fs \<noteq> None
     \<or> r = ResultFatalError \<and> mtab fs' = mtab fs"
proof -
  have copy: "fst (copy_mtab path mp type es bs) = Some es' \<Longrightarrow>
      es' = filter (\<lambda>e. \<not> mtab_entry_is path mp type e) es" for es bs es'
  proof (induction es arbitrary: bs es')
    case (Cons e es)
    obtain ok bs' where a: "addmntent bs = (ok, bs')" by fastforce
    obtain r bs'' where c: "copy_mtab path mp type es bs' = (r, bs'')" by fastforce
    from Cons a c Cons.IH [of bs'] show ?case by (auto split: if_splits)
  qed simp
  show ?thesis
  proof (cases "mtab fs")
    case (Some es)
    obtain new bs where c: "copy_mtab path mp type es (add_succeeds fs) = (new, bs)" by fastforce
    with copy [of es "add_succeeds fs"] Some show ?thesis
      by (auto simp: remove_from_mtab_def Let_def split: option.splits)
  qed (simp add: remove_from_mtab_def)
qed

section \<open>Witnesses\<close>

definition demo_mounts :: "mntent list" where
  "demo_mounts =
     [\<lparr>mnt_fsname = ''proc'', mnt_dir = Some ''/proc'', mnt_type = ''proc'', mnt_opts = Some ''rw''\<rparr>,
      \<lparr>mnt_fsname = ''/dev/sdb1'', mnt_dir = Some ''/mnt'', mnt_type = ''vfat'', mnt_opts = Some ''ro''\<rparr>,
      \<lparr>mnt_fsname = ''/dev/sdb1'', mnt_dir = Some ''/srv'', mnt_type = ''vfat'', mnt_opts = Some ''rw''\<rparr>]"

text \<open>The partition of \<open>disk_daemon\<close>, known as mounted at \<^verbatim>\<open>/media/a\<close>, is mounted elsewhere.\<close>

definition moved_daemon :: daemon where
  "moved_daemon = snd (check_mount_changes (Some demo_mounts) disk_daemon)"

lemma empty_daemon_ok: "daemon_ok empty_daemon"
  by (simp add: daemon_ok_def empty_daemon_def)

lemma disk_daemon_ok: "daemon_ok disk_daemon"
  unfolding disk_daemon_def by (intro inv_intros empty_daemon_ok)

lemma disk_daemon_paths:
  "map node_path (nodes None (removable_media_root disk_daemon)) = [''/dev/sdb'', ''/dev/sdb1'']"
  "map node_path (nodes None (removable_media_root moved_daemon)) = [''/dev/sdb'', ''/dev/sdb1'']"
  "allocs (world disk_daemon) = []"
  by code_simp+

theorem check_mount_changes_follows_table_witness:
  "map (\<lambda>n. md_mnt_point (snd (snd n))) (nodes None (removable_media_root moved_daemon)) = [None, Some ''/mnt'']"
proof -
  have "media_ok (removable_media_root disk_daemon)"
    using disk_daemon_ok by (simp add: daemon_ok_def)
  from check_mount_changes_follows_table [OF this _ disk_daemon_paths(3), of demo_mounts]
  have "nodes None (removable_media_root moved_daemon) =
      map (\<lambda>(pp, q, i). (pp, q, mounted_info demo_mounts q i)) (nodes None (removable_media_root disk_daemon))"
    by (simp add: disk_daemon_paths(1) moved_daemon_def split: prod.splits)
  moreover have "map (\<lambda>n. md_mnt_point (snd (snd n))) (map (\<lambda>(pp, q, i). (pp, q, mounted_info demo_mounts q i))
      (nodes None (removable_media_root disk_daemon))) = [None, Some ''/mnt'']"
    by code_simp
  ultimately show ?thesis by simp
qed

end
