(* ===== verification/Dtmd_Tree_Inv.thy ===== *)
theory Dtmd_Tree_Inv
  imports Dtmd_Mounts_Spec
begin

text \<open>
  The invariant of the daemon's state between two passes of the event loop: a sorted tree whose
  devices have consistent mount points, harmless labels and known types, distinct client
  descriptors, and client buffers with room and without a complete command.  Every operation
  of the loop keeps it; \<open>check_mount_changes\<close> does so through a weaker invariant that holds
  while it runs.
\<close>

section \<open>Predicates on all devices\<close>

definition every_node :: "(string \<Rightarrow> media_info \<Rightarrow> bool) \<Rightarrow> media list \<Rightarrow> bool" where
  "every_node P ms \<longleftrightarrow> list_all (\<lambda>(par, q, i). P q i) (nodes None ms)"

abbreviation every_info :: "(media_info \<Rightarrow> bool) \<Rightarrow> media list \<Rightarrow> bool" where
  "every_info P \<equiv> every_node (\<lambda>q. P)"

lemma every_node_parent: "list_all (\<lambda>(par, q, i). P q i) (nodes par ms) = every_node P ms"
  unfolding every_node_def
proof (induction ms arbitrary: par)
  case (Cons m ms)
  show ?case using Cons.IH [of par] by (cases m) simp
qed simp

lemma every_node_simps [simp]:
  "every_node P []"
  "every_node P (Media q i cs # ms) \<longleftrightarrow> P q i \<and> every_node P cs \<and> every_node P ms"
  using every_node_parent [of P "Some q" cs] by (simp_all add: every_node_def)

lemma every_node_append [simp]: "every_node P (xs @ ys) \<longleftrightarrow> every_node P xs \<and> every_node P ys"
  by (simp add: every_node_def)

lemma every_node_insert [simp]: "every_node P (insert_media m ms) \<longleftrightarrow> every_node P [m] \<and> every_node P ms"
proof (induction ms)
  case (Cons n ns)
  then show ?case by (cases m; cases n) auto
qed simp

lemma every_node_find: "every_node P ms \<Longrightarrow> find_at par p ms = Some (pp, m) \<Longrightarrow> every_node P [m]"
  by (induction par p ms rule: find_at.induct) (auto split: if_splits option.splits)

lemma every_node_root: "every_node P [m] \<Longrightarrow> P (m_path m) (m_info m)"
  by (cases m) simp

lemma every_node_edit:
  "every_node P ms \<Longrightarrow> (\<And>m. m_path m = p \<Longrightarrow> every_node P [m] \<Longrightarrow> every_node P (f m)) \<Longrightarrow> every_node P (edit_media p f ms)"
  by (induction p f ms rule: edit_media.induct) simp_all

lemma every_node_set: "P (m_path m) i \<Longrightarrow> every_node P [m] \<Longrightarrow> every_node P (set_info i m)"
  by (cases m) (simp add: set_info_def)

lemma every_node_set_info: "every_node P ms \<Longrightarrow> P p i \<Longrightarrow> every_node P (edit_media p (set_info i) ms)"
  by (blast intro: every_node_edit every_node_set)

lemma every_node_map_tree: "every_node P ms \<Longrightarrow> (\<And>q i. P q i \<Longrightarrow> Q q (f q i)) \<Longrightarrow> every_node Q (map_tree f ms)"
  by (induction f ms rule: map_tree.induct) simp_all

lemma every_node_mono: "every_node P ms \<Longrightarrow> (\<And>q i. P q i \<Longrightarrow> Q q i) \<Longrightarrow> every_node Q ms"
  by (auto simp: every_node_def list_all_iff)

section \<open>Sorted siblings\<close>

fun media_sorted :: "media list \<Rightarrow> bool" where
  "media_sorted [] = True"
| "media_sorted (Media q i cs # ms) \<longleftrightarrow> media_sorted cs \<and> media_sorted ms \<and> (\<forall>m \<in> set ms. q \<le> m_path m)"

lemma media_ok_iff: "media_ok ms \<longleftrightarrow> media_sorted ms \<and> every_info info_ok ms"
  by (induction ms rule: media_ok.induct) auto

lemma paths_set_info [simp]: "map m_path (edit_media p (set_info i) ms) = map m_path ms"
  by (induction p "set_info i" ms rule: edit_media.induct) (simp_all add: set_info_def)

lemma sorted_paths:
  "media_sorted (Media q i cs # ms) \<longleftrightarrow> media_sorted cs \<and> media_sorted ms \<and> (\<forall>p \<in> set (map m_path ms). q \<le> p)"
  by simp

declare media_sorted.simps(2) [simp del]

lemma sorted_set_info: "media_sorted ms \<Longrightarrow> media_sorted (edit_media p (set_info i) ms)"
  by (induction p "set_info i" ms rule: edit_media.induct)
     (auto simp: sorted_paths set_info_def simp del: set_map)

lemma paths_map_tree [simp]: "map m_path (map_tree f ms) = map m_path ms"
  by (induction f ms rule: map_tree.induct) simp_all

lemma sorted_map_tree: "media_sorted ms \<Longrightarrow> media_sorted (map_tree f ms)"
  by (induction f ms rule: map_tree.induct) (auto simp: sorted_paths simp del: set_map)

section \<open>While the mount table is gone through\<close>

definition device_ok :: "media_info \<Rightarrow> bool" where
  "device_ok i \<longleftrightarrow> info_ok i \<and> md_type i \<noteq> media_type_unknown_or_persistent"

text \<open>The mount counter of a device between marking and the final pass.\<close>

definition checking_ok :: "media_info \<Rightarrow> bool" where
  "checking_ok i \<longleftrightarrow> md_type i \<noteq> media_type_unknown_or_persistent \<and>
     (case md_label i of None \<Rightarrow> True | Some l \<Rightarrow> no_quotes l) \<and>
     (md_mount_counter i AND is_mounted_now \<noteq> 0 \<longrightarrow>
        md_mnt_point i \<noteq> None \<and> md_mount_counter i AND is_processed \<noteq> 0) \<and>
     (md_mount_counter i AND is_mounted_now = 0 \<longrightarrow>
        (md_mount_counter i AND is_mounted_last \<noteq> 0 \<longleftrightarrow> md_mnt_point i \<noteq> None))"

lemma marked_ok: "device_ok i \<Longrightarrow> checking_ok (i\<lparr>md_mount_counter := push_bit 1 (md_mount_counter i)\<rparr>)"
  by (auto simp: device_ok_def info_ok_def checking_ok_def mount_bits split: if_splits)

lemma changed_ok: "checking_ok i \<Longrightarrow> device_ok (change_result i)"
  by (auto simp: checking_ok_def device_ok_def info_ok_def change_result_def mount_bits and_one_eq
      split: if_splits)

text \<open>The three bits, as the code sets them.\<close>

lemma mount_bit_simps:
  "(c OR is_processed) AND is_mounted_now = c AND is_mounted_now"
  "(c OR is_processed) AND is_mounted_last = c AND is_mounted_last"
  "(c OR is_processed) AND is_processed = is_processed"
  "(c OR is_mounted_now) AND is_mounted_now = is_mounted_now"
  "(c OR is_mounted_now) AND is_processed = c AND is_processed"
  "((c OR is_processed) AND NOT is_mounted_now) AND is_mounted_now = 0"
  "((c OR is_processed) AND NOT is_mounted_now) AND is_mounted_last = c AND is_mounted_last"
proof -
  have absorb: "c AND k OR k = k" for k :: int
    by (rule bit_eqI) (auto simp: bit_simps)
  show "(c OR is_processed) AND is_mounted_now = c AND is_mounted_now"
    "(c OR is_processed) AND is_mounted_last = c AND is_mounted_last"
    "(c OR is_processed) AND is_processed = is_processed"
    "(c OR is_mounted_now) AND is_mounted_now = is_mounted_now"
    "(c OR is_mounted_now) AND is_processed = c AND is_processed"
    "((c OR is_processed) AND NOT is_mounted_now) AND is_mounted_now = 0"
    "((c OR is_processed) AND NOT is_mounted_now) AND is_mounted_last = c AND is_mounted_last"
    by (simp_all add: mount_bits bit.conj_disj_distrib2 and.assoc absorb)
qed

lemma process_entry_ok:
  assumes "process_entry cl e p i w = (True, i', w')" and "checking_ok i"
  shows "checking_ok i'"
proof -
  have nz: "is_processed \<noteq> 0" "is_mounted_now \<noteq> 0" by (simp_all add: mount_bits)
  from assms show ?thesis
    by (auto simp: process_entry_def process_mount_dir_def process_mount_opts_def Let_def checking_ok_def
        mount_bit_simps nz split: if_splits option.splits prod.splits)
qed

text \<open>What \<open>process_entry\<close> keeps of each device, \<open>process_entries\<close> keeps of all.\<close>

lemma process_entries_cases:
  assumes "process_entries cl (e # es) ms w = (True, ms', w')"
  obtains "process_entries cl es ms w = (True, ms', w')"
    | m i w1 where "find_at None (mnt_fsname e) ms \<noteq> None" "dtmd_find_media (mnt_fsname e) ms = Some m"
      "process_entry cl e (m_path m) (m_info m) w = (True, i, w1)"
      "process_entries cl es (edit_media (mnt_fsname e) (set_info i) ms) w1 = (True, ms', w')"
  using assms by (auto simp: Let_def dtmd_find_media_def split: option.splits prod.splits if_splits)

lemma process_entries_sorted:
  "process_entries cl es ms w = (True, ms', w') \<Longrightarrow> media_sorted ms \<Longrightarrow> media_sorted ms'"
proof (induction es arbitrary: ms w)
  case (Cons e es)
  from Cons.prems(1) show ?case
    by (cases rule: process_entries_cases) (auto intro: Cons.IH sorted_set_info Cons.prems(2))
qed simp

lemma process_entries_keep:
  assumes "process_entries cl es ms w = (True, ms', w')" and "every_node P ms"
    and keep: "\<And>e q i w i' w'. P q i \<Longrightarrow> process_entry cl e q i w = (True, i', w') \<Longrightarrow> P q i'"
  shows "every_node P ms'"
  using assms(1,2)
proof (induction es arbitrary: ms w)
  case (Cons e es)
  from Cons.prems(1) show ?case
  proof (cases rule: process_entries_cases)
    case (2 m i w1)
    then obtain pp where f: "find_at None (mnt_fsname e) ms = Some (pp, m)" by (auto simp: dtmd_find_media_def)
    have "P (mnt_fsname e) i"
      using keep every_node_root [OF every_node_find [OF Cons.prems(2) f]] 2(3) find_at_Some [OF f] by simp
    then show ?thesis using Cons.IH [OF 2(4)] every_node_set_info [OF Cons.prems(2)] by blast
  qed (use Cons in blast)
qed simp

section \<open>The tree invariant\<close>

definition tree_ok :: "media list \<Rightarrow> bool" where
  "tree_ok ms \<longleftrightarrow> media_sorted ms \<and> every_info device_ok ms"

lemma tree_ok_media_ok: "tree_ok ms \<longleftrightarrow> media_ok ms \<and> every_info (\<lambda>i. md_type i \<noteq> media_type_unknown_or_persistent) ms"
proof -
  have "every_info device_ok ms \<longleftrightarrow> every_info info_ok ms \<and> every_info (\<lambda>i. md_type i \<noteq> media_type_unknown_or_persistent) ms"
    by (auto simp: every_node_def device_ok_def list_all_iff)
  then show ?thesis by (auto simp: tree_ok_def media_ok_iff)
qed

text \<open>\<open>check_mount_changes\<close> keeps what holds of all devices, through a predicate that holds while it
  runs.\<close>

lemma check_mount_changes_parts:
  assumes "check_mount_changes mounts d = (ResultSuccess, d')"
  obtains es ms w where
    "process_entries (clients d) es (mark_each_device (removable_media_root d)) (world d) = (True, ms, w)"
    "removable_media_root d' = map_tree (\<lambda>q. change_result) ms"
proof -
  let ?root = "removable_media_root d"
  from assms obtain es where es: "mounts = Some es" by (auto simp: check_mount_changes_def split: option.splits)
  obtain b ms w where 1: "process_entries (clients d) es (mark_each_device ?root) (world d) = (b, ms, w)"
    by (metis prod_cases3)
  obtain ms' w' where 2: "process_changes (clients d) ms w = (ms', w')" by fastforce
  from assms es 1 2 have b: "b" "removable_media_root d' = ms'"
    by (auto simp: check_mount_changes_def split: if_splits)
  moreover have "ms' = map_tree (\<lambda>q. change_result) ms" using fst_process_changes [of "clients d" ms w] 2 by simp
  ultimately show ?thesis using 1 by (intro that) simp_all
qed

lemma check_mount_changes_sorted:
  assumes "check_mount_changes mounts d = (ResultSuccess, d')" and "media_sorted (removable_media_root d)"
  shows "media_sorted (removable_media_root d')"
  using assms(1)
proof (cases rule: check_mount_changes_parts)
  case (1 es ms w)
  from process_entries_sorted [OF 1(1)] assms(2) show ?thesis
    unfolding 1(2) mark_map_tree by (blast intro: sorted_map_tree)
qed

lemma check_mount_changes_keep:
  assumes "check_mount_changes mounts d = (ResultSuccess, d')" and "every_node P (removable_media_root d)"
    and mark: "\<And>q i. P q i \<Longrightarrow> Q q (i\<lparr>md_mount_counter := push_bit 1 (md_mount_counter i)\<rparr>)"
    and entry: "\<And>e q i w i' w'. Q q i \<Longrightarrow> process_entry (clients d) e q i w = (True, i', w') \<Longrightarrow> Q q i'"
    and change: "\<And>q i. Q q i \<Longrightarrow> P q (change_result i)"
  shows "every_node P (removable_media_root d')"
  using assms(1)
proof (cases rule: check_mount_changes_parts)
  case (1 es ms w)
  have "every_node Q (mark_each_device (removable_media_root d))"
    using assms(2) mark unfolding mark_map_tree by (blast intro: every_node_map_tree)
  from process_entries_keep [OF 1(1) this] entry have "every_node Q ms" by blast
  with change show ?thesis unfolding 1(2) by (blast intro: every_node_map_tree)
qed

lemma check_mount_changes_tree_ok:
  assumes "check_mount_changes mounts d = (r, d')" and "r = ResultSuccess" and "tree_ok (removable_media_root d)"
  shows "tree_ok (removable_media_root d')"
  using check_mount_changes_sorted check_mount_changes_keep [where P = "\<lambda>q. device_ok" and Q = "\<lambda>q. checking_ok"]
    assms marked_ok process_entry_ok changed_ok unfolding tree_ok_def by blast

lemma construct_media_type: "construct_media a s w = (Some i, w') \<Longrightarrow> md_type i = d_type a"
  by (auto simp: construct_media_def split: prod.splits option.splits if_splits)

lemma add_media_keeps:
  assumes "every_node P (removable_media_root d)"
    and "\<And>i w. construct_media a s (world d) = (Some i, w) \<Longrightarrow> P (d_path a) i"
  shows "every_node P (removable_media_root (snd (add_media a s d)))"
proof -
  obtain x w where c: "construct_media a s (world d) = (x, w)" by fastforce
  have new: "every_node P [Media (d_path a) i []]" if "x = Some i" for i
    using assms(2) c that by simp
  have "every_node P (insert_child (Media (d_path a) i []) m)" if "x = Some i" "every_node P [m]" for i m
    using new [OF that(1)] that(2) by (cases m) (simp add: insert_child_def)
  then have "every_node P (edit_media (d_parent a) (insert_child (Media (d_path a) i [])) (removable_media_root d))"
    if "x = Some i" for i using that assms(1) by (intro every_node_edit) auto
  with assms(1) c new show ?thesis
    by (auto simp: add_media_def Let_def split: option.split)
qed

lemma change_info_type: "change_info cl path a i w = (r, i', w') \<Longrightarrow> md_type i' = md_type i"
  by (auto simp: change_info_def update_mnt_point_def Let_def split: if_splits prod.splits option.splits)

lemma change_media_keeps:
  assumes "every_node P (removable_media_root d)"
    and "\<And>i w r i' w'. P (d_path a) i \<Longrightarrow> change_info (clients d) (d_path a) a i w = (r, i', w') \<Longrightarrow> P (d_path a) i'"
  shows "every_node P (removable_media_root (snd (change_media a s d)))"
proof (cases "find_at None (d_path a) (removable_media_root d)")
  case (Some pm)
  then obtain pp m where f: "find_at None (d_path a) (removable_media_root d) = Some (pp, m)" by (cases pm) auto
  have p: "m_path m = d_path a" using find_at_Some [OF f] by simp
  then have "P (d_path a) (m_info m)" using every_node_root [OF every_node_find [OF assms(1) f]] by simp
  then have "every_node P (edit_media (d_path a) (set_info i) (removable_media_root d))"
    if "change_info (clients d) (d_path a) a (m_info m) w = (r, i, w')" for w r i w'
    using assms(2) that by (intro every_node_set_info [OF assms(1)]) blast
  with f p assms(1) show ?thesis
    by (auto simp: change_media_def split: prod.split)
qed (use assms in \<open>simp add: change_media_def\<close>)

lemma remove_media_keeps: "every_node P (removable_media_root d) \<Longrightarrow> every_node P (removable_media_root (snd (remove_media p d)))"
  by (auto simp: remove_media_def split: option.split intro: every_node_edit)

end
