(* ===== verification/Dtmd_Config_Spec.thy ===== *)
theory Dtmd_Config_Spec
  imports Dtmd_Config
begin

text \<open>
  What \<^verbatim>\<open>daemon/config_file.c\<close> promises: a well-formed line yields its key and value, the
  arrays of mount options behave as maps (locale \<open>mount_opts_table\<close>, interpreted for both),
  and only options valid for their filesystem get into them.
\<close>

section \<open>The arrays as maps\<close>

locale mount_opts_table =
  fixes ins :: "string \<Rightarrow> string \<Rightarrow> config \<Rightarrow> io \<Rightarrow> result \<times> config \<times> io"
    and lookup :: "string \<Rightarrow> config \<Rightarrow> string option"
  assumes ins_result: "ins fs opts c w = (r, c', w') \<Longrightarrow>
      r = (if lookup fs c = None then ResultSuccess else ResultFail) \<or>
      r = ResultFatalError \<and> c' = c \<and> lookup fs c = None \<and> allocs w \<noteq> []"
    and ins_same: "ins fs opts c w = (r, c', w') \<Longrightarrow> r \<noteq> ResultFatalError \<Longrightarrow> lookup fs c' = Some opts"
    and ins_other: "ins fs opts c w = (r, c', w') \<Longrightarrow> g \<noteq> fs \<Longrightarrow> lookup g c' = lookup g c"
begin

text \<open>Every pair of the table after an insertion was there before or is the new one.\<close>

lemma ins_source:
  assumes "ins fs opts c w = (r, c', w')" and "lookup g c' = Some p"
  shows "lookup g c = Some p \<or> g = fs \<and> p = opts"
  using assms ins_same [OF assms(1)] ins_other [OF assms(1), of g] ins_result [OF assms(1)]
  by (cases "g = fs"; cases "r = ResultFatalError") (auto split: if_splits)

text \<open>A second insertion for the same filesystem wins but reports a failure.\<close>

lemma ins_again:
  assumes "ins fs opts c w = (r, c', w')" and "r \<noteq> ResultFatalError" and "ins fs opts2 c' w2 = (r2, c2, w2')"
  shows "r2 = ResultFail \<and> lookup fs c2 = Some opts2"
  using ins_result [OF assms(3)] ins_same [OF assms(1,2)] ins_same [OF assms(3)] by auto

lemma config_mount_opts_source:
  assumes "config_mount_opts ins fs v c w = (r, c', w')" and "lookup g c' = Some p"
  shows "lookup g c = Some p \<or> g = fs \<and> p = unquote v \<and>
    (\<exists>t. get_fsopts_for_fs (Some fs) = Some t \<and> list_all (acceptable t) (option_words (unquote v)))"
proof -
  obtain ok w1 where m: "malloc_all [True, True] w = (ok, w1)" by fastforce
  show ?thesis
  proof (cases "ok \<and> get_fsopts_for_fs (Some fs) \<noteq> None")
    case False
    with assms(1) m have "c' = c"
      by (cases ok) (simp_all add: config_mount_opts_def Let_def del: malloc_all.simps)
    with assms(2) show ?thesis by simp
  next
    case True
    then obtain t where t: "get_fsopts_for_fs (Some fs) = Some t" "ok" by auto
    obtain r1 l w2 where cv: "convert_options_to_list (Some (unquote v)) (Some t) None None init_options_list w1
        = (r1, l, w2)" by (metis prod_cases3)
    have "t \<in> set filesystem_mount_options" using get_fsopts_for_fs_Some [OF t(1)] by simp
    note spec = convert_options_spec [OF this list_ok_init cv]
    show ?thesis
    proof (cases "r1 = ResultSuccess")
      case True
      with assms(1) m t cv have "ins fs (unquote v) c w2 = (r, c', w')"
        by (simp add: config_mount_opts_def Let_def del: malloc_all.simps)
      from ins_source [OF this assms(2)] spec True t show ?thesis by blast
    next
      case False
      with assms m t cv show ?thesis by (simp add: config_mount_opts_def Let_def del: malloc_all.simps)
    qed
  qed
qed

end

lemma generic_get_replace:
  "generic_get_mount_options_for_fs_from_config g (replace_opts fs opts arr) =
     (if g = fs \<and> list_ex (\<lambda>x. strcmp fs (fst x) = 0) arr then Some opts
      else generic_get_mount_options_for_fs_from_config g arr)"
  by (induction fs opts arr rule: replace_opts.induct) auto

lemma generic_get_append:
  "generic_get_mount_options_for_fs_from_config g (arr @ [(fs, opts)]) =
     (case generic_get_mount_options_for_fs_from_config g arr of
        Some p \<Rightarrow> Some p | None \<Rightarrow> if g = fs then Some opts else None)"
  by (induction g arr rule: generic_get_mount_options_for_fs_from_config.induct) auto

lemma generic_get_None:
  "generic_get_mount_options_for_fs_from_config fs arr = None \<longleftrightarrow>
     \<not> list_ex (\<lambda>x. strcmp fs (fst x) = 0) arr"
  by (induction fs arr rule: generic_get_mount_options_for_fs_from_config.induct) auto

lemma insert_array_result:
  assumes "insert_mount_opts_into_array fs opts arr w = (r, arr', w')"
  shows "r = (if generic_get_mount_options_for_fs_from_config fs arr = None then ResultSuccess else ResultFail) \<and>
       generic_get_mount_options_for_fs_from_config g arr' =
         (if g = fs then Some opts else generic_get_mount_options_for_fs_from_config g arr)
    \<or> r = ResultFatalError \<and> arr' = arr \<and> generic_get_mount_options_for_fs_from_config fs arr = None \<and>
       allocs w \<noteq> []"
proof (cases "list_ex (\<lambda>x. strcmp fs (fst x) = 0) arr")
  case True
  then have "generic_get_mount_options_for_fs_from_config fs arr \<noteq> None"
    using generic_get_None by blast
  with True assms show ?thesis by (auto simp: insert_mount_opts_into_array_def generic_get_replace)
next
  case False
  then have none: "generic_get_mount_options_for_fs_from_config fs arr = None"
    using generic_get_None by blast
  obtain ok w1 where m: "malloc_all [True, True] w = (ok, w1)" by fastforce
  show ?thesis
  proof (cases ok)
    case True
    with False assms m none show ?thesis
      by (auto simp: insert_mount_opts_into_array_def generic_get_append simp del: malloc_all.simps split: option.split)
  next
    case no: False
    with False assms m none malloc_all_fails [of "[True, True]" w w1] show ?thesis
      by (auto simp: insert_mount_opts_into_array_def simp del: malloc_all.simps)
  qed
qed

interpretation default_opts: mount_opts_table
  insert_default_mount_opts_into_array get_default_mount_options_for_fs_from_config
proof
  fix fs opts c w r c' w'
  assume a: "insert_default_mount_opts_into_array fs opts c w = (r, c', w')"
  then obtain arr where arr: "insert_mount_opts_into_array fs opts (default_mount_opts_array c) w = (r, arr, w')"
    "c' = c\<lparr>default_mount_opts_array := arr\<rparr>"
    by (auto simp: insert_default_mount_opts_into_array_def split: prod.splits)
  note res = insert_array_result [OF arr(1)]
  show "r = (if get_default_mount_options_for_fs_from_config fs c = None then ResultSuccess else ResultFail) \<or>
      r = ResultFatalError \<and> c' = c \<and> get_default_mount_options_for_fs_from_config fs c = None \<and> allocs w \<noteq> []"
    using res arr(2) by (auto simp: get_default_mount_options_for_fs_from_config_def)
  show "r \<noteq> ResultFatalError \<Longrightarrow> get_default_mount_options_for_fs_from_config fs c' = Some opts"
    using res [of fs] arr(2) by (auto simp: get_default_mount_options_for_fs_from_config_def)
  show "get_default_mount_options_for_fs_from_config g c' = get_default_mount_options_for_fs_from_config g c"
    if "g \<noteq> fs" for g
    using res [of g] arr(2) that by (auto simp: get_default_mount_options_for_fs_from_config_def)
qed

interpretation mandatory_opts: mount_opts_table
  insert_mandatory_mount_opts_into_array get_mandatory_mount_options_for_fs_from_config
proof
  fix fs opts c w r c' w'
  assume a: "insert_mandatory_mount_opts_into_array fs opts c w = (r, c', w')"
  then obtain arr where arr: "insert_mount_opts_into_array fs opts (mandatory_mount_opts_array c) w = (r, arr, w')"
    "c' = c\<lparr>mandatory_mount_opts_array := arr\<rparr>"
    by (auto simp: insert_mandatory_mount_opts_into_array_def split: prod.splits)
  note res = insert_array_result [OF arr(1)]
  show "r = (if get_mandatory_mount_options_for_fs_from_config fs c = None then ResultSuccess else ResultFail) \<or>
      r = ResultFatalError \<and> c' = c \<and> get_mandatory_mount_options_for_fs_from_config fs c = None \<and> allocs w \<noteq> []"
    using res arr(2) by (auto simp: get_mandatory_mount_options_for_fs_from_config_def)
  show "r \<noteq> ResultFatalError \<Longrightarrow> get_mandatory_mount_options_for_fs_from_config fs c' = Some opts"
    using res [of fs] arr(2) by (auto simp: get_mandatory_mount_options_for_fs_from_config_def)
  show "get_mandatory_mount_options_for_fs_from_config g c' = get_mandatory_mount_options_for_fs_from_config g c"
    if "g \<noteq> fs" for g
    using res [of g] arr(2) that by (auto simp: get_mandatory_mount_options_for_fs_from_config_def)
qed

section \<open>Only valid options get in\<close>

definition options_valid :: "string \<Rightarrow> string \<Rightarrow> bool" where
  "options_valid fs opts \<longleftrightarrow> (case get_fsopts_for_fs (Some fs) of
     None \<Rightarrow> False | Some t \<Rightarrow> list_all (acceptable t) (option_words opts))"

lemma config_mount_opts_other:
  "config_mount_opts insert_default_mount_opts_into_array fs v c w = (r, c', w') \<Longrightarrow>
     mandatory_mount_opts_array c' = mandatory_mount_opts_array c"
  "config_mount_opts insert_mandatory_mount_opts_into_array fs v c w = (r, c', w') \<Longrightarrow>
     default_mount_opts_array c' = default_mount_opts_array c"
  by (auto simp: config_mount_opts_def Let_def insert_default_mount_opts_into_array_def
      insert_mandatory_mount_opts_into_array_def simp del: malloc_all.simps
      split: prod.splits option.splits if_splits)

lemma process_config_value_cases:
  assumes "process_config_value key v c w = (r, c', w')"
  obtains (settings) "default_mount_opts_array c' = default_mount_opts_array c"
      "mandatory_mount_opts_array c' = mandatory_mount_opts_array c"
    | (dflt) fs where "config_mount_opts insert_default_mount_opts_into_array fs v c w = (r, c', w')"
    | (mandatory) fs where "config_mount_opts insert_mandatory_mount_opts_into_array fs v c w = (r, c', w')"
proof -
  consider "strncmp_eq key config_default_mount_opts (length config_default_mount_opts)
      \<and> length key > length config_default_mount_opts \<and> quoted v"
    | "strncmp_eq key config_mandatory_mount_opts (length config_mandatory_mount_opts)
      \<and> length key > length config_mandatory_mount_opts \<and> quoted v"
    | "\<not> (strncmp_eq key config_default_mount_opts (length config_default_mount_opts)
      \<and> length key > length config_default_mount_opts \<and> quoted v)"
      "\<not> (strncmp_eq key config_mandatory_mount_opts (length config_mandatory_mount_opts)
      \<and> length key > length config_mandatory_mount_opts \<and> quoted v)" by blast
  then show thesis
    using assms that unfolding process_config_value_def
    by cases (auto split: if_splits prod.splits)
qed

definition config_sound :: "config \<Rightarrow> bool" where
  "config_sound c \<longleftrightarrow> (\<forall>fs p. (get_default_mount_options_for_fs_from_config fs c = Some p \<or>
     get_mandatory_mount_options_for_fs_from_config fs c = Some p) \<longrightarrow> options_valid fs p)"

lemma config_sound_cong:
  "default_mount_opts_array c' = default_mount_opts_array c \<Longrightarrow>
   mandatory_mount_opts_array c' = mandatory_mount_opts_array c \<Longrightarrow> config_sound c' = config_sound c"
  by (simp add: config_sound_def get_default_mount_options_for_fs_from_config_def
      get_mandatory_mount_options_for_fs_from_config_def)

lemma process_config_value_sound:
  assumes "process_config_value key v c w = (r, c', w')" and "config_sound c"
  shows "config_sound c'"
  using assms(1)
proof (cases rule: process_config_value_cases)
  case settings
  with config_sound_cong assms(2) show ?thesis by blast
next
  case (dflt fs)
  have "get_mandatory_mount_options_for_fs_from_config g c' = get_mandatory_mount_options_for_fs_from_config g c" for g
    using config_mount_opts_other(1) [OF dflt] by (simp add: get_mandatory_mount_options_for_fs_from_config_def)
  with default_opts.config_mount_opts_source [OF dflt] assms(2) show ?thesis
    by (fastforce simp: config_sound_def options_valid_def)
next
  case (mandatory fs)
  have "get_default_mount_options_for_fs_from_config g c' = get_default_mount_options_for_fs_from_config g c" for g
    using config_mount_opts_other(2) [OF mandatory] by (simp add: get_default_mount_options_for_fs_from_config_def)
  with mandatory_opts.config_mount_opts_source [OF mandatory] assms(2) show ?thesis
    by (fastforce simp: config_sound_def options_valid_def)
qed

lemma read_lines_sound:
  "read_lines n ls c w = (rc, c', w') \<Longrightarrow> config_sound c \<Longrightarrow> config_sound c'"
proof (induction n ls c w rule: read_lines.induct)
  case (2 n l ls c w)
  show ?case
  proof (cases "parse_line l")
    case (Some kv)
    show ?thesis
    proof (cases kv)
      case None
      with Some 2 show ?thesis by simp
    next
      case kv: (Some p)
      obtain key v where p: "p = (key, v)" by fastforce
      obtain r c1 w1 where pv: "process_config_value key v c w = (r, c1, w1)" by (metis prod_cases3)
      note sound = process_config_value_sound [OF pv "2.prems"(2)]
      show ?thesis
      proof (cases "r = ResultSuccess")
        case True
        with Some kv p pv "2.prems"(1) have "read_lines (n + 1) ls c1 w1 = (rc, c', w')" by simp
        with "2.IH"(2) [OF Some kv [unfolded p] refl pv [symmetric] refl] True sound show ?thesis by simp
      next
        case False
        with Some kv p pv "2.prems"(1) sound show ?thesis by simp
      qed
    qed
  qed (use 2 in simp)
qed simp

section \<open>What the file sets\<close>

text \<open>The keys of the file with their values, in the order of its lines, and the options that those with a
  prefix give to filesystems.\<close>

definition file_settings :: "string \<Rightarrow> (string \<times> string) list" where
  "file_settings contents = concat (map (\<lambda>l. case parse_line l of Some (Some kv) \<Rightarrow> [kv] | _ \<Rightarrow> []) (getlines contents))"

definition given_options :: "string \<Rightarrow> (string \<times> string) list \<Rightarrow> (string \<times> string) list" where
  "given_options prefix kvs =
     map (\<lambda>(k, v). (drop (length prefix) k, unquote v)) (filter (\<lambda>(k, v). take (length prefix) k = prefix) kvs)"

text \<open>An array of options that has each filesystem once, with options it accepts.\<close>

definition options_array :: "(string \<times> string) list \<Rightarrow> bool" where
  "options_array arr \<longleftrightarrow> distinct (map fst arr) \<and> list_all (\<lambda>(fs, opts). options_valid fs opts) arr"

lemma options_array_lookup:
  assumes "distinct (map fst arr)" and "\<And>fs p. generic_get_mount_options_for_fs_from_config fs arr = Some p \<Longrightarrow> options_valid fs p"
  shows "options_array arr"
proof -
  have "generic_get_mount_options_for_fs_from_config fs arr = map_of arr fs" for fs
    by (induction fs arr rule: generic_get_mount_options_for_fs_from_config.induct) auto
  with assms show ?thesis by (auto simp: options_array_def list_all_iff)
qed

lemma replace_keys: "map fst (replace_opts fs opts arr) = map fst arr"
  by (induction fs opts arr rule: replace_opts.induct) auto

lemma insert_array_keys:
  assumes "insert_mount_opts_into_array fs opts arr w = (r, arr', w')" and "distinct (map fst arr)"
  shows "distinct (map fst arr') \<and> (r = ResultSuccess \<longrightarrow> arr' = arr @ [(fs, opts)])"
  using assms
  by (auto simp: insert_mount_opts_into_array_def replace_keys list_ex_iff image_iff simp del: malloc_all.simps
      split: if_splits prod.splits)

lemma config_mount_opts_inserts:
  assumes "config_mount_opts ins fs v c w = (r, c', w')"
  shows "c' = c \<and> r \<noteq> ResultSuccess \<or> (\<exists>w2. ins fs (unquote v) c w2 = (r, c', w'))"
  using assms
  by (auto simp: config_mount_opts_def Let_def simp del: malloc_all.simps split: prod.splits option.splits if_splits)

definition arrays_distinct :: "config \<Rightarrow> bool" where
  "arrays_distinct c \<longleftrightarrow> distinct (map fst (default_mount_opts_array c)) \<and> distinct (map fst (mandatory_mount_opts_array c))"

text \<open>The arrays after the settings \<open>kvs\<close>.\<close>

definition arrays_after :: "(string \<times> string) list \<Rightarrow> config \<Rightarrow> config \<Rightarrow> bool" where
  "arrays_after kvs c c' \<longleftrightarrow>
     default_mount_opts_array c' = default_mount_opts_array c @ given_options config_default_mount_opts kvs \<and>
     mandatory_mount_opts_array c' = mandatory_mount_opts_array c @ given_options config_mandatory_mount_opts kvs"

lemma default_inserted:
  assumes "config_mount_opts insert_default_mount_opts_into_array f v c w = (r, c', w')" and "arrays_distinct c"
  shows "arrays_distinct c' \<and> (r = ResultSuccess \<longrightarrow> arrays_after [(config_default_mount_opts @ f, v)] c c')"
  using config_mount_opts_inserts [OF assms(1)]
proof
  assume "c' = c \<and> r \<noteq> ResultSuccess"
  with assms(2) show ?thesis by simp
next
  assume "\<exists>w2. insert_default_mount_opts_into_array f (unquote v) c w2 = (r, c', w')"
  then obtain w2 where w2: "insert_default_mount_opts_into_array f (unquote v) c w2 = (r, c', w')" by blast
  obtain r1 arr w1 where i: "insert_mount_opts_into_array f (unquote v) (default_mount_opts_array c) w2 = (r1, arr, w1)"
    by (metis prod_cases3)
  with w2 have "r1 = r" "c' = c\<lparr>default_mount_opts_array := arr\<rparr>"
    by (simp_all add: insert_default_mount_opts_into_array_def)
  from insert_array_keys [OF i] this assms(2) show ?thesis
    by (simp add: arrays_distinct_def arrays_after_def given_options_def config_default_mount_opts_def
        config_mandatory_mount_opts_def)
qed

lemma mandatory_inserted:
  assumes "config_mount_opts insert_mandatory_mount_opts_into_array f v c w = (r, c', w')" and "arrays_distinct c"
  shows "arrays_distinct c' \<and> (r = ResultSuccess \<longrightarrow> arrays_after [(config_mandatory_mount_opts @ f, v)] c c')"
  using config_mount_opts_inserts [OF assms(1)]
proof
  assume "c' = c \<and> r \<noteq> ResultSuccess"
  with assms(2) show ?thesis by simp
next
  assume "\<exists>w2. insert_mandatory_mount_opts_into_array f (unquote v) c w2 = (r, c', w')"
  then obtain w2 where w2: "insert_mandatory_mount_opts_into_array f (unquote v) c w2 = (r, c', w')" by blast
  obtain r1 arr w1 where i: "insert_mount_opts_into_array f (unquote v) (mandatory_mount_opts_array c) w2 = (r1, arr, w1)"
    by (metis prod_cases3)
  with w2 have "r1 = r" "c' = c\<lparr>mandatory_mount_opts_array := arr\<rparr>"
    by (simp_all add: insert_mandatory_mount_opts_into_array_def)
  from insert_array_keys [OF i] this assms(2) show ?thesis
    by (simp add: arrays_distinct_def arrays_after_def given_options_def config_default_mount_opts_def
        config_mandatory_mount_opts_def)
qed

lemma process_default:
  "process_config_value (config_default_mount_opts @ f) v c w =
     (if f \<noteq> [] \<and> quoted v then config_mount_opts insert_default_mount_opts_into_array f v c w else (ResultFail, c, w))"
  by (simp add: process_config_value_def config_default_mount_opts_def strncmp_eq_def)

lemma process_mandatory:
  "process_config_value (config_mandatory_mount_opts @ f) v c w =
     (if f \<noteq> [] \<and> quoted v then config_mount_opts insert_mandatory_mount_opts_into_array f v c w else (ResultFail, c, w))"
  by (simp add: process_config_value_def config_default_mount_opts_def config_mandatory_mount_opts_def strncmp_eq_def)

lemma prefix_split: "strncmp_eq key p (length p) \<longleftrightarrow> (\<exists>f. key = p @ f)" "take (length p) key = p \<longleftrightarrow> (\<exists>f. key = p @ f)"
  by (simp_all add: strncmp_eq_def) (metis append_take_drop_id append_eq_conv_conj)+

lemma process_other:
  assumes "process_config_value key v c w = (r, c', w')"
    and "\<nexists>f. key = config_default_mount_opts @ f" and "\<nexists>f. key = config_mandatory_mount_opts @ f"
  shows "default_mount_opts_array c' = default_mount_opts_array c \<and> mandatory_mount_opts_array c' = mandatory_mount_opts_array c"
  using assms(1) unfolding process_config_value_def prefix_split(1)
  using assms(2,3) by (auto split: if_splits prod.splits)

lemma process_arrays:
  assumes "process_config_value key v c w = (r, c', w')" and "arrays_distinct c"
  shows "arrays_distinct c' \<and> (r = ResultSuccess \<longrightarrow> arrays_after [(key, v)] c c')"
proof -
  consider f where "key = config_default_mount_opts @ f" | f where "key = config_mandatory_mount_opts @ f"
    | "\<nexists>f. key = config_default_mount_opts @ f" "\<nexists>f. key = config_mandatory_mount_opts @ f" by blast
  then show ?thesis
  proof cases
    case 1
    with assms default_inserted [OF _ assms(2)] show ?thesis by (auto simp: process_default split: if_splits)
  next
    case 2
    with assms mandatory_inserted [OF _ assms(2)] show ?thesis by (auto simp: process_mandatory split: if_splits)
  next
    case 3
    then show ?thesis
      using process_other [OF assms(1) 3] assms(2)
      by (simp add: arrays_distinct_def arrays_after_def given_options_def prefix_split(2))
  qed
qed

lemma arrays_after_append: "arrays_after kvs c c1 \<Longrightarrow> arrays_after kvs2 c1 c2 \<Longrightarrow> arrays_after (kvs @ kvs2) c c2"
  by (simp add: arrays_after_def given_options_def)

lemma read_lines_arrays:
  "read_lines n ls c w = (rc, c', w') \<Longrightarrow> n \<ge> 0 \<Longrightarrow> arrays_distinct c \<Longrightarrow> arrays_distinct c' \<and>
     (rc = read_config_return_ok \<longrightarrow>
       arrays_after (concat (map (\<lambda>l. case parse_line l of Some (Some kv) \<Rightarrow> [kv] | _ \<Rightarrow> []) ls)) c c')"
proof (induction n ls c w arbitrary: rc rule: read_lines.induct)
  case (1 n c w)
  then show ?case by (simp add: arrays_after_def given_options_def)
next
  case (2 n l ls c w)
  consider "parse_line l = None" | "parse_line l = Some None" | key v where "parse_line l = Some (Some (key, v))"
    by (metis option.exhaust surj_pair)
  then show ?case
  proof cases
    case 1
    with "2.prems" show ?thesis by (simp add: read_config_return_ok_def)
  next
    case nothing: 2
    then show ?thesis using "2.IH"(1) "2.prems" by simp
  next
    case 3
    obtain r c1 w1 where pv: "process_config_value key v c w = (r, c1, w1)" by (metis prod_cases3)
    note step = process_arrays [OF pv "2.prems"(3)]
    show ?thesis
    proof (cases "r = ResultSuccess")
      case False
      with 3 pv "2.prems" step show ?thesis by (auto simp: read_config_return_ok_def)
    next
      case True
      with 3 pv "2.prems" have "read_lines (n + 1) ls c1 w1 = (rc, c', w')" by simp
      from "2.IH"(2) [OF 3 refl refl pv [symmetric] refl _ this] True "2.prems" step 3 arrays_after_append [of "[(key, v)]" c c1]
      show ?thesis by auto
    qed
  qed
qed

section \<open>Properties\<close>

text \<open>C29. Whatever the configuration file says, and however reading it ends, the arrays of default and of
  mandatory options have each filesystem once, with an option string its table accepts, so that it
  converts without an error when a device is mounted.  When the whole file was read, they hold
  exactly the options the file gives, in the order of its lines.\<close>

theorem read_config_sound:
  assumes "read_config (Some contents) initial_config w = (rc, c, w')"
  shows "options_array (default_mount_opts_array c) \<and> options_array (mandatory_mount_opts_array c) \<and>
    (rc = read_config_return_ok \<longrightarrow>
       default_mount_opts_array c = given_options config_default_mount_opts (file_settings contents) \<and>
       mandatory_mount_opts_array c = given_options config_mandatory_mount_opts (file_settings contents))"
proof -
  have rd: "read_lines 0 (getlines contents) initial_config w = (rc, c, w')" using assms by (simp add: read_config_def)
  have "config_sound initial_config"
    by (simp add: config_sound_def initial_config_def get_default_mount_options_for_fs_from_config_def
        get_mandatory_mount_options_for_fs_from_config_def)
  then have sound: "config_sound c" using rd read_lines_sound by blast
  have "arrays_distinct initial_config" by (simp add: arrays_distinct_def initial_config_def)
  note arrays = read_lines_arrays [OF rd _ this, simplified, folded file_settings_def]
  have "options_array (default_mount_opts_array c)" "options_array (mandatory_mount_opts_array c)"
    using sound arrays
    by (auto simp: config_sound_def arrays_distinct_def get_default_mount_options_for_fs_from_config_def
        get_mandatory_mount_options_for_fs_from_config_def intro!: options_array_lookup)
  with arrays show ?thesis by (simp add: arrays_after_def initial_config_def)
qed

text \<open>Setting the options of a filesystem a second time does replace them, but is reported as
  a failure, so reading the configuration file stops at that line with an error.\<close>

lemma repeated_options_rejected:
  assumes "process_config_value (config_default_mount_opts @ fs) v c w = (r, c', w')"
    and "get_default_mount_options_for_fs_from_config fs c = Some old" and "fs \<noteq> []"
    and "quoted v" and "options_valid fs (unquote v)" and "allocs w = []"
  shows "r = ResultFail \<and> get_default_mount_options_for_fs_from_config fs c' = Some (unquote v)"
proof -
  obtain t where t: "get_fsopts_for_fs (Some fs) = Some t" "list_all (acceptable t) (option_words (unquote v))"
    using assms(5) by (auto simp: options_valid_def split: option.splits)
  have key: "strncmp_eq (config_default_mount_opts @ fs) config_default_mount_opts (length config_default_mount_opts)"
    by (simp add: strncmp_eq_def)
  have hd: "config_default_mount_opts @ fs \<noteq> s" if "hd s \<noteq> CHR ''d''" "s \<noteq> []" for s
    using that by (cases s) (auto simp: config_default_mount_opts_def)
  have "config_mount_opts insert_default_mount_opts_into_array fs v c w = (r, c', w')"
    using assms(1,3,4) key
    by (simp add: process_config_value_def hd)
  moreover have m: "malloc_all [True, True] w = (True, w)" by (rule malloc_all_no_failure [OF assms(6)])
  moreover obtain r1 l w1 where cv: "convert_options_to_list (Some (unquote v)) (Some t) None None init_options_list w
        = (r1, l, w1)" by (metis prod_cases3)
  moreover have "r1 = ResultSuccess"
    using convert_options_spec [OF _ list_ok_init cv] get_fsopts_for_fs_Some [OF t(1)] t(2) assms(6) by blast
  ultimately have ins: "insert_default_mount_opts_into_array fs (unquote v) c w1 = (r, c', w')"
    using t(1) by (simp add: config_mount_opts_def Let_def del: malloc_all.simps)
  from default_opts.ins_result [OF ins] assms(2) have "r = ResultFail" by auto
  with default_opts.ins_same [OF ins] show ?thesis by simp
qed

lemma read_lines_error:
  assumes "read_lines n ls c w = (k, c', w')" and "k \<noteq> 0"
  shows "\<exists>i < length ls. k = n + int i + 1 \<and> (n \<ge> 0 \<longrightarrow> fst (read_lines n (take i ls) c w) = 0)"
  using assms
proof (induction n ls c w arbitrary: k rule: read_lines.induct)
  case (2 n l ls c w)
  show ?case
  proof (cases "k = n + 1")
    case True
    then show ?thesis by (intro exI [of _ 0]) (simp add: read_config_return_ok_def)
  next
    case False
    obtain c1 w1 where rest: "read_lines (n + 1) ls c1 w1 = (k, c', w')"
      and step: "\<And>xs. read_lines n (l # xs) c w = read_lines (n + 1) xs c1 w1"
      and IH: "\<And>k. read_lines (n + 1) ls c1 w1 = (k, c', w') \<Longrightarrow> k \<noteq> 0 \<Longrightarrow> \<exists>i < length ls.
        k = (n + 1) + int i + 1 \<and> (n + 1 \<ge> 0 \<longrightarrow> fst (read_lines (n + 1) (take i ls) c1 w1) = 0)"
    proof (cases "parse_line l")
      case (Some kv)
      then show thesis
      proof (cases kv)
        case None
        with Some 2 that [of c w] show ?thesis by auto
      next
        case kv: (Some p)
        obtain key v where p: "p = (key, v)" by fastforce
        obtain r c1 w1 where pv: "process_config_value key v c w = (r, c1, w1)" by (metis prod_cases3)
        have "\<not> is_result_failure r"
          using "2.prems"(1) False Some kv p pv by (auto split: if_splits)
        with Some kv p pv "2.prems"(1) "2.IH"(2) [OF Some kv [unfolded p] refl pv [symmetric] refl] that [of c1 w1]
        show ?thesis by auto
      qed
    qed (use 2 False in auto)
    from IH [OF rest "2.prems"(2)] obtain i where "i < length ls" "k = (n + 1) + int i + 1"
      "n + 1 \<ge> 0 \<longrightarrow> fst (read_lines (n + 1) (take i ls) c1 w1) = 0" by blast
    with step show ?thesis by (intro exI [of _ "Suc i"]) simp
  qed
qed (simp add: read_config_return_ok_def)

text \<open>When reading stops at a line, the number returned is that line's: every line before it
  was read without an error.\<close>

lemma read_config_error_line:
  assumes "read_config (Some contents) c w = (k, c', w')" and "k \<noteq> read_config_return_ok"
  shows "\<exists>i < length (getlines contents). k = int i + 1 \<and>
    fst (read_lines 0 (take i (getlines contents)) c w) = read_config_return_ok"
  using read_lines_error [of 0 "getlines contents" c w k c' w'] assms
  by (auto simp: read_config_def read_config_return_ok_def)

section \<open>Scanning\<close>

text \<open>The characters of a key or of a value without quotes, and those between quotes.\<close>

definition plain_word :: "string \<Rightarrow> bool" where
  "plain_word s \<longleftrightarrow> s \<noteq> [] \<and> list_all (\<lambda>c. is_word_char False c \<and> c \<noteq> quote) s"

definition quoted_word :: "string \<Rightarrow> bool" where
  "quoted_word s \<longleftrightarrow> (\<exists>b. s = quote # b @ [quote] \<and> list_all (\<lambda>c. is_word_char True c \<and> c \<noteq> quote) b)"

definition blanks :: "string \<Rightarrow> bool" where
  "blanks s \<longleftrightarrow> list_all (\<lambda>c. isblank (code c)) s"

lemma scan_run:
  assumes "\<And>c i. c \<in> set xs \<Longrightarrow> scan_char i c s = ScanNext s"
  shows "scan_line i (xs @ ys) s = scan_line (i + int (length xs)) ys s"
  using assms by (induction xs arbitrary: i) (auto simp: add.assoc)

lemma word_not_blank: "is_word_char q c \<Longrightarrow> \<not> isblank (code c)"
  by (auto simp: is_word_char_def ctype_simps)

lemma blank_not_word: "isblank (code c) \<Longrightarrow> \<not> is_word_char q c \<and> c \<noteq> CHR ''='' \<and> c \<noteq> CHR ''#''"
  by (auto simp: is_word_char_def ctype_simps)

lemma scan_blanks:
  assumes "blanks b" and "key_start s = -1 \<or> key_end s \<noteq> -1" and "value_start s = -1 \<or> value_end s \<noteq> -1"
  shows "scan_line i (b @ ys) s = scan_line (i + int (length b)) ys s"
proof (rule scan_run)
  fix c i assume "c \<in> set b"
  then have "isblank (code c)" using assms(1) by (simp add: blanks_def list_all_iff)
  with blank_not_word [OF this] assms(2,3) show "scan_char i c s = ScanNext s"
    by (auto simp: scan_char_def Let_def)
qed

lemma scan_key:
  assumes "plain_word k" and "key_start s = -1" "key_end s = -1" "\<not> inside_quotes s" "0 \<le> i"
  shows "scan_line i (k @ ys) s = scan_line (i + int (length k)) ys (s\<lparr>key_start := i\<rparr>)"
proof (cases k)
  case (Cons c cs)
  have "scan_line (i + 1) (cs @ ys) (s\<lparr>key_start := i\<rparr>) =
      scan_line ((i + 1) + int (length cs)) ys (s\<lparr>key_start := i\<rparr>)"
    by (rule scan_run) (use assms Cons in \<open>auto simp: plain_word_def list_all_iff scan_char_def scan_word_def\<close>)
  with Cons assms show ?thesis
    by (simp add: plain_word_def scan_char_def scan_word_def algebra_simps)
qed (use assms in \<open>simp add: plain_word_def\<close>)

lemma scan_value:
  assumes "plain_word v \<or> quoted_word v" and "key_start s \<noteq> -1" "key_end s \<noteq> -1" "equal_start s \<noteq> -1"
    and "value_start s = -1" "value_end s = -1" "\<not> inside_quotes s" "0 \<le> i"
  shows "scan_line i (v @ ys) s = scan_line (i + int (length v)) ys (s\<lparr>value_start := i\<rparr>)"
  using assms(1)
proof
  assume pw: "plain_word v"
  then obtain c cs where v: "v = c # cs" by (cases v) (auto simp: plain_word_def)
  have "scan_line (i + 1) (cs @ ys) (s\<lparr>value_start := i\<rparr>) =
      scan_line ((i + 1) + int (length cs)) ys (s\<lparr>value_start := i\<rparr>)"
    by (rule scan_run) (use assms pw v in \<open>auto simp: plain_word_def list_all_iff scan_char_def scan_word_def\<close>)
  with v pw assms show ?thesis
    by (simp add: plain_word_def scan_char_def scan_word_def algebra_simps)
next
  assume "quoted_word v"
  then obtain b where v: "v = quote # b @ [quote]" "list_all (\<lambda>c. is_word_char True c \<and> c \<noteq> quote) b"
    by (auto simp: quoted_word_def)
  let ?s = "s\<lparr>inside_quotes := True, value_start := i\<rparr>"
  have q: "is_word_char x quote" for x by (simp add: is_word_char_def)
  have "scan_line (i + 1) (b @ (quote # ys)) ?s = scan_line ((i + 1) + int (length b)) (quote # ys) ?s"
    by (rule scan_run) (use assms v in \<open>auto simp: list_all_iff scan_char_def scan_word_def\<close>)
  moreover have "scan_char i quote s = ScanNext ?s"
    using assms q by (simp add: scan_char_def scan_word_def)
  moreover have "scan_char j quote ?s = ScanNext (s\<lparr>value_start := i\<rparr>)" for j
    using assms q by (cases s) (simp add: scan_char_def scan_word_def)
  ultimately show ?thesis by (simp add: v algebra_simps)
qed

text \<open>A line of the form key, equals sign, value, with blanks before the key and around the
  equals sign and the newline right after the value, yields exactly that key and value; the
  value is a word, or a quoted text that may contain commas and equals signs.\<close>

lemma parse_line_key_value:
  assumes "blanks b0" and "plain_word k" and "blanks b1" and "blanks b2" and "plain_word v \<or> quoted_word v"
  shows "parse_line (b0 @ k @ b1 @ ''='' @ b2 @ v @ [CHR 0x0A]) = Some (Some (k, v))"
proof -
  define n0 n1 where "n0 = int (length b0)" and "n1 = n0 + int (length k)"
  define n2 where "n2 = n1 + int (length b1)"
  define n3 where "n3 = n2 + 1 + int (length b2)"
  define n4 where "n4 = n3 + int (length v)"
  define s1 where "s1 = scan_start\<lparr>key_start := n0\<rparr>"
  define s2 where "s2 = s1\<lparr>key_end := n1, equal_start := n2\<rparr>"
  have nn: "0 \<le> n0" "0 \<le> n1" "0 \<le> n2" "0 \<le> n3" "n1 = n0 + int (length k)"
    by (simp_all add: n0_def n1_def n2_def n3_def)
  have eq: "\<not> is_word_char False CHR ''=''" "\<not> isblank (code CHR ''='')" by (simp_all add: is_word_char_def ctype_simps)
  have nl: "\<not> is_word_char False CHR 0x0A" "\<not> isblank (code CHR 0x0A)" by (simp_all add: is_word_char_def ctype_simps)
  let ?r3 = "b2 @ v @ [CHR 0x0A]"
  have "scan_line 0 (b0 @ k @ b1 @ ''='' @ ?r3) scan_start = scan_line n0 (k @ b1 @ ''='' @ ?r3) scan_start"
    using scan_blanks [OF assms(1), of scan_start 0] by (simp add: scan_start_def n0_def)
  also have "\<dots> = scan_line n1 (b1 @ ''='' @ ?r3) s1"
    using scan_key [OF assms(2), of scan_start n0] nn by (simp add: scan_start_def n1_def s1_def)
  also have "\<dots> = scan_line (n2 + 1) ?r3 s2"
  proof (cases b1)
    case Nil
    then show ?thesis
      using eq nn by (simp add: scan_char_def s1_def s2_def scan_start_def n2_def n1_def)
  next
    case (Cons c cs)
    then have c: "isblank (code c)" "blanks cs" using assms(3) by (simp_all add: blanks_def)
    have "scan_line n1 (b1 @ ''='' @ ?r3) s1 = scan_line (n1 + 1) (cs @ ''='' @ ?r3) (s1\<lparr>key_end := n1\<rparr>)"
      using Cons c blank_not_word [OF c(1)] nn by (simp add: scan_char_def Let_def s1_def scan_start_def)
    also have "\<dots> = scan_line n2 (''='' @ ?r3) (s1\<lparr>key_end := n1\<rparr>)"
      using scan_blanks [OF c(2), of "s1\<lparr>key_end := n1\<rparr>" "n1 + 1"] nn Cons
      by (simp add: s1_def scan_start_def n2_def algebra_simps)
    finally show ?thesis using eq nn by (simp add: scan_char_def s1_def s2_def scan_start_def)
  qed
  also have "\<dots> = scan_line n3 (v @ [CHR 0x0A]) s2"
    using scan_blanks [OF assms(4), of s2 "n2 + 1"] nn by (simp add: s2_def s1_def scan_start_def n3_def)
  also have "\<dots> = scan_line n4 [CHR 0x0A] (s2\<lparr>value_start := n3\<rparr>)"
    using scan_value [OF assms(5), of s2 n3] nn by (simp add: s2_def s1_def scan_start_def n4_def)
  also have "\<dots> = Some (s2\<lparr>value_start := n3, value_end := n4\<rparr>)"
    using nl nn by (simp add: scan_char_def s2_def s1_def scan_start_def)
  finally have scan: "scan_line 0 (b0 @ k @ b1 @ ''='' @ ?r3) scan_start =
      Some (s2\<lparr>value_start := n3, value_end := n4\<rparr>)" .
  have key: "slice (b0 @ k @ b1 @ ''='' @ ?r3) n0 n1 = k"
    by (simp add: slice_def n0_def n1_def)
  have val: "slice (b0 @ k @ b1 @ ''='' @ ?r3) n3 n4 = v"
  proof -
    have "nat n3 = length (b0 @ k @ b1 @ ''='' @ b2)"
      by (simp add: n3_def n2_def n1_def n0_def nat_add_distrib)
    then have "drop (nat n3) ((b0 @ k @ b1 @ ''='' @ b2) @ v @ [CHR 0x0A]) = v @ [CHR 0x0A]"
      by (simp only: append_eq_conv_conj [symmetric]) simp
    then show ?thesis by (simp add: slice_def n4_def)
  qed
  have "n4 \<noteq> -1" using nn by (simp add: n4_def)
  with scan key val show ?thesis by (simp add: parse_line_def s2_def s1_def scan_start_def)
qed

section \<open>Witnesses\<close>

abbreviation (input) nl :: string where "nl \<equiv> [CHR 0x0A]"

definition demo_file :: string where
  "demo_file = ''mount_by = label'' @ nl @ ''# comment'' @ nl @
     ''default_mount_opts_vfat = '' @ [quote] @ ''ro,utf8=1'' @ [quote] @ nl @
     ''default_mount_opts_vfat = '' @ [quote] @ ''rw'' @ [quote] @ nl @ ''use_syslog = no'' @ nl"

definition demo_config :: config where
  "demo_config = fst (snd (read_config (Some demo_file) initial_config quiet_io))"

lemma demo_config_val:
  "read_config (Some demo_file) initial_config quiet_io = (4, demo_config, quiet_io)"
  by code_simp

lemma demo_config_opts:
  "get_default_mount_options_for_fs_from_config ''vfat'' demo_config = Some ''rw''"
  by code_simp

definition good_file :: string where
  "good_file = ''mount_by = label'' @ nl @ ''# comment'' @ nl @
     ''default_mount_opts_vfat = '' @ [quote] @ ''ro,utf8=1'' @ [quote] @ nl @
     ''mandatory_mount_opts_vfat = '' @ [quote] @ ''noexec'' @ [quote] @ nl @
     ''default_mount_opts_ntfs = '' @ [quote] @ ''rw'' @ [quote] @ nl"

lemma good_config_val: "\<exists>c. read_config (Some good_file) initial_config quiet_io = (read_config_return_ok, c, quiet_io)"
proof -
  have "fst (read_config (Some good_file) initial_config quiet_io) = read_config_return_ok"
    "snd (snd (read_config (Some good_file) initial_config quiet_io)) = quiet_io" by code_simp+
  then show ?thesis by (metis prod.collapse)
qed

lemma good_settings:
  "given_options config_default_mount_opts (file_settings good_file) = [(''vfat'', ''ro,utf8=1''), (''ntfs'', ''rw'')]"
  "given_options config_mandatory_mount_opts (file_settings good_file) = [(''vfat'', ''noexec'')]"
  by code_simp+

theorem read_config_sound_witness:
  "\<exists>c. read_config (Some good_file) initial_config quiet_io = (read_config_return_ok, c, quiet_io) \<and>
     default_mount_opts_array c = [(''vfat'', ''ro,utf8=1''), (''ntfs'', ''rw'')] \<and>
     mandatory_mount_opts_array c = [(''vfat'', ''noexec'')] \<and> options_valid ''ntfs'' ''rw'' \<and>
     options_array (default_mount_opts_array demo_config)"
proof -
  obtain c where c: "read_config (Some good_file) initial_config quiet_io = (read_config_return_ok, c, quiet_io)"
    using good_config_val by blast
  from read_config_sound [OF c] read_config_sound [OF demo_config_val] c good_settings show ?thesis
    by (auto simp: options_array_def)
qed

text \<open>A blank between the value and the end of the line is an error, and a last line without
  its newline is passed over.\<close>

lemma trailing_blank_rejected: "parse_line (''use_syslog = no '' @ nl) = None"
  by code_simp

lemma unterminated_line_ignored: "parse_line ''use_syslog = no'' = Some None"
  by code_simp

end
