(* ===== verification/Dtmd_Mount_Spec.thy ===== *)
theory Dtmd_Mount_Spec
  imports Dtmd_Mount Dtmd_Config_Spec Dtmd_Mounts_Spec
begin

text \<open>
  What \<^verbatim>\<open>daemon/filesystem_mnt.c\<close> promises: which calls a mount or unmount request makes and
  under which conditions, where devices are mounted, and that every failure has an error
  code for the client.
\<close>

section \<open>The mount path\<close>

lemma calculate_path_shape:
  assumes "calculate_path c path label mt w = (Some mp, mt', w')"
  shows "\<exists>leaf. leaf \<noteq> [] \<and> mp = mount_root c @ ''/'' @ leaf \<and>
    (mt' = mount_by_device_label \<and> mt = mount_by_device_label \<and> label = Some leaf \<or>
     mt' = mount_by_device_name \<and> CHR ''/'' \<notin> set leaf \<and> (\<exists>p. path = p @ ''/'' @ leaf))"
proof (cases "mt = mount_by_device_label \<and> (case label of None \<Rightarrow> False | Some l \<Rightarrow> length l > 0)")
  case True
  with assms show ?thesis by (auto simp: calculate_path_def Let_def split: option.splits prod.splits if_splits)
next
  case False
  then obtain t where t: "strrchr path (CHR ''/'') = Some t" "tl t \<noteq> []" "mp = mount_root c @ ''/'' @ tl t"
      "mt' = mount_by_device_name"
    using assms by (auto simp: calculate_path_def Let_def split: option.splits prod.splits if_splits)
  from strrchr_Some [OF t(1)] t show ?thesis by (intro exI [of _ "tl t"]) auto
qed

text \<open>A path found is of that shape and no entry of the mount table is mounted there.\<close>

definition not_mounted_at :: "string \<Rightarrow> mntent list \<Rightarrow> bool" where
  "not_mounted_at mp es \<longleftrightarrow> list_all (\<lambda>e. mnt_dir e \<noteq> Some mp) es"

definition mount_leaf :: "string \<Rightarrow> string option \<Rightarrow> string \<Rightarrow> bool" where
  "mount_leaf path label leaf \<longleftrightarrow> leaf \<noteq> [] \<and>
     (label = Some leaf \<or> CHR ''/'' \<notin> set leaf \<and> (\<exists>p. path = p @ ''/'' @ leaf))"

lemma count_zero: "point_mount_count mp 1 mounts = 0 \<longleftrightarrow> (\<exists>es. mounts = Some es \<and> not_mounted_at mp es)"
proof (cases mounts)
  case (Some es)
  have "filter (\<lambda>e. mnt_dir e = Some mp) es = [] \<longleftrightarrow> not_mounted_at mp es"
    by (auto simp: not_mounted_at_def list_all_iff filter_empty_conv)
  with Some point_mount_count_counts [of mp 1 es] show ?thesis
    by (cases "filter (\<lambda>e. mnt_dir e = Some mp) es") (auto simp: Let_def min_def)
qed (simp add: point_mount_count_def)

lemma find_mount_path_free:
  "find_mount_path c mounts path label mt w = (Inr mp, w') \<Longrightarrow>
   (\<exists>es. mounts = Some es \<and> not_mounted_at mp es) \<and>
   (\<exists>leaf. mount_leaf path label leaf \<and> mp = mount_root c @ ''/'' @ leaf)"
proof (induction c mounts path label mt w rule: find_mount_path.induct)
  case (1 c mounts path label mt w)
  obtain r mt1 w1 where cp: "calculate_path c path label mt w = (r, mt1, w1)" by (metis prod_cases3)
  show ?case
  proof (cases r)
    case None
    with 1(2) cp show ?thesis by (simp add: find_mount_path.simps [of c mounts path label mt w])
  next
    case (Some p)
    note step = 1(2) [unfolded find_mount_path.simps [of c mounts path label mt w] cp Some Let_def]
    show ?thesis
    proof (cases "point_mount_count p 1 mounts = 0")
      case True
      with step have "mp = p" by simp
      with True calculate_path_shape [OF cp [unfolded Some]] show ?thesis
        by (auto simp: count_zero mount_leaf_def)
    next
      case False
      with step have mt1: "mt1 = mount_by_device_label" "\<not> point_mount_count p 1 mounts < 0"
        by (auto split: if_splits mount_by_value_enum.splits)
      with step False have "find_mount_path c mounts path label mount_by_device_name w1 = (Inr mp, w')"
        by simp
      with 1(1) [OF cp [symmetric] Some refl refl False mt1(2,1)] show ?thesis by simp
    qed
  qed
qed

text \<open>An error of the search comes with a failure result.\<close>

lemma find_mount_path_error:
  "find_mount_path c mounts path label mt w = (Inl (r, e), w') \<Longrightarrow> r \<noteq> ResultSuccess"
proof (induction c mounts path label mt w rule: find_mount_path.induct)
  case (1 c mounts path label mt w)
  obtain p mt1 w1 where cp: "calculate_path c path label mt w = (p, mt1, w1)" by (metis prod_cases3)
  note step = 1(2) [unfolded find_mount_path.simps [of c mounts path label mt w] cp Let_def]
  show ?case
  proof (cases p)
    case (Some q)
    show ?thesis
    proof (cases "point_mount_count q 1 mounts \<noteq> 0 \<and> \<not> point_mount_count q 1 mounts < 0 \<and>
        mt1 = mount_by_device_label")
      case True
      with step Some 1(1) [OF cp [symmetric] Some] show ?thesis by simp
    qed (use step Some in \<open>auto split: if_splits mount_by_value_enum.splits\<close>)
  qed (use step in auto)
qed

section \<open>The calls of a mount\<close>

text \<open>The call that mounts the device, for the options \<open>l\<close>.\<close>

definition option_suffix :: "string \<Rightarrow> string" where
  "option_suffix s = (if s = [] then [] else '' -o '' @ s)"

definition mount_call :: "filesystem_options \<Rightarrow> string \<Rightarrow> string \<Rightarrow> fsopts_list \<Rightarrow> syscall" where
  "mount_call fs path mp l = (case external_fstype fs of
     Some e \<Rightarrow> SysSystem (mount_command e path mp @ option_suffix (join_comma (full_texts l)))
   | None \<Rightarrow> SysMount path mp (fs_fstype fs) (foldl add_flag 0 (items l)) (join_comma (plain_texts l)))"

lemma generate_sizes:
  "\<exists>full str flags. fsopts_generate_string (Some l) None 0 None 0 = Inr (full, str, flags) \<and>
     ob_len full = length (join_comma (full_texts l)) \<and> ob_len str = length (join_comma (plain_texts l))"
proof -
  obtain full str flags where g: "fsopts_generate_string (Some l) None 0 None 0 = Inr (full, str, flags)"
    using generate_string_total by blast
  from generate_string_holds [OF g] g show ?thesis by (auto simp: holds_def)
qed

lemma generate_filled:
  "\<exists>full str. fsopts_generate_string (Some l)
      (Some (fresh_memory (length (join_comma (full_texts l))))) (length (join_comma (full_texts l)))
      (Some (fresh_memory (length (join_comma (plain_texts l))))) (length (join_comma (plain_texts l)))
      = Inr (full, str, foldl add_flag 0 (items l)) \<and>
    ob_mem full = Some (join_comma (full_texts l)) \<and> ob_mem str = Some (join_comma (plain_texts l))"
proof -
  obtain full str flags where g: "fsopts_generate_string (Some l)
      (Some (fresh_memory (length (join_comma (full_texts l))))) (length (join_comma (full_texts l)))
      (Some (fresh_memory (length (join_comma (plain_texts l))))) (length (join_comma (plain_texts l)))
      = Inr (full, str, flags)"
    using generate_string_total by blast
  from generate_string_holds [OF g] g show ?thesis by (auto simp: holds_def stored_def fresh_memory_def)
qed

lemma generate_filled_full:
  "\<exists>full str fl. fsopts_generate_string (Some l)
      (Some (fresh_memory (length (join_comma (full_texts l))))) (length (join_comma (full_texts l))) None 0
      = Inr (full, str, fl) \<and> ob_mem full = Some (join_comma (full_texts l))"
proof -
  obtain full str flags where g: "fsopts_generate_string (Some l)
      (Some (fresh_memory (length (join_comma (full_texts l))))) (length (join_comma (full_texts l))) None 0
      = Inr (full, str, flags)"
    using generate_string_total by blast
  from generate_string_holds [OF g] g show ?thesis by (auto simp: holds_def stored_def fresh_memory_def)
qed

lemma mount_external_calls:
  assumes "external_fstype fs = Some e" and "invoke_mount_external os path mp e l w k = (r, w', k')"
  shows "r = ResultFatalError \<and> k' = k \<or>
    r \<in> {ResultSuccess, ResultFail} \<and> syscalls k' = syscalls k @ [mount_call fs path mp l]"
proof -
  obtain full str flags where g: "fsopts_generate_string (Some l) None 0 None 0 = Inr (full, str, flags)"
    "ob_len full = length (join_comma (full_texts l))" using generate_sizes by blast
  obtain full2 str2 fl2 where g2: "fsopts_generate_string (Some l)
      (Some (fresh_memory (length (join_comma (full_texts l))))) (length (join_comma (full_texts l))) None 0
      = Inr (full2, str2, fl2)" "ob_mem full2 = Some (join_comma (full_texts l))"
    using generate_filled_full by blast
  show ?thesis
    using assms g g2
    by (auto simp: invoke_mount_external_def Let_def sys_system_def mount_call_def option_suffix_def
        split: prod.splits if_splits)
qed

lemma mount_internal_calls:
  assumes "external_fstype fs = None" and "invoke_mount_internal os path mp (fs_fstype fs) l w k = (r, w', k')"
  shows "r = ResultFatalError \<and> k' = k \<or>
    r \<in> {ResultSuccess, ResultFail} \<and> syscalls k' = syscalls k @ [mount_call fs path mp l]"
proof -
  obtain full str flags where g: "fsopts_generate_string (Some l) None 0 None 0 = Inr (full, str, flags)"
    "ob_len full = length (join_comma (full_texts l))" "ob_len str = length (join_comma (plain_texts l))"
    using generate_sizes by blast
  obtain full2 str2 where g2: "fsopts_generate_string (Some l)
      (Some (fresh_memory (length (join_comma (full_texts l))))) (length (join_comma (full_texts l)))
      (Some (fresh_memory (length (join_comma (plain_texts l))))) (length (join_comma (plain_texts l)))
      = Inr (full2, str2, foldl add_flag 0 (items l))"
    "ob_mem full2 = Some (join_comma (full_texts l))" "ob_mem str2 = Some (join_comma (plain_texts l))"
    using generate_filled by blast
  show ?thesis
    using assms g g2
    by (auto simp: invoke_mount_internal_def Let_def sys_mount_def mount_call_def simp del: malloc_all.simps
        split: prod.splits if_splits)
qed

text \<open>Whether the directory has to be made, and cannot be.\<close>

definition mkdir_fails :: "'k os \<Rightarrow> string \<Rightarrow> 'k kernel \<Rightarrow> bool" where
  "mkdir_fails os mp k \<longleftrightarrow> get_dir_state os mp k = dir_state_not_dir \<and> \<not> fst (sys_mkdir os mp k)"

lemma mount_at_calls:
  assumes "mount_at os fs path mp l w k = (r, e, w', k')"
  shows "(r = ResultSuccess \<longleftrightarrow> e = None) \<and> r \<in> {ResultSuccess, ResultFail, ResultFatalError} \<and>
    (mkdir_fails os mp k \<longrightarrow> r = ResultFail) \<and>
    syscalls k' = syscalls k @ (if get_dir_state os mp k = dir_state_not_dir then [SysMkdir mp] else []) @
      (if mkdir_fails os mp k then []
       else (if r = ResultFatalError then [] else [mount_call fs path mp l]) @
         (if r = ResultSuccess then [] else [SysRmdir mp]))"
proof -
  obtain ok k1 where mk: "(if get_dir_state os mp k = dir_state_not_dir then sys_mkdir os mp k
      else (True, k)) = (ok, k1)" by fastforce
  then have pre: "syscalls k1 = syscalls k @ (if get_dir_state os mp k = dir_state_not_dir then [SysMkdir mp] else [])"
    and fails: "mkdir_fails os mp k \<longleftrightarrow> \<not> ok"
    by (auto simp: mkdir_fails_def sys_mkdir_def split: prod.splits if_splits)
  obtain r1 w1 k2 where m: "(case external_fstype fs of
        Some e \<Rightarrow> invoke_mount_external os path mp e l w k1
      | None \<Rightarrow> invoke_mount_internal os path mp (fs_fstype fs) l w k1) = (r1, w1, k2)" by (metis prod_cases3)
  have calls: "r1 = ResultFatalError \<and> k2 = k1 \<or>
    r1 \<in> {ResultSuccess, ResultFail} \<and> syscalls k2 = syscalls k1 @ [mount_call fs path mp l]"
  proof (cases "external_fstype fs")
    case None
    with m have "invoke_mount_internal os path mp (fs_fstype fs) l w k1 = (r1, w1, k2)" by simp
    from mount_internal_calls [OF None this] show ?thesis .
  next
    case (Some e')
    with m have "invoke_mount_external os path mp e' l w k1 = (r1, w1, k2)" by simp
    from mount_external_calls [OF Some this] show ?thesis .
  qed
  show ?thesis
  proof (cases ok)
    case False
    with assms mk have "r = ResultFail" "e \<noteq> None" "k' = k1" by (auto simp: mount_at_def)
    with pre fails False show ?thesis by simp
  next
    case True
    show ?thesis
    proof (cases "r1 = ResultSuccess")
      case s: True
      with True assms mk m have "r = ResultSuccess" "e = None" "k' = k2" by (simp_all add: mount_at_def)
      with pre fails True calls s show ?thesis by auto
    next
      case s: False
      with True assms mk m have "r = r1" "e \<noteq> None" "syscalls k' = syscalls k2 @ [SysRmdir mp]"
        by (auto simp: mount_at_def sys_rmdir_def)
      with pre fails True calls s show ?thesis by auto
    qed
  qed
qed

section \<open>The whole request\<close>

lemma mandatory_flags:
  assumes "fs \<in> set filesystem_mount_options" and "list_ok fs l"
    and "convert_options_to_list (Some (fs_mandatory_options fs)) (Some fs) uid gid l w = (ResultSuccess, l', w')"
  shows "foldl add_flag 0 (items l') AND MS_NODEV = MS_NODEV \<and>
    foldl add_flag 0 (items l') AND MS_NOSUID = MS_NOSUID"
proof -
  note c = convert_options_spec [OF assms]
  then have ok: "items_ok fs (items l')" by (simp add: list_ok_def)
  have "(FlagKey MS_NODEV, ''nodev'') \<in> set (map abs_item (items l'))"
    "(FlagKey MS_NOSUID, ''nosuid'') \<in> set (map abs_item (items l'))"
    using mandatory_in_list [OF assms(1)] c by blast+
  then show ?thesis using word_in_list_flag [OF ok] nodev_nosuid_enable by blast
qed

text \<open>What holds when a request gets as far as choosing a mount path.\<close>

definition mount_admitted ::
  "'k os \<Rightarrow> config \<Rightarrow> media list \<Rightarrow> string \<Rightarrow> 'k kernel \<Rightarrow> filesystem_options \<Rightarrow> string \<Rightarrow> fsopts_list \<Rightarrow> bool" where
  "mount_admitted os c root path k fs mp l \<longleftrightarrow>
     (\<exists>m es leaf. dtmd_find_media path root = Some m \<and> md_mnt_point (m_info m) = None \<and>
        get_fsopts_for_fs (md_fstype (m_info m)) = Some fs \<and>
        os_mounts os (kstate k) = Some es \<and> not_mounted_at mp es \<and>
        mount_leaf path (md_label (m_info m)) leaf \<and> mp = mount_root c @ ''/'' @ leaf) \<and>
     list_ok fs l \<and>
     (choose_mandatory fs c = fs_mandatory_options fs \<longrightarrow>
        foldl add_flag 0 (items l) AND MS_NODEV = MS_NODEV \<and>
        foldl add_flag 0 (items l) AND MS_NOSUID = MS_NOSUID)"

text \<open>What a request comes to: the filesystem, the directory, the options and the state of the memory with
  which mounting is tried, unless the request is refused before that.\<close>

definition mount_choice :: "'k os \<Rightarrow> config \<Rightarrow> media list \<Rightarrow> int \<Rightarrow> string \<Rightarrow> string option \<Rightarrow> mount_by_value_enum \<Rightarrow>
    io \<Rightarrow> 'k kernel \<Rightarrow> (filesystem_options \<times> string \<times> fsopts_list \<times> io) option" where
  "mount_choice os c root fd path mo mt w k =
     Option.bind (dtmd_find_media path root) (\<lambda>m.
     if md_fstype (m_info m) = None \<or> md_mnt_point (m_info m) \<noteq> None then None
     else Option.bind (get_credentials os fd k) (\<lambda>(uid, gid).
     Option.bind (get_fsopts_for_fs (md_fstype (m_info m))) (\<lambda>fs.
     let (r1, l1, w1) = convert_options_to_list (Some (choose_options mo fs c)) (Some fs) (Some uid) (Some gid) init_options_list w;
         (r2, l2, w2) = convert_options_to_list (Some (choose_mandatory fs c)) (Some fs) None None l1 w1
     in if r1 \<noteq> ResultSuccess \<or> r2 \<noteq> ResultSuccess then None
        else case find_mount_path c (os_mounts os (kstate k)) path (md_label (m_info m)) mt w2 of
          (Inl _, _) \<Rightarrow> None | (Inr mp, w3) \<Rightarrow> Some (fs, mp, l2, w3))))"

lemma invoke_mount_outcome:
  assumes "invoke_mount os c root fd path mo mt w k = (r, e, w', k')"
  shows "case mount_choice os c root fd path mo mt w k of
      None \<Rightarrow> r \<noteq> ResultSuccess \<and> e \<noteq> None \<and> k' = k
    | Some (fs, mp, l, w0) \<Rightarrow> mount_admitted os c root path k fs mp l \<and> mount_at os fs path mp l w0 k = (r, e, w', k')"
proof (cases "dtmd_find_media path root")
  case (Some m)
  show ?thesis
  proof (cases "md_fstype (m_info m) = None \<or> md_mnt_point (m_info m) \<noteq> None \<or> get_credentials os fd k = None \<or>
      get_fsopts_for_fs (md_fstype (m_info m)) = None")
    case True
    with assms Some show ?thesis
      by (cases "get_credentials os fd k") (auto simp: invoke_mount_def mount_choice_def split: if_splits)
  next
    case False
    then obtain uid gid fs where guards: "md_fstype (m_info m) \<noteq> None" "md_mnt_point (m_info m) = None"
      "get_credentials os fd k = Some (uid, gid)" "get_fsopts_for_fs (md_fstype (m_info m)) = Some fs" by auto
    have fs: "fs \<in> set filesystem_mount_options" using get_fsopts_for_fs_Some [OF guards(4)] by simp
    obtain r1 l1 w1 where c1: "convert_options_to_list (Some (choose_options mo fs c)) (Some fs) (Some uid)
        (Some gid) init_options_list w = (r1, l1, w1)" by (metis prod_cases3)
    obtain r2 l2 w2 where c2: "convert_options_to_list (Some (choose_mandatory fs c)) (Some fs) None None l1 w1
        = (r2, l2, w2)" by (metis prod_cases3)
    obtain p w3 where p: "find_mount_path c (os_mounts os (kstate k)) path (md_label (m_info m)) mt w2 = (p, w3)"
      by fastforce
    have ok1: "list_ok fs l1" using convert_options_spec [OF fs list_ok_init c1] by blast
    have ok2: "list_ok fs l2" using convert_options_spec [OF fs ok1 c2] by blast
    show ?thesis
    proof (cases "r1 = ResultSuccess \<and> r2 = ResultSuccess")
      case False
      with Some guards c1 c2 have "mount_choice os c root fd path mo mt w k = None"
        by (auto simp: mount_choice_def)
      with False assms Some guards c1 c2 show ?thesis by (auto simp: invoke_mount_def split: if_splits)
    next
      case True
      show ?thesis
      proof (cases p)
        case (Inl re)
        then obtain r3 e3 where e: "p = Inl (r3, e3)" by (cases re) auto
        with Some guards c1 c2 p True have "mount_choice os c root fd path mo mt w k = None"
          by (simp add: mount_choice_def)
        with e assms Some guards c1 c2 p True find_mount_path_error show ?thesis
          by (auto simp: invoke_mount_def)
      next
        case (Inr mp)
        with assms Some guards c1 c2 p True have at: "mount_at os fs path mp l2 w3 k = (r, e, w', k')"
          by (simp add: invoke_mount_def)
        have "choose_mandatory fs c = fs_mandatory_options fs \<longrightarrow>
            foldl add_flag 0 (items l2) AND MS_NODEV = MS_NODEV \<and>
            foldl add_flag 0 (items l2) AND MS_NOSUID = MS_NOSUID"
          using mandatory_flags [OF fs ok1, of None None w1 l2 w2] c2 True by auto
        with find_mount_path_free [OF p [unfolded Inr]] Some guards ok2
        have "mount_admitted os c root path k fs mp l2" by (auto simp: mount_admitted_def)
        moreover have "mount_choice os c root fd path mo mt w k = Some (fs, mp, l2, w3)"
          using Some guards c1 c2 p True Inr by (simp add: mount_choice_def)
        ultimately show ?thesis using at by simp
      qed
    qed
  qed
qed (use assms in \<open>auto simp: invoke_mount_def mount_choice_def\<close>)

lemma unmount_common_outcome:
  assumes "invoke_unmount_common os path mp fstype w k = (r, e, w', k')"
  shows "r = ResultSuccess \<longleftrightarrow> e = None"
  using assms
  by (auto simp: invoke_unmount_common_def invoke_unmount_external_def invoke_unmount_internal_def Let_def
      split: option.splits prod.splits if_splits umount_result.splits)

lemma mount_code:
  "invoke_mount os c root fd path mo mt w k = (r, e, w', k') \<Longrightarrow> r = ResultSuccess \<longleftrightarrow> e = None"
  by (drule invoke_mount_outcome) (auto dest: mount_at_calls split: option.splits)

lemma unmount_code:
  "invoke_unmount os root path w k = (r, e, w', k') \<Longrightarrow> r = ResultSuccess \<longleftrightarrow> e = None"
  by (auto simp: invoke_unmount_def split: option.splits dest: unmount_common_outcome)

section \<open>Properties\<close>

text \<open>C4. A mount request that succeeds is for a known device that the daemon holds for unmounted,
  with a supported filesystem; the device is mounted by exactly one call, with options
  that passed the filesystem's table, in a directory under the mount root that nothing
  is mounted on and that was created only if needed.  Unless the configuration replaces
  them, the mandatory flags are set.\<close>

theorem invoke_mount_success:
  assumes "invoke_mount os c root fd path mo mt w k = (ResultSuccess, e, w', k')"
  shows "\<exists>fs mp l pre. mount_admitted os c root path k fs mp l \<and> (pre = [] \<or> pre = [SysMkdir mp]) \<and>
    syscalls k' = syscalls k @ pre @ [mount_call fs path mp l]"
proof -
  from invoke_mount_outcome [OF assms] obtain fs mp l w0 where
    a: "mount_admitted os c root path k fs mp l" "mount_at os fs path mp l w0 k = (ResultSuccess, e, w', k')"
    by (auto split: option.splits)
  note calls = mount_at_calls [OF a(2)]
  then have "\<not> mkdir_fails os mp k" by auto
  with a(1) calls show ?thesis by (intro exI conjI) (assumption, auto)
qed

text \<open>C34. A mount request that fails before a directory and options for an admissible device were chosen
  makes no call.  After that it makes the directory if it is missing, and when that fails nothing
  else; otherwise it tries the mount exactly once, unless memory runs out, and its last call removes
  the directory.\<close>

theorem invoke_mount_failure:
  assumes "invoke_mount os c root fd path mo mt w k = (r, e, w', k')" and "r \<noteq> ResultSuccess"
  shows "case mount_choice os c root fd path mo mt w k of
      None \<Rightarrow> k' = k
    | Some (fs, mp, l, w0) \<Rightarrow> mount_admitted os c root path k fs mp l \<and> r \<in> {ResultFail, ResultFatalError} \<and>
        syscalls k' = syscalls k @ (if get_dir_state os mp k = dir_state_not_dir then [SysMkdir mp] else []) @
          (if mkdir_fails os mp k then []
           else (if r = ResultFatalError then [] else [mount_call fs path mp l]) @ [SysRmdir mp])"
  using invoke_mount_outcome [OF assms(1)] assms(2)
  by (auto dest: mount_at_calls split: option.splits)

text \<open>The error code a client is told is always assigned: a mount or unmount request has an
  error code exactly when it did not succeed.\<close>

lemma failures_carry_error_code:
  "(fst (invoke_mount os c root fd path mo mt w k) = ResultSuccess \<longleftrightarrow>
      fst (snd (invoke_mount os c root fd path mo mt w k)) = None) \<and>
   (fst (invoke_unmount os root path w k) = ResultSuccess \<longleftrightarrow>
      fst (snd (invoke_unmount os root path w k)) = None)"
  by (metis prod.collapse mount_code unmount_code)

text \<open>C30. A device is unmounted only from the mount point the daemon has recorded for it; through
  the kernel only when that is the mount point of exactly one entry of the mount table; and
  the directory is removed only after success, when it is empty.\<close>

theorem invoke_unmount_calls:
  assumes "invoke_unmount os root path w k = (r, e, w', k')" and "k' \<noteq> k"
  shows "\<exists>m mp fs post. dtmd_find_media path root = Some m \<and> md_mnt_point (m_info m) = Some mp \<and>
    get_fsopts_for_fs (md_fstype (m_info m)) = Some fs \<and>
    (case external_fstype fs of
       Some ext \<Rightarrow> syscalls k' = syscalls k @ SysSystem (unmount_command ext mp) # post
     | None \<Rightarrow> syscalls k' = syscalls k @ SysUmount mp # post \<and>
         (\<exists>es. os_mounts os (kstate k) = Some es \<and>
            length (filter (\<lambda>x. mnt_dir x = Some mp) es) = 1)) \<and>
    (post = [] \<or> post = [SysRmdir mp] \<and> r = ResultSuccess)"
proof -
  from assms obtain m mp where m: "dtmd_find_media path root = Some m" "md_mnt_point (m_info m) = Some mp"
    and u: "invoke_unmount_common os (m_path m) mp (md_fstype (m_info m)) w k = (r, e, w', k')"
    by (auto simp: invoke_unmount_def split: option.splits)
  from u assms(2) obtain fs where fs: "get_fsopts_for_fs (md_fstype (m_info m)) = Some fs"
    by (auto simp: invoke_unmount_common_def split: option.splits)
  have one: "point_mount_count mp 2 mounts = 1 \<Longrightarrow> \<exists>es. mounts = Some es \<and>
      length (filter (\<lambda>x. mnt_dir x = Some mp) es) = 1" for mounts
    using point_mount_count_counts [of mp 2] by (cases mounts) (auto simp: point_mount_count_def Let_def min_def split: if_splits)
  show ?thesis
  proof (cases "external_fstype fs")
    case (Some ext)
    from u fs Some assms(2) have "\<exists>post. syscalls k' = syscalls k @ SysSystem (unmount_command ext mp) # post \<and>
        (post = [] \<or> post = [SysRmdir mp] \<and> r = ResultSuccess)"
      by (auto simp: invoke_unmount_common_def invoke_unmount_external_def sys_defs
          split: prod.splits if_splits)
    with m fs Some show ?thesis by auto
  next
    case None
    from u fs None assms(2) have "\<exists>post. syscalls k' = syscalls k @ SysUmount mp # post \<and>
        (post = [] \<or> post = [SysRmdir mp] \<and> r = ResultSuccess) \<and>
        point_mount_count mp 2 (os_mounts os (kstate k)) = 1"
      by (auto simp: invoke_unmount_common_def invoke_unmount_internal_def sys_defs Let_def
          split: prod.splits if_splits umount_result.splits)
    with m fs None one show ?thesis by auto
  qed
qed

text \<open>The directory handed to the external mount program inside single quotes cannot end them:
  when the mount root and the device's path have no quotes, no mount path has one, whatever
  the volume's label was.\<close>

lemma mount_path_keeps_quoting:
  assumes "media_ok root" and "dtmd_find_media path root = Some m"
    and "no_quotes (mount_root c)" and "no_quotes path"
    and "find_mount_path c mounts path (md_label (m_info m)) mt w = (Inr mp, w')"
  shows "no_quotes mp"
proof -
  obtain leaf where leaf: "mount_leaf path (md_label (m_info m)) leaf" "mp = mount_root c @ ''/'' @ leaf"
    using find_mount_path_free [OF assms(5)] by blast
  obtain pp where f: "find_at None path root = Some (pp, m)"
    using assms(2) by (auto simp: dtmd_find_media_def)
  have "(pp, path, m_info m) \<in> set (nodes None root)" using find_at_Some [OF f] by simp
  with media_ok_nodes [OF assms(1)] have "info_ok (m_info m)" by force
  then have "no_quotes leaf"
    using leaf(1) assms(4) by (auto simp: mount_leaf_def info_ok_def no_quotes_def)
  with leaf(2) assms(3) show ?thesis by (auto simp: no_quotes_def)
qed

section \<open>The exit status of the mount program\<close>

text \<open>\<open>system\<close> returns a wait status, in which the exit code 16 of \<^verbatim>\<open>mount\<close> ("problems writing
  mtab") is \<open>16 * 256\<close>: the case the code treats as success never applies, and such a mount
  is reported as failed.\<close>

lemma mtab_problem_reported_as_failure:
  assumes "\<And>cmd s. os_system os cmd s = (16 * 256, s)" and "allocs w = []"
  shows "fst (invoke_mount_external os path mp fstype l w k) = ResultFail"
proof -
  obtain full str flags where g: "fsopts_generate_string (Some l) None 0 None 0 = Inr (full, str, flags)"
    "ob_len full = length (join_comma (full_texts l))" using generate_sizes by blast
  obtain full2 str2 fl2 where g2: "fsopts_generate_string (Some l)
      (Some (fresh_memory (length (join_comma (full_texts l))))) (length (join_comma (full_texts l))) None 0
      = Inr (full2, str2, fl2)" "ob_mem full2 = Some (join_comma (full_texts l))"
    using generate_filled_full by blast
  show ?thesis using g g2 assms
    by (simp add: invoke_mount_external_def Let_def sys_system_def malloc_no_failure)
qed

section \<open>Witnesses\<close>

text \<open>An operating system on which every call succeeds and only \<^verbatim>\<open>/proc\<close> is mounted.\<close>

definition demo_os :: "unit os" where
  "demo_os = \<lparr>os_mounts = (\<lambda>_. Some (take 1 demo_mounts)), os_credentials = (\<lambda>_ _. Some (1000, 100)),
     os_readdir = (\<lambda>_ p. if p = ''/media/a'' then Some [(''.'', True), (''..'', True)] else None),
     os_stat = (\<lambda>_ p. if p = ''/media'' \<or> p = ''/media/a'' then StatDir else StatError), os_mkdir = (\<lambda>_ s. (True, s)), os_rmdir = (\<lambda>_ s. s),
     os_mount = (\<lambda>_ _ _ _ _ s. (True, s)), os_umount = (\<lambda>_ s. (UmountOk, s)), os_system = (\<lambda>_ s. (0, s)),
     os_mtab = (\<lambda>_. \<lparr>mtab_regular = False, mtab = None, tmp_opens = False, add_succeeds = [],
        stat_succeeds = False, chmod_succeeds = False, chown_succeeds = False, rename_succeeds = False\<rparr>),
     os_set_mtab = (\<lambda>_ s. s), os_open_device = (\<lambda>_ _. True), os_open_write = (\<lambda>_ _. True),
     os_fsync = (\<lambda>_ s. (True, s)), os_sg_v4 = (\<lambda>_ _ s. (SgStatus 0 0 0, s)),
     os_sg_v3 = (\<lambda>_ _ s. (SgStatus 0 0 0, s)), os_write = (\<lambda>_ _ s. (Some 1, s))\<rparr>"

definition failing_os :: "unit os" where
  "failing_os = demo_os\<lparr>os_mount := (\<lambda>_ _ _ _ _ s. (False, s))\<rparr>"

definition mounted_os :: "unit os" where
  "mounted_os = demo_os\<lparr>os_mounts := (\<lambda>_. Some [\<lparr>mnt_fsname = ''/dev/sdb1'', mnt_dir = Some ''/media/a'',
     mnt_type = ''vfat'', mnt_opts = Some ''rw''\<rparr>])\<rparr>"

definition demo_kernel :: "unit kernel" where
  "demo_kernel = \<lparr>kstate = (), syscalls = []\<rparr>"

text \<open>The tree of \<open>disk_daemon\<close> with the partition unmounted.\<close>

definition idle_root :: "media list" where
  "idle_root = removable_media_root (snd (change_media
     (part_desc\<lparr>d_mnt_point := None, d_mnt_opts := None\<rparr>) None disk_daemon))"

definition mount_run :: "unit os \<Rightarrow> result \<times> error_code option \<times> io \<times> unit kernel" where
  "mount_run os = invoke_mount os initial_config idle_root 5 ''/dev/sdb1'' (Some ''ro'') mount_by_device_label
     quiet_io demo_kernel"

definition run_user :: "result \<times> fsopts_list \<times> io" where
  "run_user = convert_options_to_list (Some ''ro'') (Some vfat) (Some 1000) (Some 100) init_options_list quiet_io"

definition run_both :: "result \<times> fsopts_list \<times> io" where
  "run_both = convert_options_to_list (Some (fs_mandatory_options vfat)) (Some vfat) None None
     (fst (snd run_user)) quiet_io"

definition run_media :: media where
  "run_media = the (dtmd_find_media ''/dev/sdb1'' idle_root)"

definition run_path :: string where
  "run_path = ''/media/'' @ the (md_label (m_info run_media))"

lemma run_parts:
  "fst run_user = ResultSuccess" "snd (snd run_user) = quiet_io"
  "fst run_both = ResultSuccess" "snd (snd run_both) = quiet_io"
  "dtmd_find_media ''/dev/sdb1'' idle_root = Some run_media"
  "md_fstype (m_info run_media) = Some ''vfat''" "md_mnt_point (m_info run_media) = None"
  "find_mount_path initial_config (Some (take 1 demo_mounts)) ''/dev/sdb1'' (md_label (m_info run_media))
     mount_by_device_label quiet_io = (Inr run_path, quiet_io)"
  by code_simp+

lemma vfat_fsopts: "get_fsopts_for_fs (Some ''vfat'') = Some vfat"
  by (simp add: get_fsopts_for_fs_def filesystem_mount_options_def)

definition run_choice :: "unit os \<Rightarrow> (filesystem_options \<times> string \<times> fsopts_list \<times> io) option" where
  "run_choice os = mount_choice os initial_config idle_root 5 ''/dev/sdb1'' (Some ''ro'') mount_by_device_label
     quiet_io demo_kernel"

lemma mount_run_at:
  assumes "os_mounts os () = Some (take 1 demo_mounts)" and "os_credentials os () 5 = Some (1000, 100)"
  shows "mount_run os = mount_at os vfat ''/dev/sdb1'' run_path (fst (snd run_both)) quiet_io demo_kernel"
    and "run_choice os = Some (vfat, run_path, fst (snd run_both), quiet_io)"
proof -
  obtain l1 where 1: "run_user = (ResultSuccess, l1, quiet_io)" using run_parts(1,2) by (metis prod.collapse)
  obtain l2 where 2: "run_both = (ResultSuccess, l2, quiet_io)" using run_parts(3,4) by (metis prod.collapse)
  have l1: "fst (snd run_user) = l1" unfolding 1 by simp
  have l2: "fst (snd run_both) = l2" unfolding 2 by simp
  have m: "choose_mandatory vfat initial_config = fs_mandatory_options vfat"
    by (simp add: choose_mandatory_def initial_config_def get_mandatory_mount_options_for_fs_from_config_def
        filesystem_mount_options_def)
  have c1: "convert_options_to_list (Some ''ro'') (Some vfat) (Some 1000) (Some 100) init_options_list quiet_io
      = (ResultSuccess, l1, quiet_io)" using 1 by (simp only: run_user_def)
  have c2: "convert_options_to_list (Some (fs_mandatory_options vfat)) (Some vfat) None None l1 quiet_io
      = (ResultSuccess, l2, quiet_io)"
    using 2 unfolding run_both_def l1 .
  have "invoke_mount os initial_config idle_root 5 ''/dev/sdb1'' (Some ''ro'') mount_by_device_label quiet_io demo_kernel
      = mount_at os vfat ''/dev/sdb1'' run_path l2 quiet_io demo_kernel"
    using assms run_parts(5-8)
    by (simp add: invoke_mount_def vfat_fsopts get_credentials_def demo_kernel_def choose_options_def m c1 c2)
  then show "mount_run os = mount_at os vfat ''/dev/sdb1'' run_path (fst (snd run_both)) quiet_io demo_kernel"
    unfolding l2 mount_run_def .
  have "mount_choice os initial_config idle_root 5 ''/dev/sdb1'' (Some ''ro'') mount_by_device_label quiet_io demo_kernel
      = Some (vfat, run_path, l2, quiet_io)"
    using assms run_parts(5-8)
    by (simp add: mount_choice_def vfat_fsopts get_credentials_def demo_kernel_def choose_options_def m c1 c2)
  then show "run_choice os = Some (vfat, run_path, fst (snd run_both), quiet_io)"
    unfolding l2 run_choice_def .
qed

lemma vfat_internal: "external_fstype vfat = None"
  by (simp add: filesystem_mount_options_def)

lemma mount_internal_result:
  assumes "\<And>dev dir t f opts s. os_mount os dev dir t f opts s = (ok, s)" and "allocs w = []"
  shows "fst (invoke_mount_internal os path mp t l w k) = (if ok then ResultSuccess else ResultFail)"
proof -
  obtain full str flags where g: "fsopts_generate_string (Some l) None 0 None 0 = Inr (full, str, flags)"
    using generate_string_total by blast
  obtain full2 str2 flags2 where g2: "fsopts_generate_string (Some l)
      (Some (fresh_memory (ob_len full))) (ob_len full) (Some (fresh_memory (ob_len str))) (ob_len str)
      = Inr (full2, str2, flags2)" using generate_string_total by blast
  have "malloc_all [True, True] w = (True, w)" by (rule malloc_all_no_failure [OF assms(2)])
  with g g2 assms(1) show ?thesis
    by (simp add: invoke_mount_internal_def Let_def sys_mount_def del: malloc_all.simps)
qed

lemma mount_run_val: "fst (mount_run demo_os) = ResultSuccess" "fst (mount_run failing_os) = ResultFail"
proof -
  have at: "fst (mount_at os vfat ''/dev/sdb1'' run_path l quiet_io demo_kernel) =
      (if ok then ResultSuccess else ResultFail)"
    if mnt: "\<And>dev dir t f opts s. os_mount os dev dir t f opts s = (ok, s)"
      and mkd: "\<And>p s. os_mkdir os p s = (True, s)"
    for os :: "unit os" and ok l
  proof -
    obtain b k1 where bk: "(if get_dir_state os run_path demo_kernel = dir_state_not_dir
        then sys_mkdir os run_path demo_kernel else (True, demo_kernel)) = (b, k1)" by fastforce
    then have "b" using mkd by (auto simp: sys_mkdir_def split: if_splits)
    with bk have k1: "(if get_dir_state os run_path demo_kernel = dir_state_not_dir
        then sys_mkdir os run_path demo_kernel else (True, demo_kernel)) = (True, k1)" by simp
    obtain r w' k2 where m: "invoke_mount_internal os ''/dev/sdb1'' run_path (fs_fstype vfat) l quiet_io k1 = (r, w', k2)"
      by (metis prod_cases3)
    have "r = (if ok then ResultSuccess else ResultFail)"
      using mount_internal_result [of os ok quiet_io, OF mnt] m by (metis fst_conv quiet_io_def io.select_convs(1))
    with k1 m vfat_internal show ?thesis by (simp add: mount_at_def)
  qed
  show "fst (mount_run demo_os) = ResultSuccess"
  proof -
    have "mount_run demo_os = mount_at demo_os vfat ''/dev/sdb1'' run_path (fst (snd run_both)) quiet_io demo_kernel"
      by (rule mount_run_at(1)) (simp_all add: demo_os_def)
    moreover have "os_mount demo_os dev dir t f opts s = (True, s)" "os_mkdir demo_os p s = (True, s)"
      for dev dir t f opts s p by (simp_all add: demo_os_def)
    ultimately show ?thesis using at [of demo_os True] by simp
  qed
  show "fst (mount_run failing_os) = ResultFail"
  proof -
    have "mount_run failing_os = mount_at failing_os vfat ''/dev/sdb1'' run_path (fst (snd run_both)) quiet_io demo_kernel"
      by (rule mount_run_at(1)) (simp_all add: failing_os_def demo_os_def)
    moreover have "os_mount failing_os dev dir t f opts s = (False, s)" "os_mkdir failing_os p s = (True, s)"
      for dev dir t f opts s p by (simp_all add: failing_os_def demo_os_def)
    ultimately show ?thesis using at [of failing_os False] by simp
  qed
qed

theorem invoke_mount_success_witness:
  "\<exists>fs mp l pre. mount_admitted demo_os initial_config idle_root ''/dev/sdb1'' demo_kernel fs mp l \<and>
     syscalls (snd (snd (snd (mount_run demo_os)))) = pre @ [mount_call fs ''/dev/sdb1'' mp l]"
proof -
  obtain r e w' k' where m: "mount_run demo_os = (r, e, w', k')" by (metis prod_cases4)
  with mount_run_val(1) have "r = ResultSuccess" by simp
  from invoke_mount_success [OF m [unfolded mount_run_def this]] m show ?thesis
    by (simp add: demo_kernel_def) blast
qed

lemma failing_run:
  "run_choice failing_os = Some (vfat, run_path, fst (snd run_both), quiet_io)"
  "get_dir_state failing_os run_path demo_kernel = dir_state_not_dir" "\<not> mkdir_fails failing_os run_path demo_kernel"
proof -
  show "run_choice failing_os = Some (vfat, run_path, fst (snd run_both), quiet_io)"
    by (rule mount_run_at(2)) (simp_all add: failing_os_def demo_os_def)
  show "get_dir_state failing_os run_path demo_kernel = dir_state_not_dir" by code_simp
  show "\<not> mkdir_fails failing_os run_path demo_kernel"
    by (simp add: mkdir_fails_def sys_mkdir_def failing_os_def demo_os_def)
qed

theorem invoke_mount_failure_witness:
  "syscalls (snd (snd (snd (mount_run failing_os)))) =
     [SysMkdir run_path, mount_call vfat ''/dev/sdb1'' run_path (fst (snd run_both)), SysRmdir run_path]"
proof -
  obtain e w' k' where m: "mount_run failing_os = (ResultFail, e, w', k')"
    using mount_run_val(2) by (cases "mount_run failing_os") auto
  have "ResultFail \<noteq> ResultSuccess" by simp
  from invoke_mount_failure [OF m [unfolded mount_run_def] this] failing_run m show ?thesis
    by (simp add: run_choice_def demo_kernel_def)
qed

definition unmount_run :: "result \<times> error_code option \<times> io \<times> unit kernel" where
  "unmount_run = invoke_unmount mounted_os (removable_media_root disk_daemon) ''/dev/sdb1'' quiet_io demo_kernel"

lemma unmount_run_val:
  "unmount_run = (ResultSuccess, None, quiet_io, \<lparr>kstate = (), syscalls = [SysUmount ''/media/a'', SysRmdir ''/media/a'']\<rparr>)"
  by code_simp

theorem invoke_unmount_calls_witness:
  "\<exists>fs mp post. get_fsopts_for_fs (Some ''vfat'') = Some fs \<and> external_fstype fs = None \<and>
     syscalls (snd (snd (snd unmount_run))) = SysUmount mp # post \<and> (post = [] \<or> post = [SysRmdir mp])"
proof -
  have "\<lparr>kstate = (), syscalls = [SysUmount ''/media/a'', SysRmdir ''/media/a'']\<rparr> \<noteq> demo_kernel"
    by (simp add: demo_kernel_def)
  from invoke_unmount_calls [OF unmount_run_val [unfolded unmount_run_def] this]
  obtain m mp fs post where m: "dtmd_find_media ''/dev/sdb1'' (removable_media_root disk_daemon) = Some m"
    and fs: "get_fsopts_for_fs (md_fstype (m_info m)) = Some fs"
    and calls: "case external_fstype fs of
       Some ext \<Rightarrow> [SysUmount ''/media/a'', SysRmdir ''/media/a''] = SysSystem (unmount_command ext mp) # post
     | None \<Rightarrow> [SysUmount ''/media/a'', SysRmdir ''/media/a''] = SysUmount mp # post"
    and post: "post = [] \<or> post = [SysRmdir mp]"
    by (auto simp: demo_kernel_def split: option.splits)
  have "map_option (\<lambda>m. md_fstype (m_info m)) (dtmd_find_media ''/dev/sdb1'' (removable_media_root disk_daemon)) =
      Some (Some ''vfat'')" by code_simp
  with m fs calls post show ?thesis by (auto simp: unmount_run_val split: option.splits)
qed

end
