(* ===== verification/Dtmd_Poweroff_Spec.thy ===== *)
theory Dtmd_Poweroff_Spec
  imports Dtmd_Poweroff Dtmd_Mount_Spec
begin

text \<open>
  What powering a device off does: nothing while the daemon knows any device below it to be
  mounted, and otherwise a fixed order of system calls that name only that device.
\<close>

section \<open>The tree is idle\<close>

definition not_mounted :: "node \<Rightarrow> bool" where
  "not_mounted n = (case n of (_, _, i) \<Rightarrow> md_mnt_point i = None)"

lemma check_not_mounted:
  "check_if_devices_are_not_mounted ms = ResultSuccess \<longleftrightarrow> list_all not_mounted (nodes par ms)"
  by (induction ms arbitrary: par rule: check_if_devices_are_not_mounted.induct)
     (auto simp: not_mounted_def)

section \<open>System calls\<close>

text \<open>A SCSI command: one request, and a second one in the older interface if the driver asks
  for it.\<close>

definition scsi_calls :: "string \<Rightarrow> 8 word list \<Rightarrow> bool \<Rightarrow> syscall list" where
  "scsi_calls dev cdb old = SysSgV4 dev cdb # (if old then [SysSgV3 dev cdb] else [])"

definition poweroff_calls :: "string \<Rightarrow> string \<Rightarrow> bool \<Rightarrow> bool \<Rightarrow> syscall list" where
  "poweroff_calls dev sysfs old1 old2 = SysFsync dev # scsi_calls dev synchronize_cache_cdb old1 @
     scsi_calls dev start_stop_unit_cdb old2"

lemma send_scsi_calls:
  "send_scsi_command_sync os dev cdb k = (r, k') \<Longrightarrow>
   \<exists>old. syscalls k' = syscalls k @ scsi_calls dev cdb old"
  by (fastforce simp: send_scsi_command_sync_def sys_defs scsi_calls_def
      split: prod.splits sg_result.splits if_splits)

lemma poweroff_outcome:
  assumes "poweroff os dev sysfs w k = (r, e, w', k')"
  shows "(r = ResultSuccess \<longleftrightarrow> e = None) \<and>
    (k' = k \<and> r \<noteq> ResultSuccess \<or>
     syscalls k' = syscalls k @ [SysFsync dev] \<and> r \<noteq> ResultSuccess \<or>
     (\<exists>old1 old2. syscalls k' = syscalls k @ poweroff_calls dev sysfs old1 old2) \<and> r \<noteq> ResultSuccess \<or>
     (\<exists>old1 old2. syscalls k' = syscalls k @ poweroff_calls dev sysfs old1 old2 @
        [SysWrite (sysfs @ ''/remove'') ''1'']))"
proof -
  obtain b k1 where 1: "sys_fsync os dev k = (b, k1)" by fastforce
  obtain r2 k2 where 2: "send_scsi_synchronize_cache_command_sync os dev k1 = (r2, k2)" by fastforce
  obtain r3 k3 where 3: "send_scsi_start_stop_unit_command_sync os dev k2 = (r3, k3)" by fastforce
  obtain n k4 where 4: "sys_write os (sysfs @ ''/remove'') ''1'' k3 = (n, k4)" by fastforce
  have s1: "syscalls k1 = syscalls k @ [SysFsync dev]" using 1 by (auto simp: sys_defs split: prod.splits)
  obtain old1 where s2: "syscalls k2 = syscalls k1 @ scsi_calls dev synchronize_cache_cdb old1"
    using send_scsi_calls 2 unfolding send_scsi_synchronize_cache_command_sync_def by blast
  obtain old2 where s3: "syscalls k3 = syscalls k2 @ scsi_calls dev start_stop_unit_cdb old2"
    using send_scsi_calls 3 unfolding send_scsi_start_stop_unit_command_sync_def by blast
  have s4: "syscalls k4 = syscalls k3 @ [SysWrite (sysfs @ ''/remove'') ''1'']"
    using 4 by (auto simp: sys_defs split: prod.splits)
  have s123: "syscalls k3 = syscalls k @ poweroff_calls dev sysfs old1 old2"
    using s1 s2 s3 by (simp add: poweroff_calls_def)
  with s4 have s1234: "syscalls k4 = syscalls k @ poweroff_calls dev sysfs old1 old2 @
      [SysWrite (sysfs @ ''/remove'') ''1'']" by simp
  from assms 1 2 3 4
  have "(k' = k \<or> k' = k1 \<or> k' = k3) \<and> r = ResultFail \<and> e \<noteq> None \<or> k' = k4 \<and> (r = ResultSuccess \<longleftrightarrow> e = None)"
    by (auto simp: poweroff_def Let_def split: if_splits)
  with s1 s123 s1234 show ?thesis by auto
qed

lemma invoke_poweroff_outcome:
  assumes "invoke_poweroff os root path w k = (r, e, w', k')"
  shows "r \<noteq> ResultSuccess \<and> e \<noteq> None \<and> k' = k \<or>
    (\<exists>m sysfs. dtmd_find_media path root = Some m \<and> md_type (m_info m) = media_type_stateless_device \<and>
      list_all not_mounted (nodes None [m]) \<and> md_sysfs_path (m_info m) = Some sysfs \<and>
      poweroff os path sysfs w k = (r, e, w', k'))"
  using assms
  by (auto simp: invoke_poweroff_def poweroff_check_if_device_is_not_mounted_def check_not_mounted [where par=None]
      split: option.splits if_splits)

section \<open>Properties\<close>

text \<open>C18. A device is powered off only when it is a stateless device of the tree and neither it
  nor any device below it is known to be mounted.  Then the data is flushed, the cache is
  synchronised, the unit is stopped and only after that the device is removed through its
  own sysfs path; success is reported only after that last write.\<close>

theorem invoke_poweroff_calls:
  assumes "invoke_poweroff os root path w k = (r, e, w', k')" and "k' \<noteq> k"
  shows "\<exists>m sysfs calls. dtmd_find_media path root = Some m \<and>
    md_type (m_info m) = media_type_stateless_device \<and> list_all not_mounted (nodes None [m]) \<and>
    md_sysfs_path (m_info m) = Some sysfs \<and> syscalls k' = syscalls k @ calls \<and>
    (\<exists>old1 old2. calls = poweroff_calls path sysfs old1 old2 @ [SysWrite (sysfs @ ''/remove'') ''1''] \<or>
      r \<noteq> ResultSuccess \<and> (calls = [SysFsync path] \<or> calls = poweroff_calls path sysfs old1 old2))"
proof -
  from invoke_poweroff_outcome [OF assms(1)] assms(2) obtain m sysfs where
    m: "dtmd_find_media path root = Some m" "md_type (m_info m) = media_type_stateless_device"
      "list_all not_mounted (nodes None [m])" "md_sysfs_path (m_info m) = Some sysfs"
    and p: "poweroff os path sysfs w k = (r, e, w', k')" by auto
  from poweroff_outcome [OF p] assms(2) m show ?thesis by (auto 0 4)
qed

section \<open>Witnesses\<close>

definition stateless_root :: "media list" where
  "stateless_root = [Media ''/dev/sdc'' \<lparr>md_type = media_type_stateless_device,
     md_subtype = media_subtype_removable_disk, md_state = media_state_unknown, md_fstype = None,
     md_label = None, md_mnt_point = None, md_mnt_opts = None, md_sysfs_path = Some ''/sys/c'',
     md_mount_counter = 0\<rparr> []]"

lemma poweroff_run:
  "invoke_poweroff demo_os stateless_root ''/dev/sdc'' quiet_io demo_kernel =
     (ResultSuccess, None, quiet_io, \<lparr>kstate = (), syscalls =
        poweroff_calls ''/dev/sdc'' ''/sys/c'' False False @ [SysWrite ''/sys/c/remove'' ''1'']\<rparr>)"
  by code_simp

theorem invoke_poweroff_calls_witness:
  "\<exists>m sysfs old1 old2. dtmd_find_media ''/dev/sdc'' stateless_root = Some m \<and> list_all not_mounted (nodes None [m]) \<and>
     md_sysfs_path (m_info m) = Some sysfs \<and>
     syscalls (snd (snd (snd (invoke_poweroff demo_os stateless_root ''/dev/sdc'' quiet_io demo_kernel)))) =
       poweroff_calls ''/dev/sdc'' sysfs old1 old2 @ [SysWrite (sysfs @ ''/remove'') ''1'']"
proof -
  have "\<lparr>kstate = (), syscalls = poweroff_calls ''/dev/sdc'' ''/sys/c'' False False @
      [SysWrite ''/sys/c/remove'' ''1'']\<rparr> \<noteq> demo_kernel"
    by (simp add: demo_kernel_def)
  from invoke_poweroff_calls [OF poweroff_run this] show ?thesis
    unfolding poweroff_run by (simp add: demo_kernel_def) blast
qed

end
