(* ===== verification/Dtmd_Actions_Spec.thy ===== *)
theory Dtmd_Actions_Spec
  imports Dtmd_Actions Dtmd_Poweroff_Spec
begin

text \<open>
  The answers to a client's commands: only the asking client is written to, the tree and the
  client list stay as they are, a listing is complete and bracketed, and a mount, unmount or
  poweroff command is answered by exactly one message that tells its result.
\<close>

section \<open>Operations that only allocate\<close>

definition alloc_only :: "io \<Rightarrow> io \<Rightarrow> bool" where
  "alloc_only w w' \<longleftrightarrow> (\<exists>a. w' = w\<lparr>allocs := a\<rparr>)"

lemma alloc_only_refl [simp]: "alloc_only w w"
  unfolding alloc_only_def by (rule exI [of _ "allocs w"]) simp

lemma alloc_only_trans: "alloc_only u v \<Longrightarrow> alloc_only v w \<Longrightarrow> alloc_only u w"
  unfolding alloc_only_def by force

lemma alloc_only_malloc: "malloc w = (ok, w') \<Longrightarrow> alloc_only w w'"
  by (auto simp: malloc_def alloc_only_def split: list.splits intro: exI [of _ "allocs w"])

lemma alloc_only_malloc_all: "malloc_all cs w = (ok, w') \<Longrightarrow> alloc_only w w'"
proof (induction cs w arbitrary: ok w' rule: malloc_all.induct)
  case (3 cs w)
  then show ?case
    by (auto split: prod.splits if_splits intro: alloc_only_trans dest!: alloc_only_malloc)
qed simp_all

lemma alloc_only_insert_option: "insert_option opt len p l w = (r, l', w') \<Longrightarrow> alloc_only w w'"
  by (auto simp: insert_option_def Let_def split: prod.splits if_splits simp del: malloc_all.simps
      dest: alloc_only_malloc_all)

lemma alloc_only_convert_loop: "convert_loop opt fs l w = (r, l', w') \<Longrightarrow> alloc_only w w'"
proof (induction "length opt" arbitrary: opt l w rule: less_induct)
  case less
  let ?n = "length (takeWhile (\<lambda>c. c \<noteq> comma) opt)"
  have rest: "drop ?n opt = x # xs \<Longrightarrow> length xs < length opt" for x xs
    by (drule arg_cong [of _ _ length]) auto
  from less.prems show ?case
    by (subst (asm) convert_loop.simps)
       (auto simp: Let_def split: if_splits option.splits prod.splits list.splits
          dest!: alloc_only_insert_option dest: rest less.hyps intro: alloc_only_trans)
qed

lemma alloc_only_add_id: "add_id name num i w = (r, i', w') \<Longrightarrow> alloc_only w w'"
  by (auto simp: add_id_def split: option.splits prod.splits if_splits dest: alloc_only_malloc)

lemma alloc_only_convert:
  assumes "convert_options_to_list opts fs uid gid l w = (r, l', w')"
  shows "alloc_only w w'"
proof (cases "opts = None \<or> fs = None")
  case False
  then obtain os f where os: "opts = Some os" "fs = Some f" by auto
  obtain r1 i1 w1 where 1: "(if os = [] then (ResultSuccess, items l, w) else convert_loop os f (items l) w) = (r1, i1, w1)"
    by (metis prod_cases3)
  then have a1: "alloc_only w w1" by (auto split: if_splits dest: alloc_only_convert_loop)
  obtain r2 u w2 where 2: "add_id (fs_option_uid f) uid (option_uid l) w1 = (r2, u, w2)" by (metis prod_cases3)
  obtain r3 g w3 where 3: "add_id (fs_option_gid f) gid (option_gid l) w2 = (r3, g, w3)" by (metis prod_cases3)
  from assms os 1 2 3 have "w' = w1 \<or> w' = w2 \<or> w' = w3"
    by (auto simp: convert_options_to_list_def Let_def split: if_splits)
  with a1 alloc_only_add_id [OF 2] alloc_only_add_id [OF 3] show ?thesis
    by (meson alloc_only_trans)
qed (use assms in \<open>auto simp: convert_options_to_list_def split: option.splits\<close>)

lemma alloc_only_calculate_path: "calculate_path c p l mt w = (mp, mt', w') \<Longrightarrow> alloc_only w w'"
  by (auto simp: calculate_path_def Let_def split: if_splits option.splits prod.splits dest: alloc_only_malloc)

lemma alloc_only_find_mount_path: "find_mount_path c ms p l mt w = (r, w') \<Longrightarrow> alloc_only w w'"
proof -
  have by_name: "find_mount_path c ms p l mount_by_device_name w = (r, w') \<Longrightarrow> alloc_only w w'" for w
    by (auto simp: find_mount_path_code(1) Let_def split: prod.splits option.splits if_splits
        dest: alloc_only_calculate_path)
  show "find_mount_path c ms p l mt w = (r, w') \<Longrightarrow> alloc_only w w'"
    by (cases mt)
       (auto simp: find_mount_path_code(2) Let_def split: prod.splits option.splits if_splits
          mount_by_value_enum.splits dest!: alloc_only_calculate_path dest: by_name intro: alloc_only_trans)
qed

lemma alloc_only_mount_external: "invoke_mount_external os p mp t l w k = (r, w', k') \<Longrightarrow> alloc_only w w'"
  by (auto simp: invoke_mount_external_def Let_def split: sum.splits prod.splits if_splits dest!: alloc_only_malloc)

lemma alloc_only_mount_internal: "invoke_mount_internal os p mp t l w k = (r, w', k') \<Longrightarrow> alloc_only w w'"
  by (auto simp: invoke_mount_internal_def Let_def split: sum.splits prod.splits if_splits
      simp del: malloc_all.simps dest!: alloc_only_malloc_all)

lemma alloc_only_mount_at: "mount_at os fs p mp l w k = (r, e, w', k') \<Longrightarrow> alloc_only w w'"
  by (auto simp: mount_at_def split: prod.splits if_splits option.splits
      dest!: alloc_only_mount_external alloc_only_mount_internal)

lemma alloc_only_mount:
  assumes "invoke_mount os c root fd p mo mt w k = (r, e, w', k')"
  shows "alloc_only w w'"
proof (cases "w' = w")
  case False
  with assms obtain fs r1 l1 w1 uid gid where
    1: "convert_options_to_list (Some (choose_options mo fs c)) (Some fs) (Some uid) (Some gid) init_options_list w
      = (r1, l1, w1)"
    and rest: "w' = w1 \<or> (\<exists>r2 l2 w2. convert_options_to_list (Some (choose_mandatory fs c)) (Some fs) None None l1 w1
        = (r2, l2, w2) \<and> (w' = w2 \<or> (\<exists>ms lab x w3. find_mount_path c ms p lab mt w2 = (x, w3) \<and>
          (w' = w3 \<or> (\<exists>mp. mount_at os fs p mp l2 w3 k = (r, e, w', k'))))))"
    by (auto simp: invoke_mount_def split: option.splits prod.splits if_splits sum.splits) blast+
  note a1 = alloc_only_convert [OF 1]
  from rest show ?thesis
    using a1 by (auto intro: alloc_only_trans dest!: alloc_only_convert alloc_only_find_mount_path alloc_only_mount_at)
qed simp

lemma alloc_only_unmount: "invoke_unmount os root p w k = (r, e, w', k') \<Longrightarrow> alloc_only w w'"
  by (auto simp: invoke_unmount_def invoke_unmount_common_def invoke_unmount_external_def
      invoke_unmount_internal_def Let_def split: option.splits prod.splits if_splits umount_result.splits
      dest!: alloc_only_malloc)

text \<open>Powering off touches nothing of the environment unless the sysfs path is too long.\<close>

lemma poweroff_io: "invoke_poweroff os root p w k = (r, e, w', k') \<Longrightarrow> w' = w \<or> w' = undefined_behaviour w"
  by (auto simp: invoke_poweroff_def poweroff_def Let_def split: option.splits prod.splits if_splits)

section \<open>Who is written to\<close>

definition only_to :: "int \<Rightarrow> io \<Rightarrow> io \<Rightarrow> bool" where
  "only_to fd w w' \<longleftrightarrow> (\<exists>ms. sent w' = sent w @ map (Pair fd) ms) \<and> closed w' = closed w"

lemma only_to_refl [simp]: "only_to fd w w"
  unfolding only_to_def by (auto intro: exI [of _ "[]"])

lemma only_to_trans: "only_to fd u v \<Longrightarrow> only_to fd v w \<Longrightarrow> only_to fd u w"
  unfolding only_to_def by (metis append.assoc map_append)

lemma only_to_alloc: "alloc_only w w' \<Longrightarrow> only_to fd w w'"
  unfolding only_to_def alloc_only_def by (auto intro: exI [of _ "[]"])

lemma only_to_undefined [simp]: "only_to fd w (undefined_behaviour w)"
  unfolding only_to_def undefined_behaviour_def by (auto intro: exI [of _ "[]"])

lemma only_to_dprintf: "dprintf fd s w = (ok, w') \<Longrightarrow> only_to fd w w'"
  unfolding only_to_def dprintf_def
  by (auto split: list.splits if_splits intro: exI [of _ "[s]"] exI [of _ "[]"])

lemma only_to_reply: "reply fd s r w = (r', w') \<Longrightarrow> only_to fd w w'"
  by (auto simp: reply_def split: prod.splits dest: only_to_dprintf)

lemma only_to_print_common:
  "print_removable_device_common action fd a w = (r, w') \<Longrightarrow> only_to fd w w'"
  by (auto simp: print_removable_device_common_def split: option.splits prod.splits dest: only_to_dprintf)

lemma only_to_print_devices: "print_devices fd par ms w = (r, w') \<Longrightarrow> only_to fd w w'"
proof (induction fd par ms w arbitrary: r w' rule: print_devices.induct)
  case (2 fd par q i cs ms w)
  obtain r1 w1 where 1: "print_removable_device_common ''removable_device'' fd (node_desc par q i) w = (r1, w1)"
    by fastforce
  obtain r2 w2 where 2: "print_devices fd (Some q) cs w1 = (r2, w2)" by fastforce
  note o1 = only_to_print_common [OF 1]
  have o2: "only_to fd w1 w2" if "r1 = ResultSuccess"
    using "2.IH"(1) [OF 1 [symmetric] _ 2] that by simp
  have o3: "only_to fd w2 w'" if "print_devices fd par ms w2 = (r, w')" "r1 = ResultSuccess" "r2 = ResultSuccess"
    using "2.IH"(2) [OF 1 [symmetric] _ 2 [symmetric] _ that(1)] that by simp
  from "2.prems" 1 2 o1 o2 o3 show ?case
    by (auto split: if_splits intro: only_to_trans)
qed simp

lemma only_to_print_names: "print_names fd first ss w = (ok, w') \<Longrightarrow> only_to fd w w'"
proof (induction ss arbitrary: first w)
  case (Cons s ss)
  obtain b1 w1 where 1: "(if first then (True, w) else dprintf fd '', '' w) = (b1, w1)" by fastforce
  obtain b2 w2 where 2: "dprintf fd (print_plain s) w1 = (b2, w2)" by fastforce
  have "only_to fd w w1" using 1 by (auto split: if_splits dest: only_to_dprintf)
  moreover have "only_to fd w1 w2" using only_to_dprintf [OF 2] .
  ultimately show ?case
    using Cons 1 2 by (auto split: if_splits intro: only_to_trans)
qed simp

lemma only_to_print_list: "print_list fd h ns t w = (r, w') \<Longrightarrow> only_to fd w w'"
  by (auto simp: print_list_def split: prod.splits if_splits
      dest!: only_to_dprintf only_to_print_names only_to_reply intro: only_to_trans)

lemma only_to_listings:
  "list_all_command fd root w = (r, w') \<Longrightarrow> only_to fd w w'"
  "list_device_command fd root path w = (r, w') \<Longrightarrow> only_to fd w w'"
  "invoke_list_supported_filesystems fd w = (r, w') \<Longrightarrow> only_to fd w w'"
  "invoke_list_supported_filesystem_options fd fs w = (r, w') \<Longrightarrow> only_to fd w w'"
  by (auto simp: list_all_command_def list_device_command_def print_all_removable_devices_def
      print_all_removable_devices_recursive_def invoke_list_supported_filesystems_def
      invoke_list_supported_filesystem_options_def Let_def split: prod.splits if_splits option.splits
      dest!: only_to_dprintf only_to_print_devices only_to_reply only_to_print_list intro: only_to_trans)

lemma only_to_answer: "answer fd name as r e w = (r', w') \<Longrightarrow> only_to fd w w'"
  by (auto simp: answer_def split: if_splits option.splits dest: only_to_reply)

lemma only_to_actions:
  "invoke_mount os c root f p mo mt w k = (r, e, w', k') \<Longrightarrow> only_to fd w w'"
  "invoke_unmount os root p w k = (r, e, w', k') \<Longrightarrow> only_to fd w w'"
  "invoke_poweroff os root p w k = (r, e, w', k') \<Longrightarrow> only_to fd w w'"
  by (auto dest: alloc_only_mount alloc_only_unmount poweroff_io intro: only_to_alloc)

text \<open>The commands that act on a device, with their arguments.\<close>

definition run_action ::
  "'k os \<Rightarrow> config \<Rightarrow> int \<Rightarrow> dt_command \<Rightarrow> daemon \<Rightarrow> 'k kernel \<Rightarrow>
   result \<times> error_code option \<times> io \<times> 'k kernel" where
  "run_action os c fd command d k =
     (let p = the (args command ! 0); root = removable_media_root d in
      if cmd command = command_mount
        then invoke_mount os c root fd p (args command ! 1) (mount_by_value c) (world d) k
      else if cmd command = command_unmount then invoke_unmount os root p (world d) k
      else invoke_poweroff os root p (world d) k)"

definition action_command :: "dt_command \<Rightarrow> bool" where
  "action_command command \<longleftrightarrow>
     (cmd command = command_mount \<and> length (args command) = 2 \<or>
      (cmd command = command_unmount \<or> cmd command = command_poweroff) \<and> length (args command) = 1) \<and>
     args command ! 0 \<noteq> None"

lemma two_args: "length xs = 2 \<Longrightarrow> xs = [xs ! 0, xs ! 1]"
  by (cases xs; cases "tl xs") auto

lemma one_arg: "length xs = 1 \<Longrightarrow> xs = [xs ! 0]"
  by (cases xs) auto

lemma command_names_apart [simp]:
  "command_unmount \<noteq> command_mount" "command_poweroff \<noteq> command_mount" "command_poweroff \<noteq> command_unmount"
  "command_mount \<noteq> command_list_all" "command_unmount \<noteq> command_list_all" "command_poweroff \<noteq> command_list_all"
  "command_mount \<noteq> command_list_device" "command_unmount \<noteq> command_list_device"
  "command_poweroff \<noteq> command_list_device" "command_list_device \<noteq> command_list_all"
  "command_poweroff \<noteq> command_list_filesystems" "command_poweroff \<noteq> command_list_options"
  by (simp_all add: command_names)

lemma invoke_command_action:
  assumes "action_command command" and "run_action os c fd command d k = (r, e, w1, k1)"
  shows "invoke_command os c fd command d k =
    (case answer fd (cmd command) (map print_arg (args command)) r e w1 of (r2, w2) \<Rightarrow> (r2, d\<lparr>world := w2\<rparr>, k1))"
proof -
  obtain name as where c: "command = \<lparr>cmd = name, args = as\<rparr>" by (cases command)
  from assms(1) c consider (mount) p o' where "name = command_mount" "as = [Some p, o']"
    | (unmount) p where "name = command_unmount" "as = [Some p]"
    | (poweroff) p where "name = command_poweroff" "as = [Some p]"
    using two_args [of as] one_arg [of as] by (auto simp: action_command_def)
  then show ?thesis
  proof cases
    case mount
    with c assms(2) show ?thesis by (simp add: run_action_def invoke_command_def Let_def)
  next
    case unmount
    with c assms(2) show ?thesis by (simp add: run_action_def invoke_command_def Let_def)
  next
    case poweroff
    with c assms(2) show ?thesis by (simp add: run_action_def invoke_command_def Let_def)
  qed
qed

definition same_output :: "io \<Rightarrow> io \<Rightarrow> bool" where
  "same_output w w' \<longleftrightarrow> sent w' = sent w \<and> writes w' = writes w \<and> closed w' = closed w"

lemma same_output_simps [simp]: "alloc_only w w' \<Longrightarrow> same_output w w'" "same_output w (undefined_behaviour w)"
  "same_output w w"
  by (auto simp: same_output_def alloc_only_def undefined_behaviour_def)

lemma poweroff_code:
  "invoke_poweroff os root p w k = (r, e, w', k') \<Longrightarrow> r = ResultSuccess \<longleftrightarrow> e = None"
  using poweroff_outcome by (fastforce dest!: invoke_poweroff_outcome)

lemma action_result:
  assumes "run_action os c fd command d k = (r, e, w1, k1)"
  shows "r = ResultSuccess \<longleftrightarrow> e = None" and "same_output (world d) w1"
  using assms
  by (auto simp: run_action_def Let_def split: if_splits
      dest: mount_code unmount_code poweroff_code alloc_only_mount alloc_only_unmount poweroff_io)

lemma invoke_command_world:
  assumes i: "invoke_command os c fd command d k = (r, d', k')"
  shows "\<exists>w'. d' = d\<lparr>world := w'\<rparr> \<and> only_to fd (world d) w'"
proof (cases "action_command command")
  case True
  obtain r1 e w1 k1 where a: "run_action os c fd command d k = (r1, e, w1, k1)" by (metis prod_cases4)
  obtain r2 w2 where b: "answer fd (cmd command) (map print_arg (args command)) r1 e w1 = (r2, w2)" by fastforce
  have "only_to fd (world d) w1"
    using action_result(2) [OF a] by (auto simp: same_output_def only_to_def intro: exI [of _ "[]"])
  then have "only_to fd (world d) w2" using only_to_answer [OF b] by (rule only_to_trans)
  moreover have "d' = d\<lparr>world := w2\<rparr>" using i invoke_command_action [OF True a] b by simp
  ultimately show ?thesis by blast
next
  case False
  have out: "\<exists>w'. d' = d\<lparr>world := w'\<rparr> \<and> only_to fd (world d) w'"
    if "(case x of (r, w') \<Rightarrow> (r, d\<lparr>world := w'\<rparr>, k)) = (r, d', k')"
      and "\<And>r w'. x = (r, w') \<Longrightarrow> only_to fd (world d) w'" for x
    using that by (cases x) auto
  have same: "\<exists>w'. d = d\<lparr>world := w'\<rparr> \<and> only_to fd (world d) w'"
    by (rule exI [of _ "world d"]) simp
  from i False consider "d' = d"
    | "(case list_all_command fd (removable_media_root d) (world d) of (r, w') \<Rightarrow> (r, d\<lparr>world := w'\<rparr>, k)) = (r, d', k')"
    | "(case list_device_command fd (removable_media_root d) (the (args command ! 0)) (world d) of
        (r, w') \<Rightarrow> (r, d\<lparr>world := w'\<rparr>, k)) = (r, d', k')"
    | "(case invoke_list_supported_filesystems fd (world d) of (r, w') \<Rightarrow> (r, d\<lparr>world := w'\<rparr>, k)) = (r, d', k')"
    | "(case invoke_list_supported_filesystem_options fd (the (args command ! 0)) (world d) of
        (r, w') \<Rightarrow> (r, d\<lparr>world := w'\<rparr>, k)) = (r, d', k')"
    unfolding invoke_command_def Let_def action_command_def strcmp_eq_0 by (simp split: if_split_asm)
  then show ?thesis
    by cases (simp add: same, (erule out, erule only_to_listings)+)
qed

section \<open>Listings\<close>

definition known_type :: "node \<Rightarrow> bool" where
  "known_type n = (case n of (_, _, i) \<Rightarrow> md_type i \<noteq> media_type_unknown_or_persistent)"

definition node_line :: "node \<Rightarrow> string" where
  "node_line n = (case n of (par, q, i) \<Rightarrow>
     message ''removable_device'' (map print_arg (the (device_args (node_desc par q i)))))"

lemma known_args: "known_type (par, q, i) \<Longrightarrow> \<exists>as. device_args (node_desc par q i) = Some as"
  by (cases "md_type i") (auto simp: known_type_def device_args_def node_desc_def)

lemma print_common_line:
  "known_type (par, q, i) \<Longrightarrow> writes w = [] \<Longrightarrow>
   print_removable_device_common ''removable_device'' fd (node_desc par q i) w =
     (ResultSuccess, w\<lparr>sent := sent w @ [(fd, node_line (par, q, i))]\<rparr>)"
  by (auto simp: print_removable_device_common_def node_line_def io_simps dest: known_args)

lemma print_devices_lines:
  "list_all known_type (nodes par ms) \<Longrightarrow> writes w = [] \<Longrightarrow>
   print_devices fd par ms w =
     (ResultSuccess, w\<lparr>sent := sent w @ map (\<lambda>n. (fd, node_line n)) (nodes par ms)\<rparr>)"
proof (induction fd par ms w rule: print_devices.induct)
  case (2 fd par q i cs ms w)
  let ?w1 = "w\<lparr>sent := sent w @ [(fd, node_line (par, q, i))]\<rparr>"
  let ?w2 = "?w1\<lparr>sent := sent ?w1 @ map (\<lambda>n. (fd, node_line n)) (nodes (Some q) cs)\<rparr>"
  have p: "print_removable_device_common ''removable_device'' fd (node_desc par q i) w = (ResultSuccess, ?w1)"
    using "2.prems" by (intro print_common_line) auto
  have c: "print_devices fd (Some q) cs ?w1 = (ResultSuccess, ?w2)"
    using "2.prems" by (intro "2.IH"(1) [OF p [symmetric]]) auto
  have m: "print_devices fd par ms ?w2 =
      (ResultSuccess, ?w2\<lparr>sent := sent ?w2 @ map (\<lambda>n. (fd, node_line n)) (nodes par ms)\<rparr>)"
    using "2.prems" by (intro "2.IH"(2) [OF p [symmetric] _ c [symmetric]]) auto
  then show ?case by (simp add: p c)
qed simp

lemma reply_ok [simp]: "writes w = [] \<Longrightarrow> reply fd s r w = (r, w\<lparr>sent := sent w @ [(fd, s)]\<rparr>)"
  by (simp add: reply_def io_simps)

section \<open>Properties\<close>

text \<open>Whatever command a client sends and however it ends, what the command writes goes to that
  client alone, no client is disconnected by it, and the device tree and the list of clients
  stay as they are.\<close>

lemma invoke_command_replies_privately:
  "case invoke_command os c fd command d k of (r, d', k') \<Rightarrow>
     (\<exists>w' ms. d' = d\<lparr>world := w'\<rparr> \<and> sent w' = sent (world d) @ map (Pair fd) ms \<and>
        closed w' = closed (world d))"
proof -
  obtain r d' k' where i: "invoke_command os c fd command d k = (r, d', k')" by (metis prod_cases3)
  from invoke_command_world [OF i] i show ?thesis by (auto simp: only_to_def)
qed

text \<open>C19. A listing is complete: asked for a device, or for the root, the daemon writes a line for
  each device of that subtree, parents before children and each with its parent's path,
  between the lines that start and finish the answer; an unknown device is refused with one
  message.\<close>

theorem list_device_complete:
  assumes "writes (world d) = []" and "list_all known_type (nodes None (removable_media_root d))"
  shows "invoke_command os c fd \<lparr>cmd = command_list_device, args = [Some path]\<rparr> d k =
    (let wr = (\<lambda>ms. d\<lparr>world := (world d)\<lparr>sent := sent (world d) @ map (Pair fd) ms\<rparr>\<rparr>);
         name = [print_plain command_list_device, print_arg (Some path)];
         listing = (\<lambda>ns. message response_started name # map node_line ns @ [message response_finished name])
     in if path = dtmd_root_device_path
        then (ResultSuccess, wr (listing (nodes None (removable_media_root d))), k)
        else case find_at None path (removable_media_root d) of
          Some (par, m) \<Rightarrow> (ResultSuccess, wr (listing (nodes par [m])), k)
        | None \<Rightarrow> (ResultFail, wr [message response_failed (name @
            [print_arg (Some (error_code_to_string error_code_no_such_removable_device))])], k))"
proof -
  have sub: "list_all known_type (nodes par [m])" if "find_at None path (removable_media_root d) = Some (par, m)"
    for par m
    using nodes_edit [OF that] assms(2) by (auto simp: list_all_iff)
  from assms show ?thesis
    by (auto simp: invoke_command_def list_device_command_def print_all_removable_devices_def
        print_all_removable_devices_recursive_def Let_def io_simps print_devices_lines sub comp_def
        split: option.split)
qed

text \<open>A command to mount, unmount or power off a device is answered by exactly one message to
  the client, after the attempt: "succeeded" with the arguments of the command when the
  operation succeeded, and otherwise "failed" with those arguments and the operation's error
  code.\<close>

lemma action_answered_once:
  assumes "action_command command" and "run_action os c fd command d k = (r, e, w1, k1)"
    and "writes (world d) = []"
  shows "invoke_command os c fd command d k = (r, d\<lparr>world := w1\<lparr>sent := sent (world d) @
    [(fd, case e of
       None \<Rightarrow> message response_succeeded (print_plain (cmd command) # map print_arg (args command))
     | Some ec \<Rightarrow> message response_failed (print_plain (cmd command) # map print_arg (args command) @
         [print_arg (Some (error_code_to_string ec))]))]\<rparr>\<rparr>, k1) \<and> (r = ResultSuccess \<longleftrightarrow> e = None)"
  using invoke_command_action [OF assms(1,2)] action_result [OF assms(2)] assms(3)
  by (auto simp: answer_def same_output_def split: option.split)

section \<open>Witnesses\<close>

theorem list_device_complete_witness:
  "fst (invoke_command demo_os initial_config 5 \<lparr>cmd = command_list_device, args = [Some ''/dev/sdb'']\<rparr>
     disk_daemon demo_kernel) = ResultSuccess"
proof -
  have "list_all known_type (nodes None (removable_media_root disk_daemon))" by code_simp
  moreover have "''/dev/sdb'' \<noteq> dtmd_root_device_path" by (simp add: dtmd_root_device_path_def)
  ultimately show ?thesis
    using list_device_complete [OF disk_find(3), of demo_os initial_config 5 "''/dev/sdb''" demo_kernel] disk_find(1)
    by (simp add: Let_def)
qed

definition poweroff_command :: dt_command where
  "poweroff_command = \<lparr>cmd = command_poweroff, args = [Some ''/dev/sdc'']\<rparr>"

definition stateless_daemon :: daemon where
  "stateless_daemon = \<lparr>removable_media_root = stateless_root, clients = [], clients_count = 0, world = quiet_io\<rparr>"

end
