(* ===== verification/Dtmd_Daemon_Spec.thy ===== *)
theory Dtmd_Daemon_Spec
  imports Dtmd_Tree_Inv Dtmd_Actions_Spec Dtmd_Daemon "HOL-Library.Sublist"
begin

text \<open>
  The event loop: the invariant of its passes, what becomes of a client's bytes, and the
  shutdown.  The loop is an instance of a general one: a step that may stop it, and an
  invariant that every step which does not stop it keeps.
\<close>

section \<open>Loops that a step may stop\<close>

fun run_steps :: "('s \<Rightarrow> 'i \<Rightarrow> 'e option \<times> 's) \<Rightarrow> 'i list \<Rightarrow> 's \<Rightarrow> 'e option \<times> 's" where
  "run_steps step [] s = (None, s)"
| "run_steps step (i # is) s = (case step s i of
     (None, s') \<Rightarrow> run_steps step is s' | (Some e, s') \<Rightarrow> (Some e, s'))"

locale guarded_loop =
  fixes step :: "'s \<Rightarrow> 'i \<Rightarrow> 'e option \<times> 's"
    and good :: "'i \<Rightarrow> bool"
    and inv :: "'s \<Rightarrow> bool"
  assumes step_keeps: "inv s \<Longrightarrow> good i \<Longrightarrow> step s i = (None, s') \<Longrightarrow> inv s'"
begin

lemma run_keeps: "inv s \<Longrightarrow> list_all good is \<Longrightarrow> run_steps step is s = (None, s') \<Longrightarrow> inv s'"
  by (induction "is" arbitrary: s) (auto split: prod.splits option.splits dest: step_keeps)

lemma run_stops:
  "inv s \<Longrightarrow> list_all good is \<Longrightarrow> run_steps step is s = (Some e, s') \<Longrightarrow>
   \<exists>s1 i. inv s1 \<and> good i \<and> step s1 i = (Some e, s')"
  by (induction "is" arbitrary: s) (auto split: prod.splits option.splits dest: step_keeps)

end

lemma main_loop_steps:
  "main_loop os c ps is s = (case run_steps (loop_step os c ps) is s of
     (None, s') \<Rightarrow> (0, s') | (Some _, s') \<Rightarrow> (-1, s'))"
  by (induction "is" arbitrary: s) (auto split: prod.splits option.splits)

section \<open>The invariant\<close>

definition buffer_ok :: "string \<Rightarrow> bool" where
  "buffer_ok b \<longleftrightarrow> length b < dtmd_command_max_length \<and> \<not> has_command b"

definition clients_ok :: "daemon \<Rightarrow> bool" where
  "clients_ok d \<longleftrightarrow> distinct (map clientfd (clients d)) \<and> clients_count d = length (clients d) \<and>
     list_all (\<lambda>cl. buffer_ok (buf cl)) (clients d)"

definition state_ok :: "daemon \<Rightarrow> bool" where
  "state_ok d \<longleftrightarrow> tree_ok (removable_media_root d) \<and> clients_ok d"

definition main_ok :: "'k main_state \<Rightarrow> bool" where
  "main_ok s \<longleftrightarrow> state_ok (dmn s) \<and> pollfds_count s = pollfds_count_default + clients_count (dmn s)"

abbreviation (input) fds_of :: "daemon \<Rightarrow> int list" where
  "fds_of d \<equiv> map clientfd (clients d)"

lemma daemon_ok_of: "state_ok d \<Longrightarrow> daemon_ok d"
  by (simp add: state_ok_def clients_ok_def daemon_ok_def tree_ok_media_ok)

lemma state_ok_world [simp]: "state_ok (d\<lparr>world := w\<rparr>) = state_ok d"
  by (simp add: state_ok_def clients_ok_def)

lemma buffer_ok_Nil [simp]: "buffer_ok []"
  by (simp add: buffer_ok_def has_command_def c_str_def dtmd_command_max_length_def)

lemma tree_operation_ok:
  assumes "state_ok d" and "daemon_ok d'" and "clients d' = clients d" and "clients_count d' = clients_count d"
    and "every_info (\<lambda>i. md_type i \<noteq> media_type_unknown_or_persistent) (removable_media_root d')"
  shows "state_ok d'"
  using assms by (simp add: state_ok_def clients_ok_def tree_ok_media_ok daemon_ok_def)

lemma state_ok_types: "state_ok d \<Longrightarrow> every_info (\<lambda>i. md_type i \<noteq> media_type_unknown_or_persistent) (removable_media_root d)"
  by (simp add: state_ok_def tree_ok_media_ok)

lemma tree_operations_clients [simp]:
  "clients (snd (add_media a s d)) = clients d" "clients_count (snd (add_media a s d)) = clients_count d"
  "clients (snd (remove_media p d)) = clients d" "clients_count (snd (remove_media p d)) = clients_count d"
  "clients (snd (change_media a s d)) = clients d" "clients_count (snd (change_media a s d)) = clients_count d"
  "clients (snd (check_mount_changes ms d)) = clients d"
  "clients_count (snd (check_mount_changes ms d)) = clients_count d"
  by (auto simp: add_media_def remove_media_def change_media_def check_mount_changes_def Let_def
      split: option.splits prod.splits if_splits)

lemma add_media_state_ok:
  "state_ok d \<Longrightarrow> d_type a \<noteq> media_type_unknown_or_persistent \<Longrightarrow> state_ok (snd (add_media a s d))"
  by (rule tree_operation_ok)
     (auto simp: add_media_ok daemon_ok_of state_ok_types construct_media_type intro: add_media_keeps)

lemma remove_media_state_ok: "state_ok d \<Longrightarrow> state_ok (snd (remove_media p d))"
  by (rule tree_operation_ok) (simp_all add: remove_media_ok daemon_ok_of remove_media_keeps state_ok_types)

lemma change_media_state_ok: "state_ok d \<Longrightarrow> state_ok (snd (change_media a s d))"
  by (rule tree_operation_ok)
     (auto simp: change_media_ok daemon_ok_of state_ok_types change_info_type intro: change_media_keeps)

lemma check_mount_changes_state_ok:
  assumes "state_ok d" and "check_mount_changes ms d = (r, d')" and "r = ResultSuccess"
  shows "state_ok d'"
  using check_mount_changes_tree_ok [OF assms(2,3)] assms(1,2) tree_operations_clients(7,8) [of ms d]
  by (simp add: state_ok_def clients_ok_def)

lemma device_event_cases:
  assumes "device_event action i d = (r, f, d')"
  obtains "d' = d" | "event_complete i" "d' = snd (add_media (event_desc i) (in_sysfs_path i) d)"
    | "d' = snd (remove_media (the (in_path i)) d)"
    | "event_complete i" "d' = snd (change_media (event_desc i) (in_sysfs_path i) d)"
  using assms
  by (cases "add_media (event_desc i) (in_sysfs_path i) d"; cases "change_media (event_desc i) (in_sysfs_path i) d";
      cases "in_path i"; cases "remove_media (the (in_path i)) d")
     (auto simp: device_event_def split: if_splits)

lemma device_event_state_ok:
  assumes "state_ok d" and "device_event action i d = (r, f, d')"
  shows "state_ok d'"
  using assms(2)
proof (cases rule: device_event_cases)
  case 2
  with assms(1) show ?thesis by (simp add: add_media_state_ok event_complete_def event_desc_def)
qed (use assms(1) in \<open>simp_all add: remove_media_state_ok change_media_state_ok\<close>)

lemma device_event_clients: "device_event action i d = (r, f, d') \<Longrightarrow> clients d' = clients d"
  by (erule device_event_cases) simp_all

lemma add_client_state_ok: "state_ok d \<Longrightarrow> state_ok (snd (add_client fd d))"
  by (auto simp: state_ok_def clients_ok_def add_client_def list_ex_iff split: prod.split)

lemma remove_client_state_ok: "state_ok d \<Longrightarrow> state_ok (snd (remove_client fd d))"
  using length_unlink [of fd "clients d"]
  by (auto simp: state_ok_def clients_ok_def remove_client_def unlink_client_filter distinct_map_filter list_all_iff)

section \<open>The clients' commands\<close>

lemma process_commands_effect:
  "process_commands os c ps fd b d k = (v, b', d', k') \<Longrightarrow>
   (\<exists>w'. d' = d\<lparr>world := w'\<rparr> \<and> only_to fd (world d) w') \<and> length b' \<le> length b \<and>
   (v = KeepClient \<longrightarrow> \<not> has_command b') \<and> v \<noteq> StopDaemon StopClientBug"
proof (induction os c ps fd b d k rule: process_commands.induct)
  case (1 os c ps fd b d k)
  have same: "\<exists>w'. d = d\<lparr>world := w'\<rparr> \<and> only_to fd (world d) w'" by (rule exI [of _ "world d"]) simp
  show ?case
  proof (cases "has_command b \<and> dt_validate_command ps (c_str b) \<and> dt_parse_command ps (c_str b) \<noteq> None")
    case False
    with "1.prems" same show ?thesis
      by (subst (asm) process_commands.simps) (auto split: if_splits)
  next
    case True
    then obtain command where p: "dt_parse_command ps (c_str b) = Some command" by auto
    obtain r d1 k1 where i: "invoke_command os c fd command d k = (r, d1, k1)" by (metis prod_cases3)
    from invoke_command_world [OF i] obtain w1 where w1: "d1 = d\<lparr>world := w1\<rparr>" "only_to fd (world d) w1" by blast
    show ?thesis
    proof (cases "r = ResultFail \<or> r = ResultSuccess")
      case False
      with True p i "1.prems" w1 show ?thesis
        by (subst (asm) process_commands.simps) (cases r; auto)
    next
      case r: True
      with True p i "1.prems" have rest: "process_commands os c ps fd (after_command b) d1 k1 = (v, b', d', k')"
        by (subst (asm) process_commands.simps) auto
      from "1.IH" [OF _ _ p i [symmetric] refl _ _ rest] True r w1 after_command_shorter [of b] show ?thesis
        by (auto intro: only_to_trans)
    qed
  qed
qed

lemma fds_set_buffer [simp]: "fds_of (set_buffer fd b d) = fds_of d"
  by (simp add: set_buffer_def comp_def if_distrib cong: if_cong)

lemma fd_set_set_buffer [simp]: "clientfd ` set (clients (set_buffer fd b d)) = clientfd ` set (clients d)"
  using arg_cong [OF fds_set_buffer, of set] by (simp only: set_map)

lemma set_buffer_state_ok: "state_ok d \<Longrightarrow> buffer_ok b \<Longrightarrow> state_ok (set_buffer fd b d)"
proof -
  assume ok: "state_ok d" "buffer_ok b"
  have "distinct (fds_of (set_buffer fd b d))" using ok(1) by (simp add: state_ok_def clients_ok_def)
  with ok show ?thesis by (auto simp: state_ok_def clients_ok_def set_buffer_def list_all_iff)
qed

lemma fds_remove_client: "clients_ok d \<Longrightarrow> set (fds_of (snd (remove_client fd d))) = set (fds_of d) - {fd}"
  by (auto simp: clients_ok_def remove_client_def unlink_client_filter list_ex_iff)

lemma fill_buffer_length: "length b < dtmd_command_max_length \<Longrightarrow> length (fill_buffer b rd) \<le> dtmd_command_max_length"
  by (auto simp: fill_buffer_def split: option.split)

text \<open>One client's descriptor: the others stay, and a client that stays has room in its buffer and
  no complete command left.\<close>

lemma client_readable_ok:
  assumes "state_ok d" and "fd \<in> set (fds_of d)" and "client_readable os c ps fd rd d k = (r, d', k')"
  shows "r \<noteq> Some StopClientBug \<and> (r = None \<longrightarrow> state_ok d' \<and> set (fds_of d) - {fd} \<subseteq> set (fds_of d'))"
proof -
  from assms(2) obtain cl where f: "find (\<lambda>cl. clientfd cl = fd) (clients d) = Some cl"
    by (cases "find (\<lambda>cl. clientfd cl = fd) (clients d)") (auto simp: find_None_iff)
  from find_SomeD [OF f] assms(1) have room: "length (buf cl) < dtmd_command_max_length"
    by (auto simp: state_ok_def clients_ok_def list_all_iff buffer_ok_def)
  have rem: "state_ok (snd (remove_client fd x)) \<and> set (fds_of d) - {fd} \<subseteq> set (fds_of (snd (remove_client fd x)))"
    if "state_ok x" "fds_of x = fds_of d" for x
    using that remove_client_state_ok fds_remove_client [of x fd] by (auto simp: state_ok_def)
  obtain v b d1 k1 where p: "process_commands os c ps fd (fill_buffer (buf cl) rd) d k = (v, b, d1, k1)"
    by (metis prod_cases4)
  from process_commands_effect [OF p] obtain w1 where
    d1: "d1 = d\<lparr>world := w1\<rparr>" "length b \<le> length (fill_buffer (buf cl) rd)" "v = KeepClient \<longrightarrow> \<not> has_command b"
      "v \<noteq> StopDaemon StopClientBug" by blast
  have ok1: "state_ok d1" "fds_of d1 = fds_of d" using assms(1) d1 by simp_all
  have "buffer_ok b" if "v = KeepClient" "length b \<noteq> dtmd_command_max_length"
    using that d1 fill_buffer_length [OF room, of rd] by (auto simp: buffer_ok_def)
  moreover have "clientfd ` set (clients d1) = clientfd ` set (clients d)"
    using arg_cong [OF ok1(2), of set] by simp
  ultimately show ?thesis
    using assms(1,3) f p ok1 rem [OF assms(1)] rem [OF ok1] d1(4)
    by (auto simp: client_readable_def set_buffer_state_ok split: if_splits verdict.splits)
qed

lemma poll_clients_ok:
  "state_ok d \<Longrightarrow> distinct fds \<Longrightarrow> set fds \<subseteq> set (fds_of d) \<Longrightarrow> poll_clients os c ps ev fds d k = (r, d', k') \<Longrightarrow>
   r \<noteq> Some StopClientBug \<and> (r = None \<longrightarrow> state_ok d')"
proof (induction fds arbitrary: d k)
  case (Cons fd fds)
  obtain e rd where ev: "ev fd = (e, rd)" by fastforce
  obtain r1 d1 k1 where c: "client_readable os c ps fd rd d k = (r1, d1, k1)" by (metis prod_cases3)
  note cr = client_readable_ok [OF Cons.prems(1) _ c]
  have rem: "state_ok (snd (remove_client fd d))" "set fds \<subseteq> set (fds_of (snd (remove_client fd d)))"
    using Cons.prems(1-3) remove_client_state_ok fds_remove_client [of d fd] by (auto simp: state_ok_def)
  from Cons.prems(2,3) cr have sub: "r1 = None \<Longrightarrow> state_ok d1 \<and> set fds \<subseteq> set (fds_of d1)" "r1 \<noteq> Some StopClientBug"
    by auto
  from Cons.prems(2) have "distinct fds" by simp
  note ih = Cons.IH [OF _ this]
  consider "poll_broken e" "poll_clients os c ps ev fds (snd (remove_client fd d)) k = (r, d', k')"
    | "r1 = None" "poll_clients os c ps ev fds d1 k1 = (r, d', k')" | "r1 \<noteq> None" "r = r1"
    | "poll_clients os c ps ev fds d k = (r, d', k')"
    using Cons.prems(4) ev c by (auto split: if_splits option.splits)
  then show ?case
  proof cases
    case 1
    from ih [OF rem this(2)] show ?thesis .
  next
    case 2
    with ih [of d1 k1] sub show ?thesis by blast
  next
    case 3
    with sub show ?thesis by auto
  next
    case 4
    with ih [of d k] Cons.prems show ?thesis by simp
  qed
qed simp

section \<open>One pass of the loop\<close>

text \<open>Each step keeps the state and the descriptors of the clients, and stops only for its own
  reasons.\<close>

definition fds_known :: "int set \<Rightarrow> daemon \<Rightarrow> bool" where
  "fds_known fds d \<longleftrightarrow> fds \<subseteq> clientfd ` set (clients d)"

definition step_fine :: "int set \<Rightarrow> stop option \<times> 'k main_state \<Rightarrow> bool" where
  "step_fine fds r \<longleftrightarrow> fst r \<noteq> Some StopClientBug \<and>
     (fst r = None \<longrightarrow> state_ok (dmn (snd r)) \<and> fds_known fds (dmn (snd r)))"

lemma next_step_fine:
  assumes "step_fine fds r" and "\<And>s. state_ok (dmn s) \<Longrightarrow> fds_known fds (dmn s) \<Longrightarrow> step_fine fds' (f s)"
  shows "step_fine fds' (next_step r f)"
  using assms by (auto simp: next_step_def step_fine_def split: prod.split option.split)

lemma fds_known_clients: "clients d' = clients d \<Longrightarrow> fds_known fds d' = fds_known fds d"
  by (simp add: fds_known_def)

lemma accept_step_fine: "state_ok (dmn s) \<Longrightarrow> fds_known fds (dmn s) \<Longrightarrow> step_fine fds (accept_step i s)"
  using add_client_state_ok [of "dmn s"]
  by (fastforce simp: step_fine_def accept_step_def add_client_def fds_known_def split: option.split prod.split if_splits)

lemma device_step_fine: "state_ok (dmn s) \<Longrightarrow> fds_known fds (dmn s) \<Longrightarrow> step_fine fds (device_step i s)"
  by (auto simp: step_fine_def device_step_def split: sum.split prod.split
      dest: device_event_state_ok fds_known_clients [OF device_event_clients])

lemma mounts_step_fine: "state_ok (dmn s) \<Longrightarrow> fds_known fds (dmn s) \<Longrightarrow> step_fine fds (mounts_step os i s)"
proof -
  assume ok: "state_ok (dmn s)" "fds_known fds (dmn s)"
  obtain r d where c: "check_mount_changes (os_mounts os (kstate (krn s))) (dmn s) = (r, d)" by fastforce
  have "r = ResultSuccess \<or> is_result_fatal_error r"
    using c by (auto simp: check_mount_changes_def split: option.splits prod.splits if_splits)
  moreover have "clients d = clients (dmn s)"
    using tree_operations_clients(7) [of "os_mounts os (kstate (krn s))" "dmn s"] c by simp
  note fds_known_clients [OF this]
  ultimately show ?thesis
    using ok c check_mount_changes_state_ok [OF ok(1) c] by (auto simp: step_fine_def mounts_step_def)
qed

lemma clients_step_fine:
  assumes "state_ok (dmn s)" and "distinct fds" and "fds_known (set fds) (dmn s)"
  shows "step_fine {} (clients_step os c ps i fds s)"
proof -
  obtain r d k where p: "poll_clients os c ps (in_clients i) fds (dmn s) (krn s) = (r, d, k)" by (metis prod_cases3)
  from poll_clients_ok [OF assms(1,2) _ p] assms(3) have "r \<noteq> Some StopClientBug \<and> (r = None \<longrightarrow> state_ok d)"
    by (simp add: fds_known_def)
  with p show ?thesis by (simp add: step_fine_def clients_step_def fds_known_def)
qed

lemma pollfds_step_ok:
  "state_ok (dmn s) \<Longrightarrow> fst (pollfds_step s) = None \<Longrightarrow> main_ok (snd (pollfds_step s))"
  by (auto simp: pollfds_step_def main_ok_def split: prod.splits if_splits)

lemma fill_pollfds_id: "main_ok s \<Longrightarrow> fill_pollfds s = s"
  by (simp add: fill_pollfds_def main_ok_def state_ok_def clients_ok_def)

lemma loop_step_ok:
  assumes "main_ok s" and "loop_step os c ps s i = (r, s')"
  shows "r \<noteq> Some StopClientBug \<and> (r = None \<longrightarrow> main_ok s')"
proof (cases "in_poll i")
  case PollReady
  let ?fds = "fds_of (dmn s)"
  have ok: "state_ok (dmn s)" "distinct ?fds" using assms(1) by (simp_all add: main_ok_def state_ok_def clients_ok_def)
  let ?r = "next_step (next_step (next_step (accept_step i s) (device_step i)) (mounts_step os i)) (clients_step os c ps i ?fds)"
  have "step_fine {} ?r"
    by (rule next_step_fine [where fds = "set ?fds"], rule next_step_fine [where fds = "set ?fds"],
        rule next_step_fine [where fds = "set ?fds"])
       (simp_all add: ok accept_step_fine device_step_fine mounts_step_fine clients_step_fine fds_known_def)
  moreover obtain x u where xu: "?r = (x, u)" by fastforce
  moreover have "next_step ?r pollfds_step = (r, s')"
    using assms PollReady fill_pollfds_id [OF assms(1)] by (simp add: loop_step_def Let_def)
  moreover have "fst (pollfds_step u) \<noteq> Some StopClientBug"
    by (simp add: pollfds_step_def split: prod.split)
  ultimately show ?thesis
    using pollfds_step_ok [of u] unfolding xu
    by (cases x) (auto simp: next_step_def step_fine_def)
qed (use assms fill_pollfds_id [OF assms(1)] in \<open>auto simp: loop_step_def Let_def\<close>)

interpretation event_loop: guarded_loop "loop_step os c ps" "\<lambda>_. True" main_ok
  for os :: "'k os" and c ps
  by unfold_locales (use loop_step_ok in blast)

section \<open>The start\<close>

lemma no_devices_ok: "state_ok (no_devices w)"
  by (simp add: state_ok_def no_devices_def tree_ok_def clients_ok_def)

lemma enumerate_devices_ok: "state_ok d \<Longrightarrow> enumerate_devices is rc d = (ok, d') \<Longrightarrow> state_ok d' \<and> clients d' = clients d"
proof (induction "is" arbitrary: d)
  case (Cons i "is")
  have add: "event_complete i \<Longrightarrow> state_ok (snd (add_media (event_desc i) (in_sysfs_path i) d))"
    using Cons.prems(1) by (simp add: add_media_state_ok event_complete_def event_desc_def)
  show ?case
  proof (cases "event_complete i")
    case True
    obtain r d1 where a: "add_media (event_desc i) (in_sysfs_path i) d = (r, d1)" by fastforce
    with add True tree_operations_clients(1) [of "event_desc i" "in_sysfs_path i" d] have d1: "state_ok d1" "clients d1 = clients d"
      by auto
    with Cons True a show ?thesis by (auto split: if_splits)
  qed (use Cons in simp)
qed simp

lemma start_daemon_ok: "start_daemon os ds rc w k = (True, s) \<Longrightarrow> main_ok s \<and> clients (dmn s) = []"
proof -
  assume st: "start_daemon os ds rc w k = (True, s)"
  obtain b d where e: "enumerate_devices ds rc (no_devices w) = (b, d)" by fastforce
  from enumerate_devices_ok [OF no_devices_ok e] have d: "state_ok d" "clients d = []" by (auto simp: no_devices_def)
  obtain r d1 where c: "check_mount_changes (os_mounts os (kstate k)) d = (r, d1)" by fastforce
  have d1: "clients d1 = []" using tree_operations_clients(7) [of "os_mounts os (kstate k)" d] c d(2) by simp
  have "r = ResultSuccess \<or> is_result_fatal_error r"
    using c by (auto simp: check_mount_changes_def split: option.splits prod.splits if_splits)
  with st e c have r: "r = ResultSuccess" and s: "\<exists>w'. dmn s = d1\<lparr>world := w'\<rparr>" "pollfds_count s = pollfds_count_default"
    by (auto simp: start_daemon_def Let_def split: if_splits prod.splits)
  from check_mount_changes_state_ok [OF d(1) c r] have "state_ok d1" .
  with s d1 show ?thesis by (auto simp: main_ok_def state_ok_def clients_ok_def)
qed

section \<open>Commands and the reads that bring them\<close>

text \<open>What the daemon relies on in the command parser: it looks at the first line of the buffer
  only.\<close>

definition line_parser :: "command_parser \<Rightarrow> bool" where
  "line_parser ps \<longleftrightarrow> (\<forall>line rest. newline \<notin> set line \<longrightarrow>
     dt_validate_command ps (line @ newline # rest) = dt_validate_command ps (line @ [newline]) \<and>
     dt_parse_command ps (line @ newline # rest) = dt_parse_command ps (line @ [newline]))"

definition no_nul :: "string \<Rightarrow> bool" where
  "no_nul b \<longleftrightarrow> CHR 0x00 \<notin> set b"

lemma c_str_no_nul: "no_nul b \<Longrightarrow> c_str b = b"
  by (auto simp: no_nul_def c_str_def takeWhile_eq_all_conv)

lemma after_line: "newline \<notin> set line \<Longrightarrow> after_command (line @ newline # rest) = rest"
  by (induction line) (auto simp: after_command_def)

lemma first_line:
  assumes "has_command b" and "no_nul b"
  obtains line rest where "b = line @ newline # rest" "newline \<notin> set line" "after_command b = rest"
proof -
  have "newline \<in> set b" using assms by (simp add: has_command_def c_str_no_nul)
  then obtain line rest where "b = line @ newline # rest" "newline \<notin> set line" by (metis split_list_first)
  with that after_line show thesis by blast
qed

lemma line_parser_append:
  assumes "line_parser ps" and "has_command b" and "no_nul b"
  shows "dt_validate_command ps (b @ b2) = dt_validate_command ps b"
    and "dt_parse_command ps (b @ b2) = dt_parse_command ps b"
proof -
  obtain line rest where b: "b = line @ newline # rest" "newline \<notin> set line"
    by (rule first_line [OF assms(2,3)])
  have vp: "dt_validate_command ps (line @ newline # r) = dt_validate_command ps (line @ [newline]) \<and>
      dt_parse_command ps (line @ newline # r) = dt_parse_command ps (line @ [newline])" for r
    by (rule assms(1) [unfolded line_parser_def, rule_format, OF b(2)])
  note v = vp [THEN conjunct1] and p = vp [THEN conjunct2]
  show "dt_validate_command ps (b @ b2) = dt_validate_command ps b"
    unfolding b(1) append_assoc append_Cons by (rule trans [OF v v [symmetric]])
  show "dt_parse_command ps (b @ b2) = dt_parse_command ps b"
    unfolding b(1) append_assoc append_Cons by (rule trans [OF p p [symmetric]])
qed

lemma has_command_append: "no_nul b \<Longrightarrow> no_nul b2 \<Longrightarrow> has_command b \<Longrightarrow> has_command (b @ b2)"
  by (simp add: has_command_def c_str_no_nul no_nul_def)

lemma after_command_append: "has_command b \<Longrightarrow> no_nul b \<Longrightarrow> after_command (b @ b2) = after_command b @ b2"
  by (rule first_line) (auto simp: after_line)

lemma no_nul_after: "no_nul b \<Longrightarrow> no_nul (after_command b)"
  unfolding no_nul_def after_command_def
  by (metis list.set_sel(2) set_dropWhileD tl_Nil)

section \<open>The mount directory and the shutdown\<close>

lemma parent_directory_prefix: "parent_directory s = Some p \<Longrightarrow> strict_prefix p s"
proof -
  assume p: "parent_directory s = Some p"
  then have "prefix p s" by (auto simp: parent_directory_def take_is_prefix)
  with parent_directory_shorter [OF p] show ?thesis by (auto simp: strict_prefix_def)
qed

lemma create_mount_dir_calls:
  "create_mount_dir_recursive os s k = (r, k') \<Longrightarrow>
   \<exists>ps. syscalls k' = syscalls k @ map SysMkdir ps \<and> sorted_wrt strict_prefix ps \<and>
     list_all (\<lambda>p. p \<noteq> [] \<and> prefix p s \<and> os_stat os (kstate k) p = StatError) ps \<and>
     (r = ResultSuccess \<longrightarrow> (if s = [] \<or> os_stat os (kstate k) s = StatDir then ps = [] else ps \<noteq> [] \<and> last ps = s))"
proof (induction os s k arbitrary: r k' rule: create_mount_dir_recursive.induct)
  case (1 os s k)
  show ?case
  proof (cases "s \<noteq> [] \<and> os_stat os (kstate k) s = StatError")
    case False
    with "1.prems" show ?thesis
      by (subst (asm) create_mount_dir_recursive.simps)
         (auto split: stat_result.splits intro: exI [of _ "[]"])
  next
    case True
    obtain r1 k1 where p: "(case parent_directory s of None \<Rightarrow> (ResultSuccess, k)
        | Some p \<Rightarrow> create_mount_dir_recursive os p k) = (r1, k1)" by fastforce
    have "\<exists>ps. syscalls k1 = syscalls k @ map SysMkdir ps \<and> sorted_wrt strict_prefix ps \<and>
        list_all (\<lambda>p. p \<noteq> [] \<and> strict_prefix p s \<and> os_stat os (kstate k) p = StatError) ps"
    proof (cases "parent_directory s")
      case None
      with p show ?thesis by (intro exI [of _ "[]"]) simp
    next
      case (Some q)
      with "1.IH" [of q r1 k1] True p obtain ps where
        "syscalls k1 = syscalls k @ map SysMkdir ps" "sorted_wrt strict_prefix ps"
        "list_all (\<lambda>p. p \<noteq> [] \<and> prefix p q \<and> os_stat os (kstate k) p = StatError) ps" by auto
      with parent_directory_prefix [OF Some] show ?thesis
        by (auto simp: list_all_iff intro!: exI [of _ ps] dest: prefix_order.le_less_trans)
    qed
    then obtain ps where ps: "syscalls k1 = syscalls k @ map SysMkdir ps" "sorted_wrt strict_prefix ps"
        "list_all (\<lambda>p. p \<noteq> [] \<and> strict_prefix p s \<and> os_stat os (kstate k) p = StatError) ps" by blast
    obtain b k2 where m: "sys_mkdir os s k1 = (b, k2)" by fastforce
    then have k2: "syscalls k2 = syscalls k1 @ [SysMkdir s]" by (auto simp: sys_defs split: prod.splits)
    from "1.prems" True p m have r: "(if r1 = ResultSuccess then (if b then ResultSuccess else ResultFatalError, k2)
        else (r1, k1)) = (r, k')"
      by (subst (asm) create_mount_dir_recursive.simps) (auto split: if_splits)
    show ?thesis
    proof (cases "r1 = ResultSuccess")
      case True
      with r ps k2 \<open>s \<noteq> [] \<and> os_stat os (kstate k) s = StatError\<close> show ?thesis
        by (intro exI [of _ "ps @ [s]"]) (auto simp: sorted_wrt_append list_all_iff split: if_splits)
    next
      case False
      with r ps show ?thesis by (intro exI [of _ ps]) (auto simp: list_all_iff dest: prefix_order.less_imp_le)
    qed
  qed
qed

lemma alloc_only_unmount_common: "invoke_unmount_common os p mp t w k = (r, e, w', k') \<Longrightarrow> alloc_only w w'"
  by (auto simp: invoke_unmount_common_def invoke_unmount_external_def invoke_unmount_internal_def Let_def
      split: option.splits prod.splits if_splits umount_result.splits dest!: alloc_only_malloc)

lemma alloc_only_unmount_list: "invoke_unmount_list os ms w k = (r, w', k') \<Longrightarrow> alloc_only w w'"
proof (induction os ms w k arbitrary: r w' k' rule: invoke_unmount_list.induct)
  case (2 os q i cs ms w k)
  obtain r1 w1 k1 where 1: "invoke_unmount_list os cs w k = (r1, w1, k1)" by (metis prod_cases3)
  note a1 = "2.IH"(1) [OF 1]
  obtain r2 w2 k2 where 2: "(case md_mnt_point i of None \<Rightarrow> (ResultSuccess, w1, k1)
      | Some mp \<Rightarrow> (case invoke_unmount_common os q mp (md_fstype i) w1 k1 of (r, _, w2, k2) \<Rightarrow> (r, w2, k2)))
      = (r2, w2, k2)" by (metis prod_cases3)
  then have a2: "alloc_only w1 w2"
    by (auto split: option.splits prod.splits dest: alloc_only_unmount_common)
  show ?case
  proof (cases "is_result_fatal_error r1 \<or> is_result_fatal_error r2")
    case True
    with "2.prems" 1 2 a1 a2 show ?thesis by (auto split: if_splits intro: alloc_only_trans)
  next
    case False
    with "2.prems" 1 2 have "invoke_unmount_list os ms w2 k2 = (r, w', k')" by (auto split: if_splits)
    with "2.IH"(2) [OF 1 [symmetric] refl _ 2 [symmetric] refl] False a1 a2 show ?thesis
      by (auto intro: alloc_only_trans)
  qed
qed simp

lemma alloc_only_remove_dirs: "remove_dirs os s es n w k = (w', k') \<Longrightarrow> alloc_only w w'"
proof (induction os s es n w k rule: remove_dirs.induct)
  case (2 os s name is_dir es n w k)
  then show ?case
    by (auto simp: Let_def split: if_splits prod.splits dest!: alloc_only_malloc intro: alloc_only_trans)
qed simp

lemma remove_helpers_nobody [simp]: "remove_media_helpers [] ms w = w"
  by (induction "[] :: client list" ms w rule: remove_media_helpers.induct)
     (auto simp: notify_removable_device_unmounted_def notify_removable_device_removed_def Let_def split: option.split)

lemma close_all: "foldl (\<lambda>w c. close_fd (clientfd c) w) w cs = w\<lparr>closed := closed w @ map clientfd cs\<rparr>"
  by (induction cs arbitrary: w) (simp_all add: close_fd_def)

section \<open>Properties\<close>

text \<open>C1. After a successful start and any number of passes of the event loop, whatever devices,
  clients, commands and mounts they bring: the tree is sorted, its devices are of known types
  and have labels without quotes and a mount point exactly when they count as mounted; the
  clients' descriptors are distinct and counted right; no client that is still connected has
  a full buffer or a complete command waiting in it; and the \<open>pollfds\<close> array has exactly the
  entries the next pass fills.\<close>

theorem event_loop_invariant:
  assumes "start_daemon os devices rc w k = (True, s0)" and "main_loop os c ps inputs s0 = (0, s)"
  shows "main_ok s \<and> fill_pollfds s = s"
proof -
  have "main_ok s0" using start_daemon_ok [OF assms(1)] by simp
  moreover have "run_steps (loop_step os c ps) inputs s0 = (None, s)"
    using assms(2) by (auto simp: main_loop_steps split: prod.splits option.splits)
  ultimately have "main_ok s" using event_loop.run_keeps [of _ inputs] by (simp add: list_all_iff)
  with fill_pollfds_id show ?thesis by blast
qed

text \<open>The branch "BUG: could not find non-existent client" is never taken: when the loop stops
  itself, it is for another reason.\<close>

lemma polled_client_exists:
  assumes "start_daemon os devices rc w k = (True, s0)" and "run_steps (loop_step os c ps) inputs s0 = (Some e, s)"
  shows "e \<noteq> StopClientBug"
proof -
  have "main_ok s0" using start_daemon_ok [OF assms(1)] by simp
  from event_loop.run_stops [OF this _ assms(2)] obtain s1 i where
    "main_ok s1" "loop_step os c ps s1 i = (Some e, s)" by (auto simp: list_all_iff)
  from loop_step_ok [OF this] show ?thesis by auto
qed

text \<open>C35. How a client's bytes are cut into reads makes no difference: for bytes without NUL and a
  parser that looks at the first line only, working off a buffer and then working off what
  is left of it with further bytes appended runs the same commands with the same results as
  working off all bytes at once.\<close>

theorem reads_may_be_split:
  assumes "line_parser ps" and "no_nul b1" and "no_nul b2"
  shows "process_commands os c ps fd (b1 @ b2) d k =
    (case process_commands os c ps fd b1 d k of
       (KeepClient, b, d1, k1) \<Rightarrow> process_commands os c ps fd (b @ b2) d1 k1
     | (v, b, d1, k1) \<Rightarrow> (v, b @ b2, d1, k1))"
  using assms
proof (induction os c ps fd b1 d k rule: process_commands.induct)
  case (1 os c ps fd b d k)
  show ?case
  proof (cases "has_command b")
    case False
    then show ?thesis by (simp add: process_commands.simps [of os c ps fd b])
  next
    case True
    note nul = c_str_no_nul [OF "1.prems"(2)] has_command_append [OF "1.prems"(2,3) True]
      after_command_append [OF True "1.prems"(2)] line_parser_append [OF "1.prems"(1) True "1.prems"(2)]
    have nul2: "c_str (b @ b2) = b @ b2" using "1.prems"(2,3) by (simp add: no_nul_def c_str_no_nul)
    show ?thesis
    proof (cases "dt_validate_command ps b \<and> dt_parse_command ps b \<noteq> None")
      case False
      with True nul nul2 show ?thesis
        by (auto simp: process_commands.simps [of os c ps fd b] process_commands.simps [of os c ps fd "b @ b2"])
    next
      case p: True
      then obtain command where cm: "dt_parse_command ps b = Some command" by auto
      obtain r d1 k1 where i: "invoke_command os c fd command d k = (r, d1, k1)" by (metis prod_cases3)
      have ih: "process_commands os c ps fd (after_command b @ b2) d1 k1 =
          (case process_commands os c ps fd (after_command b) d1 k1 of
             (KeepClient, b, d1, k1) \<Rightarrow> process_commands os c ps fd (b @ b2) d1 k1
           | (v, b, d1, k1) \<Rightarrow> (v, b @ b2, d1, k1))"
        if "r = ResultFail \<or> r = ResultSuccess"
        using "1.IH" [OF _ _ _ i [symmetric] refl _ _ "1.prems"(1) no_nul_after [OF "1.prems"(2)] "1.prems"(3)]
          True p cm nul that by auto
      from True p cm nul nul2 i ih show ?thesis
        by (cases r) (simp_all add: process_commands.simps [of os c ps fd b] process_commands.simps [of os c ps fd "b @ b2"])
    qed
  qed
qed

text \<open>A \<open>read\<close> that is interrupted by a signal costs the client a byte: the result minus one is
  added to the number of bytes in the buffer, so the last byte of an unfinished command is
  dropped.\<close>

lemma interrupted_read_drops_byte:
  assumes "find (\<lambda>cl. clientfd cl = fd) (clients d) = Some cl" and "buf cl = b @ [x]"
    and "buffer_ok (buf cl)" and "no_nul (buf cl)"
  shows "client_readable os c ps fd \<lparr>rd_data = None, rd_eintr = True\<rparr> d k = (None, set_buffer fd b d, k)"
proof -
  have "\<not> has_command b" "length b \<noteq> dtmd_command_max_length"
    using assms(2-4) by (auto simp: buffer_ok_def has_command_def c_str_no_nul no_nul_def)
  with assms(1,2) show ?thesis
    by (simp add: client_readable_def fill_buffer_def process_commands.simps [of os c ps fd b])
qed

text \<open>At the start the missing directories of the mount directory are created from the top
  down: only paths that lead to it and do not exist, each before the ones below it; on
  success the mount directory is the last one, unless it existed.\<close>

lemma create_mount_dir_top_down:
  assumes "create_mount_dir os dir w k = (r, w', k')"
  shows "\<exists>ps. syscalls k' = syscalls k @ map SysMkdir ps \<and> sorted_wrt strict_prefix ps \<and>
    list_all (\<lambda>p. p \<noteq> [] \<and> prefix p dir \<and> os_stat os (kstate k) p = StatError) ps \<and>
    (r = ResultSuccess \<longrightarrow> (if dir = [] \<or> os_stat os (kstate k) dir = StatDir then ps = [] else ps \<noteq> [] \<and> last ps = dir))"
proof -
  from assms consider "k' = k" "r \<noteq> ResultSuccess" | "create_mount_dir_recursive os dir k = (r, k')"
    by (auto simp: create_mount_dir_def split: prod.splits if_splits)
  then show ?thesis
  proof cases
    case 1
    then show ?thesis by (intro exI [of _ "[]"]) simp
  qed (rule create_mount_dir_calls)
qed

text \<open>The shutdown, whether the start succeeded or not, leaves no device and no client, closes
  each client's descriptor exactly once, in order, and sends no message to anybody, although
  every device is removed.\<close>

lemma shutdown_silent:
  "case shutdown os c initialized s of s' \<Rightarrow>
     removable_media_root (dmn s') = [] \<and> clients (dmn s') = [] \<and> clients_count (dmn s') = 0 \<and>
     sent (world (dmn s')) = sent (world (dmn s)) \<and>
     closed (world (dmn s')) = closed (world (dmn s)) @ map clientfd (clients (dmn s))"
proof -
  define d1 where "d1 = remove_all_clients (dmn s)"
  have d1: "clients d1 = []" "clients_count d1 = 0" "sent (world d1) = sent (world (dmn s))"
    "closed (world d1) = closed (world (dmn s)) @ map clientfd (clients (dmn s))"
    by (simp_all add: d1_def remove_all_clients_def close_all)
  obtain w2 k2 where 2: "(if unmount_on_exit c
      then (case invoke_unmount_all os (removable_media_root d1) (world d1) (krn s) of (r, w, k) \<Rightarrow> (w, k))
      else (world d1, krn s)) = (w2, k2)" by fastforce
  obtain w3 k3 where 3: "(if initialized \<and> clear_mount_dir c
      then remove_empty_dirs os (mount_root c) w2 k2 else (w2, k2)) = (w3, k3)" by fastforce
  have "alloc_only (world d1) w2"
    using 2 by (auto simp: invoke_unmount_all_def split: if_splits prod.splits dest: alloc_only_unmount_list)
  moreover have "alloc_only w2 w3"
    using 3 by (auto simp: remove_empty_dirs_def split: if_splits option.splits dest: alloc_only_remove_dirs)
  ultimately have "alloc_only (world d1) w3" by (rule alloc_only_trans)
  moreover have "shutdown os c initialized s = s\<lparr>dmn := remove_all_media (d1\<lparr>world := w3\<rparr>), krn := k3\<rparr>"
    unfolding shutdown_def Let_def d1_def [symmetric] by (simp only: 2 3 prod.case)
  ultimately show ?thesis using d1 by (auto simp: remove_all_media_def alloc_only_def)
qed

section \<open>Witnesses\<close>

text \<open>A parser that takes the first line for the name of a command.\<close>

definition demo_parser :: command_parser where
  "demo_parser = \<lparr>dt_validate_command = (\<lambda>s. takeWhile (\<lambda>c. c \<noteq> newline) s \<noteq> []),
     dt_parse_command = (\<lambda>s. Some \<lparr>cmd = takeWhile (\<lambda>c. c \<noteq> newline) s, args = []\<rparr>)\<rparr>"

lemma demo_line_parser: "line_parser demo_parser"
proof -
  have "newline \<notin> set line \<Longrightarrow> takeWhile (\<lambda>c. c \<noteq> newline) (line @ newline # rest) = line" for line rest
    by (induction line) auto
  then show ?thesis by (simp add: line_parser_def demo_parser_def)
qed

definition no_event :: revents where
  "no_event = \<lparr>pollhup = False, pollerr = False, pollnval = False, pollin = False\<rparr>"

definition some_input :: revents where
  "some_input = no_event\<lparr>pollin := True\<rparr>"

text \<open>Two passes: a client connects, and then asks for a list in two lines of which the second is
  not complete.\<close>

definition connect_pass :: loop_input where
  "connect_pass = \<lparr>in_poll = PollReady, in_socket = some_input, in_monitor = no_event, in_mounts = no_event,
     in_accept = Some 5, in_device = Inl ResultFail,
     in_clients = (\<lambda>_. (no_event, \<lparr>rd_data = None, rd_eintr = False\<rparr>))\<rparr>"

definition read_pass :: loop_input where
  "read_pass = connect_pass\<lparr>in_socket := no_event, in_clients := (\<lambda>_. (some_input,
     \<lparr>rd_data = Some (command_list_filesystems @ [newline] @ ''mou''), rd_eintr = False\<rparr>))\<rparr>"

definition demo_start :: "unit main_state" where
  "demo_start = snd (start_daemon demo_os [] ResultFail quiet_io demo_kernel)"

definition demo_end :: "unit main_state" where
  "demo_end = snd (main_loop demo_os initial_config demo_parser [connect_pass, read_pass] demo_start)"

lemma demo_runs:
  "fst (start_daemon demo_os [] ResultFail quiet_io demo_kernel) = True"
  "fst (main_loop demo_os initial_config demo_parser [connect_pass, read_pass] demo_start) = 0"
  "map buf (clients (dmn demo_end)) = [''mou'']"
  "fst (run_steps (loop_step demo_os initial_config demo_parser) [connect_pass, connect_pass\<lparr>in_poll := PollFailed\<rparr>] demo_start)
     = Some StopPoll"
  by code_simp+

theorem event_loop_invariant_witness:
  "pollfds_count demo_end = pollfds_count_default + 1 \<and> map buf (clients (dmn demo_end)) = [''mou'']"
proof -
  have s: "start_daemon demo_os [] ResultFail quiet_io demo_kernel = (True, demo_start)"
    "main_loop demo_os initial_config demo_parser [connect_pass, read_pass] demo_start = (0, demo_end)"
    using demo_runs(1,2) by (simp_all add: demo_start_def demo_end_def prod_eq_iff)
  have "length (clients (dmn demo_end)) = 1" using arg_cong [OF demo_runs(3), of length] by simp
  with event_loop_invariant [OF s] demo_runs(3) show ?thesis
    by (simp add: main_ok_def state_ok_def clients_ok_def)
qed

text \<open>A command and the start of another one, whose rest comes later.\<close>

definition split_run :: "verdict \<times> string \<times> daemon \<times> unit kernel" where
  "split_run = process_commands demo_os initial_config demo_parser 5 (command_list_filesystems @ [newline] @ ''mo'')
     disk_daemon demo_kernel"

lemma split_run_val:
  "fst split_run = KeepClient" "fst (snd split_run) = ''mo''"
  "length (sent (world (fst (snd (snd split_run))))) > length (sent (world disk_daemon))"
  by code_simp+

theorem reads_may_be_split_witness:
  "\<exists>d1 k1. process_commands demo_os initial_config demo_parser 5 (command_list_filesystems @ [newline] @ ''mount'')
      disk_daemon demo_kernel = (KeepClient, ''mount'', d1, k1) \<and>
     length (sent (world d1)) > length (sent (world disk_daemon))"
proof -
  have n: "no_nul (command_list_filesystems @ [newline] @ ''mo'')" "no_nul ''unt''" by code_simp+
  obtain d1 k1 where r: "split_run = (KeepClient, ''mo'', d1, k1)" using split_run_val(1,2) by (metis prod.collapse)
  have "\<not> has_command ''mount''" by (simp add: has_command_def c_str_def)
  then have rest: "process_commands demo_os initial_config demo_parser 5 (''mo'' @ ''unt'') d1 k1 = (KeepClient, ''mount'', d1, k1)"
    by (simp add: process_commands.simps [of _ _ _ _ "''mount''"])
  from reads_may_be_split [OF demo_line_parser n, of demo_os initial_config 5 disk_daemon demo_kernel] split_run_val(3) rest
  show ?thesis unfolding split_run_def [symmetric] r by (intro exI [of _ d1] exI [of _ k1]) simp
qed

end
