(* ===== verification/Dtmd_Wire.thy ===== *)
theory Dtmd_Wire
  imports Dtmd_Daemon_Spec
begin

text \<open>
  The format of the messages as both sides of the protocol rely on it.  The command parser is an
  external library and a parameter of the model; \<open>protocol_parser\<close> says what the daemon and
  the clients assume of it, and the parser at the end, which reads the format as
  \<^verbatim>\<open>library/dt-print-helpers.h\<close> prints it, shows that the assumption can be met.
\<close>

section \<open>The wire format\<close>

text \<open>What both sides rely on in the command parser: it looks at the first line only, and it reads
  a printed message back, for names of letters and underscores and arguments that are \<open>NULL\<close>
  or a text that is not empty and has no newline or NUL.\<close>

definition wire_name :: "string \<Rightarrow> bool" where
  "wire_name name \<longleftrightarrow> name \<noteq> [] \<and> list_all (\<lambda>c. isalpha (code c) \<or> c = CHR ''_'') name"

definition wire_text :: "string option \<Rightarrow> bool" where
  "wire_text a \<longleftrightarrow> (case a of None \<Rightarrow> True | Some s \<Rightarrow> s \<noteq> [] \<and> newline \<notin> set s \<and> no_nul s)"

definition wire_message :: "dt_command \<Rightarrow> string" where
  "wire_message c = message (cmd c) (map print_arg (args c))"

definition wire_command :: "dt_command \<Rightarrow> bool" where
  "wire_command c \<longleftrightarrow> wire_name (cmd c) \<and> list_all wire_text (args c)"

definition protocol_parser :: "command_parser \<Rightarrow> bool" where
  "protocol_parser ps \<longleftrightarrow> line_parser ps \<and> (\<forall>c. wire_command c \<longrightarrow>
     dt_validate_command ps (wire_message c) \<and> dt_parse_command ps (wire_message c) = Some c)"

lemma decimal_plain: "newline \<notin> set (decimal n)" "no_nul (decimal n)"
proof -
  have "c \<in> set (decimal n) \<Longrightarrow> c \<noteq> newline \<and> c \<noteq> CHR 0x00" for c
    using decimal_digits [of c n] by auto
  then show "newline \<notin> set (decimal n)" "no_nul (decimal n)" by (auto simp: no_nul_def)
qed

lemma print_arg_plain: "wire_text a \<Longrightarrow> newline \<notin> set (print_arg a) \<and> no_nul (print_arg a)"
  using decimal_plain by (auto simp: wire_text_def print_arg_def no_nul_def split: option.splits)

lemma join_args_plain:
  "list_all (\<lambda>s. newline \<notin> set s \<and> no_nul s) as \<Longrightarrow> newline \<notin> set (join_args as) \<and> no_nul (join_args as)"
  by (induction as rule: join_args.induct) (auto simp: no_nul_def)

lemma wire_name_plain: "wire_name n \<Longrightarrow> newline \<notin> set n \<and> no_nul n"
  by (auto simp: wire_name_def list_all_iff no_nul_def isalpha_def)

lemma wire_message_line:
  assumes "wire_command c"
  obtains line where "wire_message c = line @ [newline]" "newline \<notin> set line" "no_nul line"
proof -
  have "newline \<notin> set (join_args (map print_arg (args c))) \<and> no_nul (join_args (map print_arg (args c)))"
    using assms by (intro join_args_plain) (auto simp: wire_command_def list_all_iff print_arg_plain)
  with wire_name_plain [of "cmd c"] assms that [of "cmd c @ ''('' @ join_args (map print_arg (args c)) @ '')''"]
  show thesis by (auto simp: wire_message_def message_def wire_command_def no_nul_def)
qed

lemma print_plain_arg: "s \<noteq> [] \<Longrightarrow> print_plain s = print_arg (Some s)"
  by (simp add: print_plain_def print_arg_def)

section \<open>A parser of the format\<close>

definition number_of :: "string \<Rightarrow> nat" where
  "number_of ds = foldl (\<lambda>n c. 10 * n + (code c - 48)) 0 ds"

definition read_arg :: "string \<Rightarrow> (string option \<times> string) option" where
  "read_arg s =
     (if take 2 s = ''-1'' then Some (None, drop 2 s)
      else let ds = takeWhile (\<lambda>c. isdigit (code c)) s; r = dropWhile (\<lambda>c. isdigit (code c)) s; n = number_of ds in
        if ds = [] then None
        else if n = 0 then Some (Some '''', r)
        else (case r of
            [] \<Rightarrow> None
          | x # t \<Rightarrow> if x = CHR '' '' \<and> n \<le> length t then Some (Some (take n t), drop n t) else None))"

fun read_args :: "nat \<Rightarrow> string \<Rightarrow> string option list option" where
  "read_args 0 s = None"
| "read_args (Suc k) s = (case read_arg s of
     None \<Rightarrow> None
   | Some (a, r) \<Rightarrow>
       if r = '')'' then Some [a]
       else if take 2 r = '', '' then map_option (Cons a) (read_args k (drop 2 r)) else None)"

definition parse_wire :: "string \<Rightarrow> dt_command option" where
  "parse_wire s = (let name = takeWhile (\<lambda>c. c \<noteq> CHR ''('') s; r = dropWhile (\<lambda>c. c \<noteq> CHR ''('') s in
     if name = [] \<or> r = [] then None
     else if tl r = '')'' then Some \<lparr>cmd = name, args = []\<rparr>
     else map_option (\<lambda>as. \<lparr>cmd = name, args = as\<rparr>) (read_args (length r) (tl r)))"

definition wire_parser :: command_parser where
  "wire_parser = \<lparr>dt_validate_command = (\<lambda>s. parse_wire (takeWhile (\<lambda>c. c \<noteq> newline) s) \<noteq> None),
     dt_parse_command = (\<lambda>s. parse_wire (takeWhile (\<lambda>c. c \<noteq> newline) s))\<rparr>"

lemma number_of_decimal: "number_of (decimal n) = n"
proof (induction n rule: decimal.induct)
  case (1 n)
  show ?case
  proof (cases "n < 10")
    case True
    then show ?thesis by (subst decimal.simps) (simp add: number_of_def of_char_of)
  next
    case False
    from 1 [OF this] have "foldl (\<lambda>n c. 10 * n + (code c - 48)) 0 (decimal (n div 10)) = n div 10"
      by (simp add: number_of_def)
    moreover have "n mod 10 < 10" by simp
    ultimately show ?thesis
      using False by (subst decimal.simps) (simp add: number_of_def of_char_of)
  qed
qed

lemma takeWhile_stop:
  "list_all P xs \<Longrightarrow> ys = [] \<or> \<not> P (hd ys) \<Longrightarrow> takeWhile P (xs @ ys) = xs \<and> dropWhile P (xs @ ys) = ys"
  by (induction xs) (cases ys; auto)+

lemma read_print_arg:
  assumes "wire_text a"
  shows "read_arg (print_arg a @ r) = Some (a, r)"
proof (cases a)
  case None
  then show ?thesis by (simp add: read_arg_def print_arg_def)
next
  case (Some s)
  with assms have s: "s \<noteq> []" by (simp add: wire_text_def)
  let ?d = "decimal (length s)"
  have d: "list_all (\<lambda>c. isdigit (code c)) ?d"
    by (auto simp: list_all_iff isdigit_def dest: decimal_digits)
  have p: "print_arg a @ r = ?d @ CHR '' '' # s @ r" using Some s by (simp add: print_arg_def)
  have "takeWhile (\<lambda>c. isdigit (code c)) (?d @ CHR '' '' # s @ r) = ?d \<and>
      dropWhile (\<lambda>c. isdigit (code c)) (?d @ CHR '' '' # s @ r) = CHR '' '' # s @ r"
    by (rule takeWhile_stop [OF d]) (simp add: isdigit_def)
  moreover have "take 2 (?d @ CHR '' '' # s @ r) \<noteq> ''-1''"
    using d by (cases ?d) (auto simp: isdigit_def)
  ultimately show ?thesis
    using s Some unfolding p by (simp add: read_arg_def Let_def number_of_decimal)
qed

lemma read_print_args:
  "as \<noteq> [] \<Longrightarrow> list_all wire_text as \<Longrightarrow> length as \<le> k \<Longrightarrow>
   read_args k (join_args (map print_arg as) @ '')'') = Some as"
proof (induction as arbitrary: k)
  case (Cons a as)
  then obtain k' where k: "k = Suc k'" by (cases k) auto
  show ?case
  proof (cases as)
    case Nil
    with Cons.prems k show ?thesis by (simp add: read_print_arg)
  next
    case (Cons b bs)
    have "read_args k' (join_args (map print_arg as) @ '')'') = Some as"
      using Cons.IH [of k'] Cons.prems k local.Cons by simp
    moreover have "join_args (map print_arg (a # as)) @ '')'' =
        print_arg a @ '', '' @ join_args (map print_arg as) @ '')''"
      using local.Cons by simp
    ultimately show ?thesis using Cons.prems k by (simp add: read_print_arg)
  qed
qed simp

lemma print_arg_length: "1 \<le> length (print_arg a)"
  by (cases a) (simp_all add: print_arg_def Suc_le_eq)

lemma join_args_length: "length as \<le> length (join_args (map print_arg as))"
proof (induction as rule: induct_list012)
  case (3 a b as)
  with print_arg_length [of a] show ?case by simp
qed (use print_arg_length in simp_all)

lemma wire_parser_protocol: "protocol_parser wire_parser"
proof -
  have line: "newline \<notin> set l \<Longrightarrow> takeWhile (\<lambda>c. c \<noteq> newline) (l @ newline # r) = l" for l r
    by (induction l) auto
  have "parse_wire (takeWhile (\<lambda>c. c \<noteq> newline) (wire_message c)) = Some c" if c: "wire_command c" for c
  proof -
    let ?a = "join_args (map print_arg (args c))"
    obtain l where l: "wire_message c = l @ [newline]" "newline \<notin> set l" by (rule wire_message_line [OF c])
    then have m: "l = cmd c @ CHR ''('' # ?a @ '')''" by (simp add: wire_message_def message_def)
    have n: "list_all (\<lambda>x. x \<noteq> CHR ''('') (cmd c)" "cmd c \<noteq> []"
      using c by (auto simp: wire_command_def wire_name_def list_all_iff isalpha_def)
    have tw: "takeWhile (\<lambda>x. x \<noteq> CHR ''('') l = cmd c \<and> dropWhile (\<lambda>x. x \<noteq> CHR ''('') l = CHR ''('' # ?a @ '')''"
      unfolding m by (rule takeWhile_stop [OF n(1)]) simp
    have "parse_wire l = Some c"
    proof (cases "args c = []")
      case True
      with tw n(2) show ?thesis by (cases c) (simp add: parse_wire_def)
    next
      case False
      then have "1 \<le> length (args c)" by (simp add: Suc_le_eq)
      with join_args_length [of "args c"] have ne: "?a \<noteq> []" by auto
      have "read_args (length (CHR ''('' # ?a @ '')'')) (?a @ '')'') = Some (args c)"
        using False c join_args_length [of "args c"] by (intro read_print_args) (auto simp: wire_command_def)
      with tw n(2) ne show ?thesis by (cases c) (simp add: parse_wire_def)
    qed
    with line [OF l(2), of "[]"] show ?thesis unfolding l(1) by simp
  qed
  with line show ?thesis by (simp add: protocol_parser_def line_parser_def wire_parser_def)
qed

end
