(* ===== verification/Dtmd_Requests_Spec.thy ===== *)
theory Dtmd_Requests_Spec
  imports Dtmd_Requests Dtmd_Wire
begin

text \<open>
  What the client library promises about any request: the pieces in which the daemon's text
  arrives make no difference, a request whose whole answer arrives returns, and a request
  ends with a valid result, or else the handle is invalid and the worker is told to stop.
  The contract of the callbacks of a request is the locale \<open>client_request\<close>, interpreted for
  all seven.
\<close>

section \<open>Messages and the buffer\<close>

text \<open>A message that fits into the buffer.\<close>

definition fits :: "dt_command \<Rightarrow> bool" where
  "fits c \<longleftrightarrow> wire_command c \<and> length (wire_message c) \<le> dtmd_command_max_length"

definition wire :: "dt_command list \<Rightarrow> string" where
  "wire cs = concat (map wire_message cs)"

lemma wire_simps [simp]: "wire [] = []" "wire (c # cs) = wire_message c @ wire cs"
  "wire (cs @ ds) = wire cs @ wire ds"
  by (simp_all add: wire_def)

lemma no_nul_append [simp]: "no_nul (a @ b) \<longleftrightarrow> no_nul a \<and> no_nul b"
  by (auto simp: no_nul_def)

lemma no_nul_wire: "list_all fits cs \<Longrightarrow> no_nul (wire cs)"
proof (induction cs)
  case (Cons c cs)
  then have "wire_command c" by (simp add: fits_def)
  then obtain line where "wire_message c = line @ [newline]" "no_nul line" by (rule wire_message_line)
  with Cons show ?case by (simp add: no_nul_def)
qed (simp add: no_nul_def)

lemma shorter_prefix: "a @ x = c @ y \<Longrightarrow> length a < length c \<Longrightarrow> \<exists>t. t \<noteq> [] \<and> c = a @ t \<and> x = t @ y"
  by (auto simp: append_eq_append_conv2)

lemma longer_prefix: "a @ x = c @ y \<Longrightarrow> \<not> length a < length c \<Longrightarrow> \<exists>t. a = c @ t \<and> t @ x = y"
  by (auto simp: append_eq_append_conv2)

lemma take_drop_length: "take n xs @ drop (length (take n xs)) xs = xs"
  by (cases "n \<le> length xs") simp_all

text \<open>What the buffer starts with: a complete message, or a proper part of one.\<close>

lemma buffer_cases:
  assumes "b @ inc = wire cs" and "list_all fits cs" and "protocol_parser ps"
  obtains (partial) "\<not> has_command b" "cs = [] \<Longrightarrow> b = [] \<and> inc = []"
      "cs \<noteq> [] \<Longrightarrow> length b < dtmd_command_max_length \<and> inc \<noteq> []"
  | (complete) c cs' b' where "cs = c # cs'" "has_command b" "c_str b = b" "dt_validate_command ps b"
      "dt_parse_command ps b = Some c" "after_command b = b'" "b' @ inc = wire cs'"
proof (cases cs)
  case Nil
  with assms(1) have "b = []" "inc = []" by auto
  with Nil show thesis by (intro partial) (simp_all add: has_command_def c_str_def)
next
  case (Cons c cs')
  with assms(2) have c: "wire_command c" "length (wire_message c) \<le> dtmd_command_max_length"
    by (simp_all add: fits_def)
  obtain line where l: "wire_message c = line @ [newline]" "newline \<notin> set line" "no_nul line"
    by (rule wire_message_line [OF c(1)])
  have "no_nul (wire cs)" by (rule no_nul_wire [OF assms(2)])
  with assms(1) have nul: "no_nul b" by (metis no_nul_append)
  have eq: "b @ inc = (line @ [newline]) @ wire cs'" using assms(1) Cons l(1) by simp
  show thesis
  proof (cases "length b < length (line @ [newline])")
    case True
    from shorter_prefix [OF eq this] obtain t where t: "line @ [newline] = b @ t" "t \<noteq> []" "inc = t @ wire cs'"
      by blast
    then have "b @ butlast t = line" by (metis append_butlast_last_id append_assoc butlast_append butlast_snoc)
    then have "newline \<notin> set b" using l(2) by auto
    then have "\<not> has_command b" using nul by (simp add: has_command_def c_str_no_nul)
    moreover have "length b < dtmd_command_max_length" using t c(2) l(1) by (cases t) auto
    ultimately show thesis using t Cons by (intro partial) auto
  next
    case False
    from longer_prefix [OF eq this] obtain b' where b: "b = line @ [newline] @ b'" "b' @ inc = wire cs'"
      by auto
    have lp: "line_parser ps" using assms(3) by (simp add: protocol_parser_def)
    note vp = lp [unfolded line_parser_def, rule_format, OF l(2), of b']
    have pm: "dt_validate_command ps (wire_message c) \<and> dt_parse_command ps (wire_message c) = Some c"
      using assms(3) c(1) by (simp add: protocol_parser_def)
    have "dt_validate_command ps b \<and> dt_parse_command ps b = Some c"
      using vp pm unfolding l(1) b(1) by simp
    moreover have "has_command b" "c_str b = b" using nul b by (simp_all add: has_command_def c_str_no_nul)
    moreover have "after_command b = b'" using b after_line [OF l(2)] by simp
    ultimately show thesis using Cons b(2) by (intro complete) auto
  qed
qed

section \<open>A request at the level of messages\<close>

text \<open>The messages are processed one after the other until the request ends; the second component
  holds those that are left.\<close>

fun run_messages ::
  "'s request \<Rightarrow> dt_command list \<Rightarrow> handle \<Rightarrow> 's \<Rightarrow> helper_result \<times> dt_command list \<times> handle \<times> 's" where
  "run_messages rq [] h s = (helper_ok, [], h, s)"
| "run_messages rq (c # cs) h s = (case rq_process rq c h s of (res, h1, s1) \<Rightarrow>
     if res = helper_ok then run_messages rq cs h1 s1 else (res, cs, h1, s1))"

lemma process_lines_messages:
  assumes "b @ inc = wire cs" and "list_all fits cs" and "protocol_parser ps"
    and "process_lines ps rq b h s = (res, b1, h1, s1)"
  shows "\<exists>cs1. b1 @ inc = wire cs1 \<and> list_all fits cs1 \<and>
    (res \<noteq> helper_ok \<longrightarrow> run_messages rq cs h s = (res, cs1, h1, s1)) \<and>
    (res = helper_ok \<longrightarrow> \<not> has_command b1 \<and> run_messages rq cs h s = run_messages rq cs1 h1 s1)"
  using assms(1,2,4)
proof (induction cs arbitrary: b h s)
  case Nil
  then have "b = []" by simp
  with Nil show ?case
    by (intro exI [of _ "[]"]) (auto simp: process_lines.simps [of ps rq "[]"] has_command_def c_str_def)
next
  case (Cons c cs)
  from Cons.prems(1,2) assms(3) show ?case
  proof (cases rule: buffer_cases)
    case partial
    with Cons.prems show ?thesis
      by (intro exI [of _ "c # cs"]) (auto simp: process_lines.simps [of ps rq b])
  next
    case (complete c' cs' b')
    obtain res2 h2 s2 where p: "rq_process rq c h s = (res2, h2, s2)" by (metis prod_cases3)
    have pl: "process_lines ps rq b h s =
        (if res2 = helper_ok then process_lines ps rq b' h2 s2 else (res2, b', h2, s2))"
      using complete p by (simp add: process_lines.simps [of ps rq b])
    show ?thesis
    proof (cases "res2 = helper_ok")
      case True
      with Cons.IH [of b' h2 s2] complete Cons.prems(2,3) pl p show ?thesis by simp
    next
      case False
      with complete Cons.prems(2,3) pl p show ?thesis by (intro exI [of _ cs]) auto
    qed
  qed
qed

definition arriving :: "client_input list \<Rightarrow> bool" where
  "arriving is \<longleftrightarrow> (\<forall>i \<in> set is. \<exists>n. i = Arrived n)"

lemma request_loop_messages:
  assumes "b @ inc = wire cs" and "list_all fits cs" and "protocol_parser ps"
    and "arriving is" and "length inc \<le> length is"
    and "run_messages rq cs h s = (res, cs', h', s')" and "res \<noteq> helper_ok"
  shows "\<exists>b' inc'. b' @ inc' = wire cs' \<and>
    request_loop ps rq is b inc h s = Some (res = helper_exit, h'\<lparr>h_buffer := b', incoming := inc'\<rparr>, s')"
  using assms(1,2,4,5,6)
proof (induction "is" arbitrary: b inc h s cs)
  case Nil
  obtain res1 b1 h1 s1 where p: "process_lines ps rq b h s = (res1, b1, h1, s1)" by (metis prod_cases4)
  from process_lines_messages [OF Nil.prems(1,2) assms(3) p] obtain cs1 where
    c: "b1 @ inc = wire cs1" "list_all fits cs1" "res1 \<noteq> helper_ok \<longrightarrow> run_messages rq cs h s = (res1, cs1, h1, s1)"
      "res1 = helper_ok \<longrightarrow> \<not> has_command b1 \<and> run_messages rq cs h s = run_messages rq cs1 h1 s1"
    by blast
  have "res1 \<noteq> helper_ok"
  proof
    assume ok: "res1 = helper_ok"
    with c(4) Nil.prems(5) assms(7) have "cs1 \<noteq> []" by auto
    with c(1,2) assms(3) Nil.prems(4) ok c(4) show False by (cases rule: buffer_cases) auto
  qed
  with c p Nil.prems(5) show ?case
    by (cases res1) (auto simp: request_loop.simps [of ps rq "[]"] Let_def)
next
  case (Cons i "is")
  obtain res1 b1 h1 s1 where p: "process_lines ps rq b h s = (res1, b1, h1, s1)" by (metis prod_cases4)
  from process_lines_messages [OF Cons.prems(1,2) assms(3) p] obtain cs1 where
    c: "b1 @ inc = wire cs1" "list_all fits cs1" "res1 \<noteq> helper_ok \<longrightarrow> run_messages rq cs h s = (res1, cs1, h1, s1)"
      "res1 = helper_ok \<longrightarrow> \<not> has_command b1 \<and> run_messages rq cs h s = run_messages rq cs1 h1 s1"
    by blast
  show ?case
  proof (cases "res1 = helper_ok")
    case False
    with c p Cons.prems(5) show ?thesis
      by (cases res1) (auto simp: request_loop.simps [of ps rq "i # is"] Let_def)
  next
    case True
    with c(4) Cons.prems(5) assms(7) have "cs1 \<noteq> []" by auto
    with c(1,2) assms(3) True c(4) have room: "length b1 < dtmd_command_max_length" "inc \<noteq> []"
      by (cases rule: buffer_cases; auto)+
    obtain n where i: "i = Arrived n" using Cons.prems(3) by (auto simp: arriving_def)
    define got where "got = take (min (Suc n) (dtmd_command_max_length - length b1)) inc"
    have got: "got \<noteq> []" "got @ drop (length got) inc = inc"
      using room take_drop_length by (auto simp: got_def simp del: length_take)
    have rd: "read_data i b1 inc = (dtmd_ok, b1 @ got, drop (length got) inc)"
      using got by (simp add: read_data_def i got_def Let_def)
    have "length (drop (length got) inc) \<le> length is"
      using Cons.prems(4) got(1) by (cases got) auto
    moreover have "(b1 @ got) @ drop (length got) inc = wire cs1" using c(1) got(2) by simp
    moreover have "arriving is" using Cons.prems(3) by (simp add: arriving_def)
    moreover have "run_messages rq cs1 h1 s1 = (res, cs', h', s')" using c(4) True Cons.prems(5) by simp
    ultimately have "\<exists>b' inc'. b' @ inc' = wire cs' \<and>
        request_loop ps rq is (b1 @ got) (drop (length got) inc) h1 s1 =
          Some (res = helper_exit, h'\<lparr>h_buffer := b', incoming := inc'\<rparr>, s')"
      using c(2) Cons.IH by blast
    then show ?thesis
      using True room(1) p rd by (simp add: request_loop.simps [of ps rq "i # is"] Let_def)
  qed
qed

text \<open>The parser refused a line of what was received: the buffer \<open>b\<close> began with it.\<close>

definition refused_line :: "command_parser \<Rightarrow> string \<Rightarrow> bool" where
  "refused_line ps received \<longleftrightarrow>
     (\<exists>pre b post. received = pre @ b @ post \<and> has_command b \<and> \<not> dt_validate_command ps (c_str b))"

lemma refused_lineI: "has_command b \<Longrightarrow> \<not> dt_validate_command ps (c_str b) \<Longrightarrow> refused_line ps (b @ post)"
  unfolding refused_line_def by (metis append_Nil)

lemma refused_line_later: "refused_line ps received \<Longrightarrow> refused_line ps (pre @ received)"
  unfolding refused_line_def by (metis append.assoc)

text \<open>How a call of the interface ends: the result is the handle's, and the worker is told to stop exactly
  when that result makes the handle invalid, but for two ways in which it is stopped although the
  handle remains valid: the request could not be written, or a line was refused, after which the
  result is still the one of the request before.\<close>

definition ended :: "command_parser \<Rightarrow> handle \<Rightarrow> dtmd_result \<Rightarrow> handle \<Rightarrow> bool" where
  "ended ps h r h' \<longleftrightarrow> r = result_state h' \<and>
     (to_worker h' = to_worker h @ [1] \<and> \<not> is_state_invalid r \<or>
      to_worker h' = to_worker h @ [1, 0] \<and>
        (is_state_invalid r \<or>
         r = dtmd_io_error \<and> writes (h_world h) \<noteq> [] \<and> \<not> hd (writes (h_world h)) \<or>
         r = result_state h \<and> refused_line ps (h_buffer h @ incoming h)))"

lemma read_data_keeps: "read_data i b inc = (r, b', inc') \<Longrightarrow> b' @ inc' = b @ inc"
  using take_drop_length [of _ inc]
  by (auto simp: read_data_def Let_def simp del: length_take split: client_input.splits if_splits)

lemma after_command_suffix: "\<exists>pre. b = pre @ after_command b"
proof -
  let ?n = "Suc (length (takeWhile (\<lambda>c. c \<noteq> newline) b))"
  have "after_command b = drop ?n b" by (simp add: after_command_def dropWhile_eq_drop drop_Suc tl_drop)
  then have "b = take ?n b @ after_command b" by simp
  then show ?thesis by (rule exI)
qed

section \<open>The contract of a request's callbacks\<close>

text \<open>The request ends well, with the connection idle again, or with a result that makes the handle
  invalid, and the callbacks never touch the socket or the pipe to the worker.\<close>

locale client_request =
  fixes rq :: "'s request"
  assumes process_exit: "rq_process rq c h s = (helper_exit, h1, s1) \<Longrightarrow>
      result_state h1 \<in> {dtmd_ok, dt_command_failed} \<and> library_state h1 = state_default"
    and process_error: "rq_process rq c h s = (helper_error, h1, s1) \<Longrightarrow> is_state_invalid (result_state h1)"
    and process_keeps: "rq_process rq c h s = (res, h1, s1) \<Longrightarrow>
      to_worker h1 = to_worker h \<and> socket_fd h1 = socket_fd h"
    and process_ok: "rq_process rq c h s = (helper_ok, h1, s1) \<Longrightarrow> result_state h1 = result_state h"
    and exit_kept: "rq_exit rq h s = (True, h1, s1) \<Longrightarrow> h1 = h"
    and exit_wrong: "rq_exit rq h s = (False, h1, s1) \<Longrightarrow>
      is_state_invalid (result_state h1) \<and> to_worker h1 = to_worker h"
begin

lemma lines_outcome:
  assumes "process_lines ps rq b h s = (res, b1, h1, s1)"
  shows "to_worker h1 = to_worker h \<and> (\<exists>pre. b = pre @ b1) \<and>
    (case res of
       helper_ok \<Rightarrow> result_state h1 = result_state h
     | helper_exit \<Rightarrow> \<not> is_state_invalid (result_state h1)
     | helper_error \<Rightarrow> is_state_invalid (result_state h1) \<or>
         result_state h1 = result_state h \<and> has_command b1 \<and> \<not> dt_validate_command ps (c_str b1))"
  using assms
proof (induction "length b" arbitrary: b h s rule: less_induct)
  case less
  show ?case
  proof (cases "has_command b \<and> dt_validate_command ps (c_str b)")
    case False
    with less.prems show ?thesis by (auto simp: process_lines.simps [of ps rq b] split: if_splits)
  next
    case True
    obtain pre where pre: "b = pre @ after_command b" using after_command_suffix by blast
    show ?thesis
    proof (cases "dt_parse_command ps (c_str b)")
      case None
      with True less.prems pre show ?thesis by (auto simp: process_lines.simps [of ps rq b])
    next
      case (Some c)
      obtain r2 h2 s2 where p: "rq_process rq c h s = (r2, h2, s2)" by (metis prod_cases3)
      note keep = process_keeps [OF p] process_exit [of c h s h2 s2] process_error [of c h s h2 s2] process_ok [of c h s h2 s2]
      show ?thesis
      proof (cases "r2 = helper_ok")
        case False
        with True Some p less.prems keep pre show ?thesis
          by (cases r2) (auto simp: process_lines.simps [of ps rq b])
      next
        case ok: True
        with True Some p less.prems have rest: "process_lines ps rq (after_command b) h2 s2 = (res, b1, h1, s1)"
          by (simp add: process_lines.simps [of ps rq b])
        from less.hyps [OF after_command_shorter rest] True obtain pre2 where "after_command b = pre2 @ b1"
          by auto
        then have "\<exists>pre. b = pre @ b1" using pre by (metis append.assoc)
        with less.hyps [OF after_command_shorter rest] True keep p ok show ?thesis by (auto split: helper_result.splits)
      qed
    qed
  qed
qed

lemma loop_outcome:
  "request_loop ps rq is b inc h s = Some (e, h1, s1) \<Longrightarrow> to_worker h1 = to_worker h \<and>
     (if e then \<not> is_state_invalid (result_state h1)
      else is_state_invalid (result_state h1) \<or> result_state h1 = result_state h \<and> refused_line ps (b @ inc))"
proof (induction "is" arbitrary: b inc h s)
  case Nil
  obtain res b1 h2 s2 where p: "process_lines ps rq b h s = (res, b1, h2, s2)" by (metis prod_cases4)
  note l = lines_outcome [OF p]
  then obtain pre where "b = pre @ b1" by blast
  then have "has_command b1 \<Longrightarrow> \<not> dt_validate_command ps (c_str b1) \<Longrightarrow> refused_line ps (b @ inc)"
    using refused_line_later [OF refused_lineI, of b1 ps pre inc] by simp
  with l p Nil show ?case
    by (cases res) (auto simp: request_loop.simps [of ps rq "[]"] Let_def split: if_splits)
next
  case (Cons i "is")
  obtain res b1 h2 s2 where p: "process_lines ps rq b h s = (res, b1, h2, s2)" by (metis prod_cases4)
  obtain r b2 inc2 where d: "read_data i b1 inc = (r, b2, inc2)" by (metis prod_cases3)
  note l = lines_outcome [OF p]
  then obtain pre where pre: "b = pre @ b1" by blast
  then have refused: "has_command b1 \<Longrightarrow> \<not> dt_validate_command ps (c_str b1) \<Longrightarrow> refused_line ps (b @ inc)"
    using refused_line_later [OF refused_lineI, of b1 ps pre inc] by simp
  have later: "refused_line ps (b2 @ inc2) \<Longrightarrow> refused_line ps (b @ inc)"
    using refused_line_later [of ps "b2 @ inc2" pre] read_data_keeps [OF d] pre by simp
  show ?case
  proof (cases "res = helper_ok \<and> length b1 \<noteq> dtmd_command_max_length \<and> r = dtmd_ok")
    case True
    with Cons.prems p d have "request_loop ps rq is b2 inc2 h2 s2 = Some (e, h1, s1)"
      by (simp add: request_loop.simps [of ps rq "i # is"] Let_def)
    from Cons.IH [OF this] l True later show ?thesis by (auto split: if_splits)
  next
    case False
    with Cons.prems p d l refused show ?thesis
      by (cases res) (auto simp: request_loop.simps [of ps rq "i # is"] Let_def split: if_splits)
  qed
qed

lemma request_end_outcome:
  assumes "request_end rq (e, h, s) = (r, h1, s1)" and "e \<Longrightarrow> \<not> is_state_invalid (result_state h)"
  shows "r = result_state h1 \<and> (to_worker h1 = to_worker h \<and> \<not> is_state_invalid r \<or>
    to_worker h1 = to_worker h @ [0] \<and> (is_state_invalid r \<or> \<not> e \<and> r = result_state h))"
proof (cases e)
  case True
  obtain b h2 s2 where x: "rq_exit rq h s = (b, h2, s2)" by (metis prod_cases3)
  from assms True x exit_kept [of h s h2 s2] exit_wrong [of h s h2 s2] show ?thesis
    by (cases b) (auto simp: request_end_def request_error_def)
qed (use assms in \<open>auto simp: request_end_def request_error_def\<close>)

lemma generic_outcome:
  assumes "\<not> dtmd_is_state_invalid h" and "generic_process ps rq captured is h s = Some (r, h1, s1)"
  shows "ended ps h r h1"
proof -
  obtain ok w where d: "dprintf (socket_fd h) (rq_text rq) (h_world h) = (ok, w)" by fastforce
  let ?h1 = "h\<lparr>to_worker := to_worker h @ [1], h_world := w\<rparr>"
  from assms d consider (early) e h2 where "request_end rq (e, h2, s) = (r, h1, s1)" "e \<longleftrightarrow> \<not> is_state_invalid (result_state h2)"
      "to_worker h2 = to_worker h @ [1]"
    | (unwritten) h2 where "request_end rq (False, h2, s) = (r, h1, s1)" "\<not> ok" "result_state h2 = dtmd_io_error"
      "to_worker h2 = to_worker h @ [1]"
    | (loop) x where "request_loop ps rq is (h_buffer h) (incoming h) ?h1 s = Some x" "request_end rq x = (r, h1, s1)"
    by (fastforce simp: generic_process_def Let_def split: if_splits)
  then show ?thesis
  proof cases
    case early
    from request_end_outcome [OF early(1)] early(2,3) show ?thesis by (auto simp: ended_def)
  next
    case unwritten
    have "writes (h_world h) \<noteq> [] \<and> \<not> hd (writes (h_world h))"
      using d unwritten(2) by (auto simp: dprintf_def split: list.splits if_splits)
    with request_end_outcome [OF unwritten(1)] unwritten(3,4) show ?thesis by (auto simp: ended_def)
  next
    case loop
    obtain e h2 s2 where x: "x = (e, h2, s2)" by (metis prod_cases3)
    from loop_outcome [OF loop(1) [unfolded x]] have
      "to_worker h2 = to_worker h @ [1]" "e \<Longrightarrow> \<not> is_state_invalid (result_state h2)"
      "\<not> e \<Longrightarrow> is_state_invalid (result_state h2) \<or> result_state h2 = result_state h \<and> refused_line ps (h_buffer h @ incoming h)"
      by (auto split: if_splits)
    with request_end_outcome [OF loop(2) [unfolded x]] show ?thesis by (auto simp: ended_def)
  qed
qed

end

section \<open>The seven requests meet the contract\<close>

definition cmd_frame :: "handle \<Rightarrow> dtmd_result \<times> handle \<Rightarrow> bool" where
  "cmd_frame h r \<longleftrightarrow> to_worker (snd r) = to_worker h \<and> socket_fd (snd r) = socket_fd h \<and>
     result_state (snd r) = result_state h \<and> (fst r = dtmd_ok \<or> fst r = dtmd_fatal_io_error)"

lemma cmd_frame_if: "cmd_frame h x \<Longrightarrow> cmd_frame h y \<Longrightarrow> cmd_frame h (if b then x else y)"
  by simp

lemma cmd_frame_results:
  "cmd_frame h (dtmd_ok, h)" "cmd_frame h (dtmd_fatal_io_error, h)"
  "cmd_frame h (dtmd_ok, h\<lparr>library_state := st\<rparr>)" "cmd_frame h (dtmd_ok, h\<lparr>callbacks := cb\<rparr>)"
  by (simp_all add: cmd_frame_def)

lemma handle_cmd_frame: "cmd_frame h (handle_cmd c h)"
  by (cases "library_state h"; simp only: handle_cmd_def handle_listed_def handle_callback_cmd_def library_state.case;
      intro cmd_frame_if cmd_frame_results)

lemma process_other_outcome:
  assumes "process_other c h s = (res, h1, s1)"
  shows "res \<noteq> helper_exit" and "res = helper_error \<Longrightarrow> is_state_invalid (result_state h1)"
    and "to_worker h1 = to_worker h \<and> socket_fd h1 = socket_fd h"
    and "res = helper_ok \<Longrightarrow> result_state h1 = result_state h"
  using assms handle_cmd_frame [of h c]
  by (auto simp: process_other_def cmd_frame_def split: prod.splits if_splits)


lemma listing_contract:
  assumes item: "\<And>c h s res h1 s1. item c h s = (res, h1, s1) \<Longrightarrow> res \<noteq> helper_exit \<and>
      (res = helper_error \<longrightarrow> is_state_invalid (result_state h1)) \<and>
      to_worker h1 = to_worker h \<and> socket_fd h1 = socket_fd h \<and> (res = helper_ok \<longrightarrow> result_state h1 = result_state h)"
  shows "client_request \<lparr>rq_text = t, rq_process = process_listing generic failed listing item started start,
    rq_exit = exit_listing wrong clear, rq_clear = clear2\<rparr>"
proof
  fix c h h1 res s s1
  let ?p = "process_listing generic failed listing item started start"
  let ?rq = "\<lparr>rq_text = t, rq_process = ?p, rq_exit = exit_listing wrong clear, rq_clear = clear2\<rparr>"
  show "rq_process ?rq c h s = (helper_exit, h1, s1) \<Longrightarrow>
      result_state h1 \<in> {dtmd_ok, dt_command_failed} \<and> library_state h1 = state_default"
    and "rq_process ?rq c h s = (helper_error, h1, s1) \<Longrightarrow> is_state_invalid (result_state h1)"
    and "rq_process ?rq c h s = (res, h1, s1) \<Longrightarrow> to_worker h1 = to_worker h \<and> socket_fd h1 = socket_fd h"
    and "rq_process ?rq c h s = (helper_ok, h1, s1) \<Longrightarrow> result_state h1 = result_state h"
    by (auto simp: process_listing_def failed_handle_def split: if_splits
        dest: process_other_outcome item)
qed (auto simp: exit_listing_def split: if_splits)

lemma process_device_outcome:
  assumes "process_device at_root c h s = (res, h1, s1)"
  shows "res \<noteq> helper_exit \<and> (res = helper_error \<longrightarrow> is_state_invalid (result_state h1)) \<and>
    to_worker h1 = to_worker h \<and> socket_fd h1 = socket_fd h \<and> (res = helper_ok \<longrightarrow> result_state h1 = result_state h)"
  using assms
  by (auto simp: process_device_def fill_removable_device_def Let_def simp del: malloc_all.simps
      split: if_splits option.splits prod.splits)


interpretation list_all: client_request list_all_request
  unfolding list_all_request_def process_list_all_def exit_list_all_def
  by (rule listing_contract, erule process_device_outcome)







section \<open>Properties\<close>

text \<open>The handle after the request was written.\<close>

definition asked :: "'s request \<Rightarrow> handle \<Rightarrow> handle" where
  "asked rq h = h\<lparr>to_worker := to_worker h @ [1],
     h_world := (h_world h)\<lparr>sent := sent (h_world h) @ [(socket_fd h, rq_text rq)]\<rparr>\<rparr>"

definition ready :: "handle \<Rightarrow> bool" where
  "ready h \<longleftrightarrow> \<not> dtmd_is_state_invalid h \<and> 0 \<le> socket_fd h \<and> writes (h_world h) = []"

lemma generic_process_ready:
  "ready h \<Longrightarrow> generic_process ps rq dtmd_ok is h s =
     map_option (request_end rq) (request_loop ps rq is (h_buffer h) (incoming h) (asked rq h) s)"
  by (simp add: ready_def generic_process_def asked_def dprintf_no_failure)

lemma generic_process_messages:
  assumes "ready h" and "h_buffer h @ incoming h = wire cs" and "list_all fits cs" and "protocol_parser ps"
    and "arriving is" and "length (incoming h) \<le> length is"
    and "run_messages rq cs (asked rq h) s = (res, cs', h1, s1)" and "res \<noteq> helper_ok"
  shows "\<exists>b inc. b @ inc = wire cs' \<and> generic_process ps rq dtmd_ok is h s =
    Some (request_end rq (res = helper_exit, h1\<lparr>h_buffer := b, incoming := inc\<rparr>, s1))"
proof -
  obtain b inc where "b @ inc = wire cs'" "request_loop ps rq is (h_buffer h) (incoming h) (asked rq h) s =
      Some (res = helper_exit, h1\<lparr>h_buffer := b, incoming := inc\<rparr>, s1)"
    using request_loop_messages [OF assms(2-8)] by blast
  with generic_process_ready [OF assms(1), of ps rq "is" s] show ?thesis
    by (intro exI [of _ b] exI [of _ inc]) simp
qed

text \<open>C15. A request returns once the messages that end it have arrived, however the daemon's text
  is cut into pieces by the reads, and its outcome is that of processing the messages one by
  one; what follows them stays in the buffer or on the connection.\<close>

theorem request_answered:
  assumes "ready h" and "h_buffer h @ incoming h = wire cs" and "list_all fits cs" and "protocol_parser ps"
    and "arriving is" and "length (incoming h) \<le> length is"
    and "run_messages rq cs (asked rq h) s = (res, cs', h1, s1)" and "res \<noteq> helper_ok"
  shows "\<exists>b inc. b @ inc = wire cs' \<and> generic_process ps rq dtmd_ok is h s =
    Some (request_end rq (res = helper_exit, h1\<lparr>h_buffer := b, incoming := inc\<rparr>, s1))"
  by (rule generic_process_messages [OF assms])


text \<open>An answer that is not a well-formed line makes a request return the result of the request
  before it, so a mount reports success when nothing was mounted, although the worker is told
  to stop and the connection is lost.\<close>

lemma malformed_answer_repeats_result:
  assumes "ready h" and "h_buffer h = ''''" and "has_command (incoming h)"
    and "length (incoming h) \<le> Suc n" and "length (incoming h) \<le> dtmd_command_max_length"
    and "\<not> dt_validate_command ps (c_str (incoming h))" and "path \<noteq> ''''"
  shows "\<exists>h'. dtmd_mount ps (Some path) mopts dtmd_ok (Arrived n # is) h = Some (result_state h, h') \<and>
    to_worker h' = to_worker h @ [1, 0]"
proof -
  let ?rq = "mount_request path mopts"
  have ne: "\<not> has_command ''''" by (simp add: has_command_def c_str_def)
  have "incoming h \<noteq> ''''" using assms(3) ne by auto
  then have rd: "read_data (Arrived n) '''' (incoming h) = (dtmd_ok, incoming h, '''')"
    using assms(4,5) by (simp add: read_data_def Let_def min_def)
  have 1: "process_lines ps ?rq '''' (asked ?rq h) () = (helper_ok, '''', asked ?rq h, ())"
    using ne by (simp add: process_lines.simps [of ps ?rq "''''"])
  have 2: "process_lines ps ?rq (incoming h) (asked ?rq h) () = (helper_error, incoming h, asked ?rq h, ())"
    using assms(3,6) by (simp add: process_lines.simps [of ps ?rq "incoming h"])
  have "request_loop ps ?rq (Arrived n # is) '''' (incoming h) (asked ?rq h) () =
      Some (False, (asked ?rq h)\<lparr>h_buffer := incoming h, incoming := ''''\<rparr>, ())"
    using 1 2 rd by (simp add: request_loop.simps [of ps ?rq "Arrived n # is"] request_loop.simps [of ps ?rq "is"]
        dtmd_command_max_length_def)
  with assms(1,2,7) show ?thesis
    by (simp add: dtmd_mount_def no_path_def run_action_request_def generic_process_ready request_end_def
        request_error_def asked_def)
qed

section \<open>Witnesses\<close>

text \<open>A client on whose connection the messages have arrived, and reads of seven bytes.\<close>

definition demo_client :: "dt_command list \<Rightarrow> handle" where
  "demo_client cs = \<lparr>socket_fd = 3, result_state = dtmd_ok, handle_error_code = error_code_unknown,
     library_state = state_default, h_buffer = '''', incoming = wire cs, callbacks = [], state_callbacks = [],
     to_worker = [], feedback = [], h_world = quiet_io\<rparr>"

definition demo_reads :: "dt_command list \<Rightarrow> client_input list" where
  "demo_reads cs = replicate (length (wire cs)) (Arrived 6)"

lemma demo_ready: "ready (demo_client cs)"
  by (simp add: ready_def demo_client_def dtmd_is_state_invalid_def quiet_io_def)

lemma demo_arriving: "arriving (demo_reads cs)"
  by (auto simp: arriving_def demo_reads_def)

definition unmounted :: "dt_command list" where
  "unmounted = [\<lparr>cmd = ''removable_device_removed'', args = [Some ''/dev/sdc'']\<rparr>,
     \<lparr>cmd = response_succeeded, args = [Some command_unmount, Some ''/dev/sdb1'']\<rparr>]"

theorem request_answered_witness:
  "generic_process wire_parser (unmount_request ''/dev/sdb1'') dtmd_ok (demo_reads unmounted) (demo_client unmounted) () \<noteq> None"
proof -
  let ?rq = "unmount_request ''/dev/sdb1''"
  obtain res cs' h1 s1 where r: "run_messages ?rq unmounted (asked ?rq (demo_client unmounted)) () = (res, cs', h1, s1)"
    by (metis prod_cases4)
  have "fst (run_messages ?rq unmounted (asked ?rq (demo_client unmounted)) ()) = helper_exit" by code_simp
  with r have res: "res \<noteq> helper_ok" by simp
  have f: "list_all fits unmounted" by code_simp
  have "h_buffer (demo_client unmounted) @ incoming (demo_client unmounted) = wire unmounted"
    "length (incoming (demo_client unmounted)) \<le> length (demo_reads unmounted)"
    by (simp_all add: demo_client_def demo_reads_def)
  from request_answered [OF demo_ready this(1) f wire_parser_protocol demo_arriving this(2) r res] show ?thesis by (metis option.distinct(1))
qed




end
