(* ===== verification/Dtmd_Rebuild.thy ===== *)
theory Dtmd_Rebuild
  imports Dtmd_Requests_Spec
begin

text \<open>
  The client rebuilds the daemon's device tree from the lines of a listing: each line appends a
  device at the end of its parent's children, because the daemon prints parents before children
  and siblings in order.
\<close>

section \<open>Appending below a device\<close>

definition append_children :: "string \<Rightarrow> media list \<Rightarrow> media list \<Rightarrow> media list" where
  "append_children p xs = edit_media p (\<lambda>m. [Media (m_path m) (m_info m) (m_children m @ xs)])"

lemma paths_any: "paths par ms = paths None ms"
proof -
  have "map node_path (nodes par ms) = map node_path (nodes par' ms)" for par' :: "string option"
  proof (induction ms arbitrary: par par')
    case (Cons m ms)
    from Cons [of par par'] show ?case by (cases m) simp
  qed simp
  then show ?thesis unfolding paths_def by (metis list.set_map)
qed

lemma paths_append [simp]: "paths par (xs @ ys) = paths par xs \<union> paths par ys"
  by (simp add: paths_def image_Un)

lemma edit_cong:
  "find_at par p t = Some (pp, m) \<Longrightarrow> f m = g m \<Longrightarrow> edit_media p f t = edit_media p g t"
  by (induction par p t rule: find_at.induct) (auto split: if_splits option.splits)

lemma find_not_None: "find_at par p ms \<noteq> None \<longleftrightarrow> p \<in> paths None ms"
  using find_at_None [of par p ms] paths_any [of par ms] by auto

lemma edit_append_new: "q \<notin> paths None cs \<Longrightarrow> edit_media q f (cs @ ms) = cs @ edit_media q f ms"
proof (induction cs)
  case (Cons c cs)
  obtain r j ds where c: "c = Media r j ds" by (cases c)
  with Cons.prems have "q \<noteq> r" "q \<notin> paths None ds" "q \<notin> paths None cs" using paths_any [of "Some r" ds] by auto
  with Cons.IH c find_not_None [of "Some r" q ds] show ?case by auto
qed simp

lemma media_induct [case_names Nil Cons]:
  assumes "P []" and "\<And>q i cs ms. P cs \<Longrightarrow> P ms \<Longrightarrow> P (Media q i cs # ms)"
  shows "P ms"
  using assms by (intro nodes.induct [of "\<lambda>_. P" None ms]) auto

lemma paths_node [simp]: "paths par (Media q i cs # ms) = insert q (paths None cs \<union> paths None ms)"
  using paths_any [of "Some q" cs] paths_any [of par ms] by simp

declare paths_simps(2) [simp del]

lemma append_children_simps [simp]:
  "append_children p xs [] = []"
  "append_children p xs (Media q i cs # ms) =
     (if p = q then Media q i (cs @ xs) # ms
      else if p \<in> paths None cs then Media q i (append_children p xs cs) # ms
      else Media q i cs # append_children p xs ms)"
  using find_not_None [of "Some q" p cs] by (auto simp: append_children_def)

lemma paths_append_children:
  "p \<in> paths None t \<Longrightarrow> paths None (append_children p xs t) = paths None t \<union> paths None xs"
  by (induction t rule: media_induct) auto

lemma append_twice: "append_children p ys (append_children p xs t) = append_children p (xs @ ys) t"
proof (induction t rule: media_induct)
  case (Cons q i cs ms)
  then show ?case using paths_append_children [of p cs xs] by auto
qed simp

lemma append_new: "q \<notin> paths None cs \<Longrightarrow> append_children q xs (cs @ ms) = cs @ append_children q xs ms"
  by (simp add: append_children_def edit_append_new)

lemma append_nested:
  "p \<in> paths None t \<Longrightarrow> q \<notin> paths None t \<Longrightarrow>
   append_children q xs (append_children p [Media q i ds] t) = append_children p [Media q i (ds @ xs)] t"
proof (induction t rule: media_induct)
  case (Cons r j cs ms)
  then show ?case using append_new [of q cs xs "[Media q i ds]"] by (auto simp: paths_append_children)
qed simp

section \<open>The children of a device\<close>

definition children_of :: "string \<Rightarrow> media list \<Rightarrow> media list" where
  "children_of p t = (case dtmd_find_media p t of None \<Rightarrow> [] | Some m \<Rightarrow> m_children m)"

lemma find_any: "map_option snd (find_at par p t) = map_option snd (find_at None p t)"
proof -
  have "map_option snd (find_at par p t) = map_option snd (find_at par' p t)" for par' :: "string option"
    by (induction t rule: media_induct) (auto split: option.splits)
  then show ?thesis .
qed

lemma children_of_simps [simp]:
  "children_of p [] = []"
  "children_of p (Media q i cs # ms) =
     (if p = q then cs else if p \<in> paths None cs then children_of p cs else children_of p ms)"
  using find_not_None [of "Some q" p cs] find_any [of "Some q" p cs]
  by (auto simp: children_of_def dtmd_find_media_def split: option.splits)

lemma children_of_append:
  "p \<in> paths None t \<Longrightarrow> children_of p (append_children p xs t) = children_of p t @ xs"
  by (induction t rule: media_induct) (auto simp: paths_append_children)

lemma children_of_new:
  "p \<in> paths None t \<Longrightarrow> q \<notin> paths None t \<Longrightarrow> children_of q (append_children p [Media q i ds] t) = ds"
proof (induction t rule: media_induct)
  case (Cons r j cs ms)
  have "q \<notin> paths None cs \<Longrightarrow> children_of q (cs @ [Media q i ds]) = ds" for cs
    by (induction cs rule: media_induct) auto
  with Cons show ?case by (auto simp: paths_append_children)
qed simp

lemma children_of_last: "q \<notin> paths None t \<Longrightarrow> children_of q (t @ [Media q i ds]) = ds"
  by (induction t rule: media_induct) auto

lemma nodes_parent_Some: "(par, n) \<in> set (nodes (Some q) ds) \<Longrightarrow> par \<noteq> None"
proof -
  have "par' \<noteq> None \<Longrightarrow> (par, n) \<in> set (nodes par' ds) \<Longrightarrow> par \<noteq> None" for par'
    by (induction ds arbitrary: par' rule: media_induct) auto
  then show "(par, n) \<in> set (nodes (Some q) ds) \<Longrightarrow> par \<noteq> None" by blast
qed

lemma insert_media_end: "\<forall>n \<in> set ns. m_path n \<le> m_path m \<Longrightarrow> insert_media m ns = ns @ [m]"
  by (induction ns) (auto simp: strcmp_less_0)

text \<open>Inserting a child that is the last one in the order.\<close>

lemma insert_child_end:
  assumes "p \<in> paths None t" and "\<forall>n \<in> set (children_of p t). m_path n \<le> m_path m"
  shows "edit_media p (insert_child m) t = append_children p [m] t"
proof -
  obtain pp n where f: "find_at None p t = Some (pp, n)"
    using assms(1) find_not_None [of None p t] by (metis option.exhaust prod.exhaust)
  then have "insert_media m (m_children n) = m_children n @ [m]"
    using assms(2) by (intro insert_media_end) (simp add: children_of_def dtmd_find_media_def)
  then show ?thesis
    unfolding append_children_def by (intro edit_cong [OF f]) (simp add: insert_child_def)
qed

section \<open>The lines of a listing\<close>

text \<open>What of a device the protocol carries, and what the daemon must know of it so that the client
  takes it.\<close>

definition client_view :: "media_info \<Rightarrow> media_info" where
  "client_view i =
     (let carried = i\<lparr>md_sysfs_path := None, md_mount_counter := 0\<rparr> in
      if md_type i = media_type_device_partition
      then carried\<lparr>md_subtype := media_subtype_unknown_or_persistent, md_state := media_state_unknown\<rparr>
      else if md_type i = media_type_stateless_device
      then carried\<lparr>md_state := media_state_unknown, md_fstype := None, md_label := None,
        md_mnt_point := None, md_mnt_opts := None\<rparr>
      else carried)"

definition described :: "media_info \<Rightarrow> bool" where
  "described i \<longleftrightarrow> md_type i \<noteq> media_type_unknown_or_persistent \<and>
     (md_type i \<noteq> media_type_device_partition \<longrightarrow> md_subtype i \<noteq> media_subtype_unknown_or_persistent) \<and>
     (md_type i = media_type_stateful_device \<longrightarrow> md_state i \<noteq> media_state_unknown)"

definition node_command :: "node \<Rightarrow> dt_command" where
  "node_command n = (case n of (par, q, i) \<Rightarrow>
     \<lparr>cmd = ''removable_device'', args = the (device_args (node_desc par q i))\<rparr>)"

lemma node_line_wire: "node_line n = wire_message (node_command n)"
  by (cases n) (simp add: node_line_def wire_message_def node_command_def)

definition parent_path :: "string option \<Rightarrow> string" where
  "parent_path par = (case par of Some p \<Rightarrow> p | None \<Rightarrow> dtmd_root_device_path)"

lemma type_read:
  "string_to_device_type (Some ''device partition'') = media_type_device_partition"
  "string_to_device_type (Some ''stateless device'') = media_type_stateless_device"
  "string_to_device_type (Some ''stateful device'') = media_type_stateful_device"
  by (simp_all add: string_to_device_type_def)

lemma node_args:
  "md_type i = media_type_device_partition \<Longrightarrow> args (node_command (par, q, i)) =
     [Some (parent_path par), Some q, Some ''device partition'', md_fstype i, md_label i, md_mnt_point i, md_mnt_opts i]"
  "md_type i = media_type_stateless_device \<Longrightarrow> args (node_command (par, q, i)) =
     [Some (parent_path par), Some q, Some ''stateless device'', Some (device_subtype_to_string (md_subtype i))]"
  "md_type i = media_type_stateful_device \<Longrightarrow> args (node_command (par, q, i)) =
     [Some (parent_path par), Some q, Some ''stateful device'', Some (device_subtype_to_string (md_subtype i)),
      Some (device_state_to_string (md_state i)), md_fstype i, md_label i, md_mnt_point i, md_mnt_opts i]"
  by (simp_all add: node_command_def device_args_def node_desc_def parent_path_def)

lemma node_command_args:
  assumes "described i"
  shows "check_removable_device (node_command (par, q, i))"
    and "args (node_command (par, q, i)) ! 0 = Some (parent_path par)"
    and "args (node_command (par, q, i)) ! 1 = Some q"
    and "filled_info (args (node_command (par, q, i))) = client_view i"
proof -
  have c: "cmd (node_command (par, q, i)) = ''removable_device''" by (simp add: node_command_def)
  let ?c = "node_command (par, q, i)"
  consider (partition) "md_type i = media_type_device_partition" | (stateless) "md_type i = media_type_stateless_device"
    | (stateful) "md_type i = media_type_stateful_device"
    using assms by (cases "md_type i") (auto simp: described_def)
  then have "check_removable_device ?c \<and> args ?c ! 0 = Some (parent_path par) \<and> args ?c ! 1 = Some q \<and>
      filled_info (args ?c) = client_view i"
  proof cases
    case partition
    with c assms show ?thesis
      by (simp add: check_removable_device_def check_removable_device_common_def node_args type_read
          filled_info_def filled_strings_def client_view_def Let_def)
  next
    case stateless
    with c assms show ?thesis
      by (simp add: check_removable_device_def check_removable_device_common_def node_args type_read
          filled_info_def filled_strings_def client_view_def Let_def described_def subtype_words.from_to)
  next
    case stateful
    with c assms show ?thesis
      by (simp add: check_removable_device_def check_removable_device_common_def node_args type_read
          filled_info_def filled_strings_def client_view_def Let_def described_def subtype_words.from_to
          state_words.from_to)
  qed
  then show "check_removable_device ?c" and "args ?c ! 0 = Some (parent_path par)" and "args ?c ! 1 = Some q"
    and "filled_info (args ?c) = client_view i" by blast+
qed

text \<open>One line of a listing, for a device without parent and for one below a device seen before.\<close>

lemma process_device_node:
  assumes "described i" and "allocs (h_world h) = []"
  shows "at_root (node_command (par, q, i)) \<Longrightarrow> process_device at_root (node_command (par, q, i)) h s =
      (helper_ok, h, s\<lparr>devices_result := insert_media (Media q (client_view i) []) (devices_result s)\<rparr>)"
    and "\<not> at_root (node_command (Some p, q, i)) \<Longrightarrow> p \<in> paths None (devices_result s) \<Longrightarrow>
      \<forall>n \<in> set (children_of p (devices_result s)). m_path n \<le> q \<Longrightarrow>
      process_device at_root (node_command (Some p, q, i)) h s =
      (helper_ok, h, s\<lparr>devices_result := append_children p [Media q (client_view i) []] (devices_result s)\<rparr>)"
proof -
  have f: "fill_removable_device False (node_command (par, q, i)) h = (Some (Media q (client_view i) []), h)" for par
    using node_command_args [OF assms(1)] assms(2) by (simp add: fill_removable_device_def malloc_no_failure)
  show "at_root (node_command (par, q, i)) \<Longrightarrow> process_device at_root (node_command (par, q, i)) h s =
      (helper_ok, h, s\<lparr>devices_result := insert_media (Media q (client_view i) []) (devices_result s)\<rparr>)"
    using node_command_args [OF assms(1)] f by (simp add: process_device_def Let_def)
  assume r: "\<not> at_root (node_command (Some p, q, i))" and p: "p \<in> paths None (devices_result s)"
    and o: "\<forall>n \<in> set (children_of p (devices_result s)). m_path n \<le> q"
  have "dtmd_find_media p (devices_result s) \<noteq> None"
    using find_not_None [of None p "devices_result s"] p by (simp add: dtmd_find_media_def)
  moreover have "edit_media p (insert_child (Media q (client_view i) [])) (devices_result s) =
      append_children p [Media q (client_view i) []] (devices_result s)"
    using insert_child_end [OF p] o by simp
  ultimately show "process_device at_root (node_command (Some p, q, i)) h s =
      (helper_ok, h, s\<lparr>devices_result := append_children p [Media q (client_view i) []] (devices_result s)\<rparr>)"
    using node_command_args [OF assms(1)] f r by (simp add: process_device_def Let_def parent_path_def)
qed

section \<open>The whole listing\<close>

text \<open>A request that has seen the first line of the listing treats every device the same way.\<close>

definition lists_devices :: "devices_state request \<Rightarrow> (dt_command \<Rightarrow> bool) \<Rightarrow> bool" where
  "lists_devices rq at_root \<longleftrightarrow> (\<forall>c h s. devices_started s \<longrightarrow> cmd c = ''removable_device'' \<longrightarrow>
     rq_process rq c h s = process_device at_root c h s)"

definition client_tree :: "media list \<Rightarrow> media list" where
  "client_tree ms = map_tree (\<lambda>q. client_view) ms"

lemma client_tree_simps [simp]:
  "client_tree [] = []"
  "client_tree (Media q i cs # ms) = Media q (client_view i) (client_tree cs) # client_tree ms"
  by (simp_all add: client_tree_def)

lemma run_messages_node:
  assumes "lists_devices rq at_root" and "devices_started s"
    and "process_device at_root (node_command n) h s = (helper_ok, h, s1)"
  shows "run_messages rq (node_command n # cs) h s = run_messages rq cs h s1"
proof -
  have "cmd (node_command n) = ''removable_device''" by (cases n) (simp add: node_command_def)
  with assms show ?thesis by (simp add: lists_devices_def)
qed

lemma append_nothing [simp]: "append_children p [] t = t"
  by (induction t rule: media_induct) auto

lemma set_node_paths: "set (map node_path (nodes par ms)) = paths None ms"
  using paths_any [of par ms] by (simp add: paths_def)

lemma paths_client_tree [simp]: "paths None (client_tree ms) = paths None ms"
  by (induction ms rule: media_induct) auto

text \<open>The lines of the devices below \<open>p\<close>, which are appended to its children.\<close>

definition siblings_ok :: "media list \<Rightarrow> bool" where
  "siblings_ok cs \<longleftrightarrow> media_sorted cs \<and> every_info described cs \<and> distinct (map node_path (nodes None cs))"

lemma distinct_any: "distinct (map node_path (nodes par ms)) = distinct (map node_path (nodes None ms))"
proof -
  have "map node_path (nodes par ms) = map node_path (nodes par' ms)" for par' :: "string option"
    by (induction ms arbitrary: par par' rule: media_induct) auto
  from this [of None] show ?thesis by simp
qed

lemma siblings_ok_Cons:
  "siblings_ok (Media q i ds # ms) \<longleftrightarrow> siblings_ok ds \<and> siblings_ok ms \<and> described i \<and>
     (\<forall>m \<in> set ms. q \<le> m_path m) \<and> q \<notin> paths None ds \<and> q \<notin> paths None ms \<and> paths None ds \<inter> paths None ms = {}"
proof -
  have "distinct (map node_path (nodes None (Media q i ds # ms))) \<longleftrightarrow>
      distinct (map node_path (nodes None ds)) \<and> distinct (map node_path (nodes None ms)) \<and>
      q \<notin> paths None ds \<and> q \<notin> paths None ms \<and> paths None ds \<inter> paths None ms = {}"
    using set_node_paths [of "Some q" ds] set_node_paths [of None ms] distinct_any [of "Some q" ds]
    by auto
  then show ?thesis by (auto simp: siblings_ok_def media_sorted.simps(2))
qed

lemma run_below:
  assumes "lists_devices rq at_root" and "allocs (h_world h) = []"
  shows "devices_started s \<Longrightarrow> p \<in> paths None (devices_result s) \<Longrightarrow> siblings_ok cs \<Longrightarrow>
    paths None cs \<inter> paths None (devices_result s) = {} \<Longrightarrow>
    \<forall>n \<in> set (children_of p (devices_result s)). \<forall>m \<in> set cs. m_path n \<le> m_path m \<Longrightarrow>
    \<forall>n \<in> set (nodes (Some p) cs). \<not> at_root (node_command n) \<Longrightarrow>
    run_messages rq (map node_command (nodes (Some p) cs) @ rest) h s =
    run_messages rq rest h (s\<lparr>devices_result := append_children p (client_tree cs) (devices_result s)\<rparr>)"
proof (induction cs arbitrary: p s rest rule: media_induct)
  case Nil
  then show ?case by simp
next
  case (Cons q i ds ms)
  let ?t = "devices_result s"
  let ?t1 = "append_children p [Media q (client_view i) []] ?t"
  let ?t2 = "append_children p [Media q (client_view i) (client_tree ds)] ?t"
  let ?rest = "map node_command (nodes (Some p) ms) @ rest"
  from Cons.prems(3) have ok: "siblings_ok ds" "siblings_ok ms" "described i" "\<forall>m \<in> set ms. q \<le> m_path m"
    "q \<notin> paths None ds" "q \<notin> paths None ms" "paths None ds \<inter> paths None ms = {}"
    by (simp_all add: siblings_ok_Cons)
  from Cons.prems(4) have q: "q \<notin> paths None ?t" "paths None ds \<inter> paths None ?t = {}"
    "paths None ms \<inter> paths None ?t = {}" by auto
  have "process_device at_root (node_command (Some p, q, i)) h s = (helper_ok, h, s\<lparr>devices_result := ?t1\<rparr>)"
    using Cons.prems(2,5,6) by (intro process_device_node(2) [OF ok(3) assms(2)]) auto
  note step = run_messages_node [OF assms(1) Cons.prems(1) this]
  have below: "run_messages rq (map node_command (nodes (Some q) ds) @ ?rest) h (s\<lparr>devices_result := ?t1\<rparr>) =
      run_messages rq ?rest h (s\<lparr>devices_result := ?t2\<rparr>)"
    using Cons.IH(1) [of "s\<lparr>devices_result := ?t1\<rparr>" q ?rest] Cons.prems(1,2,6) ok(1,5) q
    by (simp add: paths_append_children children_of_new append_nested)
  have fresh: "paths None ms \<inter> (paths None ?t \<union> paths None ds) = {}" using ok(7) q(3) by blast
  have after: "run_messages rq ?rest h (s\<lparr>devices_result := ?t2\<rparr>) =
      run_messages rq rest h (s\<lparr>devices_result := append_children p (client_tree (Media q i ds # ms)) ?t\<rparr>)"
    using Cons.IH(2) [of "s\<lparr>devices_result := ?t2\<rparr>" p rest] Cons.prems(1,2,5,6) ok(2,4,6) q(1) fresh
    by (auto simp: paths_append_children children_of_append append_twice)
  from step [of "map node_command (nodes (Some q) ds) @ ?rest"] below after show ?case by simp
qed

text \<open>The lines of devices without a parent.\<close>

lemma run_roots:
  assumes "lists_devices rq at_root" and "allocs (h_world h) = []"
  shows "devices_started s \<Longrightarrow> siblings_ok cs \<Longrightarrow> paths None cs \<inter> paths None (devices_result s) = {} \<Longrightarrow>
    \<forall>n \<in> set (devices_result s). \<forall>m \<in> set cs. m_path n \<le> m_path m \<Longrightarrow>
    \<forall>(par, q, i) \<in> set (nodes None cs). at_root (node_command (par, q, i)) \<longleftrightarrow> par = None \<Longrightarrow>
    run_messages rq (map node_command (nodes None cs) @ rest) h s =
    run_messages rq rest h (s\<lparr>devices_result := devices_result s @ client_tree cs\<rparr>)"
proof (induction cs arbitrary: s)
  case Nil
  then show ?case by simp
next
  case (Cons c ms)
  obtain q i ds where c: "c = Media q i ds" by (cases c)
  let ?t = "devices_result s"
  let ?t1 = "?t @ [Media q (client_view i) []]"
  let ?t2 = "?t @ [Media q (client_view i) (client_tree ds)]"
  let ?rest = "map node_command (nodes None ms) @ rest"
  from Cons.prems(2) c have ok: "siblings_ok ds" "siblings_ok ms" "described i" "\<forall>m \<in> set ms. q \<le> m_path m"
    "q \<notin> paths None ds" "q \<notin> paths None ms" "paths None ds \<inter> paths None ms = {}"
    by (simp_all add: siblings_ok_Cons)
  from Cons.prems(3) c have q: "q \<notin> paths None ?t" "paths None ds \<inter> paths None ?t = {}"
    "paths None ms \<inter> paths None ?t = {}" by auto
  have "insert_media (Media q (client_view i) []) ?t = ?t1"
    using Cons.prems(4) c by (intro insert_media_end) auto
  moreover have "at_root (node_command (None, q, i))" using Cons.prems(5) c by simp
  ultimately have "process_device at_root (node_command (None, q, i)) h s = (helper_ok, h, s\<lparr>devices_result := ?t1\<rparr>)"
    using process_device_node(1) [OF ok(3) assms(2)] by simp
  note step = run_messages_node [OF assms(1) Cons.prems(1) this]
  have "\<forall>n \<in> set (nodes (Some q) ds). \<not> at_root (node_command n)"
    using Cons.prems(5) c nodes_parent_Some by fastforce
  then have below: "run_messages rq (map node_command (nodes (Some q) ds) @ ?rest) h (s\<lparr>devices_result := ?t1\<rparr>) =
      run_messages rq ?rest h (s\<lparr>devices_result := ?t2\<rparr>)"
    using run_below [OF assms, of "s\<lparr>devices_result := ?t1\<rparr>" q ds ?rest] Cons.prems(1) ok(1,5) q
    by (simp add: append_new children_of_last)
  have fresh: "paths None ms \<inter> (paths None ?t \<union> paths None ds) = {}" using ok(7) q(3) by blast
  have after: "run_messages rq ?rest h (s\<lparr>devices_result := ?t2\<rparr>) =
      run_messages rq rest h (s\<lparr>devices_result := ?t @ client_tree (Media q i ds # ms)\<rparr>)"
    using Cons.IH [of "s\<lparr>devices_result := ?t2\<rparr>"] Cons.prems c ok(2,4,6) q(1) fresh by auto
  from step [of "map node_command (nodes (Some q) ds) @ ?rest"] below after c show ?case by simp
qed

end
