(* ===== verification/Dtmd_Session_Spec.thy ===== *)
theory Dtmd_Session_Spec
  imports Dtmd_Rebuild
begin

text \<open>
  The daemon and a client together: what the client's functions return when the daemon has
  handled the request they sent.  The parser of the messages is the one parameter the two
  sides share.
\<close>

section \<open>The messages of an answer\<close>

definition answer_line :: "string \<Rightarrow> string option list \<Rightarrow> dt_command" where
  "answer_line response as = \<lparr>cmd = response, args = as\<rparr>"

lemma answer_line_simps [simp]:
  "cmd (answer_line r as) = r" "args (answer_line r as) = as"
  by (simp_all add: answer_line_def)

lemma responses_apart [simp]:
  "response_started \<noteq> response_failed" "response_started \<noteq> response_finished" "response_started \<noteq> response_succeeded"
  "response_failed \<noteq> response_started" "response_finished \<noteq> response_started" "response_succeeded \<noteq> response_started"
  "response_failed \<noteq> response_succeeded" "response_succeeded \<noteq> response_failed"
  "response_failed \<noteq> response_finished" "response_finished \<noteq> response_failed"
  "response_finished \<noteq> ''removable_device''" "response_started \<noteq> ''removable_device''"
  by (simp_all add: response_started_def response_failed_def response_finished_def response_succeeded_def)

lemma command_name_nonempty [simp]:
  "command_list_all \<noteq> []" "command_list_device \<noteq> []" "command_mount \<noteq> []" "command_unmount \<noteq> []" "command_poweroff \<noteq> []"
  by (simp_all add: command_names)

lemma list_all_lines_fit:
  "fits (answer_line response_started [Some command_list_all])"
  "fits (answer_line response_finished [Some command_list_all])"
  by code_simp+

lemma wire_answer:
  "wire_message (answer_line r (Some name # as)) = message r (print_arg (Some name) # map print_arg as)"
  by (simp add: wire_message_def)

text \<open>A tree that can be listed: sorted siblings, no path twice and none the root's, enough known of
  each device, and lines that fit into the client's buffer.\<close>

definition listable :: "media list \<Rightarrow> bool" where
  "listable ms \<longleftrightarrow> siblings_ok ms \<and> dtmd_root_device_path \<notin> paths None ms \<and>
     list_all (\<lambda>n. fits (node_command n)) (nodes None ms)"

lemma every_info_nodes: "every_info P ms \<Longrightarrow> n \<in> set (nodes par ms) \<Longrightarrow> P (snd (snd n))"
proof (induction ms arbitrary: par rule: media_induct)
  case (Cons q i cs ms)
  then show ?case by auto
qed simp

lemma listable_known: "listable ms \<Longrightarrow> list_all known_type (nodes None ms)"
proof -
  assume "listable ms"
  then have "every_info described ms" by (simp add: listable_def siblings_ok_def)
  from every_info_nodes [OF this, of _ None] show ?thesis
    by (fastforce simp: list_all_iff known_type_def described_def)
qed

lemma listed_parents:
  assumes "dtmd_root_device_path \<notin> paths None ms" and "(par, q, i) \<in> set (nodes None ms)"
  shows "parent_path par = dtmd_root_device_path \<longleftrightarrow> par = None" and "q \<noteq> dtmd_root_device_path"
proof -
  have parents: "(par, q, i) \<in> set (nodes par' ms) \<Longrightarrow> par \<noteq> par' \<Longrightarrow> \<exists>p. par = Some p \<and> p \<in> paths None ms" for par'
    by (induction ms arbitrary: par' rule: media_induct) fastforce+
  from parents [OF assms(2)] assms(1) show "parent_path par = dtmd_root_device_path \<longleftrightarrow> par = None"
    by (cases par) (auto simp: parent_path_def)
  have "q \<in> paths None ms" using assms(2) set_node_paths [of None ms] by force
  with assms(1) show "q \<noteq> dtmd_root_device_path" by blast
qed

lemma described_args:
  assumes "every_info described ms" and "(par', q, i) \<in> set (nodes par ms)"
  shows "args (node_command (par', q, i)) ! 0 = Some (parent_path par')"
    and "args (node_command (par', q, i)) ! 1 = Some q"
  using node_command_args(2,3) every_info_nodes [OF assms] by simp_all

section \<open>All devices\<close>

definition at_root_all :: "dt_command \<Rightarrow> bool" where
  "at_root_all c \<longleftrightarrow> strcmp (the (args c ! 0)) dtmd_root_device_path = 0"

lemma list_all_lists: "lists_devices list_all_request at_root_all"
proof -
  have "at_root_all = (\<lambda>c. the (args c ! 0) = dtmd_root_device_path)" by (rule ext) (simp add: at_root_all_def)
  then show ?thesis
    by (simp add: lists_devices_def list_all_request_def process_list_all_def process_listing_def response_finished_def)
qed

lemma run_list_all:
  assumes "listable ms" and "library_state h = state_default" and "allocs (h_world h) = []"
  shows "run_messages list_all_request (answer_line response_started [Some command_list_all] #
      map node_command (nodes None ms) @ [answer_line response_finished [Some command_list_all]]) h
      \<lparr>devices_started = False, accept_multiple_devices = True, devices_result = []\<rparr> =
    (helper_exit, [], h\<lparr>result_state := dtmd_ok\<rparr>,
     \<lparr>devices_started = True, accept_multiple_devices = True, devices_result = client_tree ms\<rparr>)"
proof -
  let ?s = "\<lparr>devices_started = True, accept_multiple_devices = True, devices_result = []\<rparr>"
  let ?h = "h\<lparr>library_state := state_in_list_all_removable_devices\<rparr>"
  let ?last = "[answer_line response_finished [Some command_list_all]]"
  have generic: "is_list_all_generic (answer_line r [Some command_list_all])" for r
    by (simp add: is_list_all_generic_def is_list_all_common_def arg_is_def)
  have start: "rq_process list_all_request (answer_line response_started [Some command_list_all]) h
      \<lparr>devices_started = False, accept_multiple_devices = True, devices_result = []\<rparr> = (helper_ok, ?h, ?s)"
    using assms(2) generic by (simp add: list_all_request_def process_list_all_def process_listing_def)
  have "at_root_all (node_command (par, q, i)) \<longleftrightarrow> par = None" if n: "(par, q, i) \<in> set (nodes None ms)" for par q i
  proof -
    have "args (node_command (par, q, i)) ! 0 = Some (parent_path par)"
      using assms(1) n described_args(1) by (auto simp: listable_def siblings_ok_def)
    moreover have "parent_path par = dtmd_root_device_path \<longleftrightarrow> par = None"
      using assms(1) n listed_parents(1) by (auto simp: listable_def)
    ultimately show ?thesis by (simp add: at_root_all_def)
  qed
  then have roots: "\<forall>(par, q, i) \<in> set (nodes None ms). at_root_all (node_command (par, q, i)) \<longleftrightarrow> par = None"
    by blast
  have lines: "run_messages list_all_request (map node_command (nodes None ms) @ ?last) ?h ?s =
      run_messages list_all_request ?last ?h (?s\<lparr>devices_result := client_tree ms\<rparr>)"
    using run_roots [OF list_all_lists, of ?h ?s ms ?last] assms roots by (simp add: listable_def)
  have finish: "rq_process list_all_request (answer_line response_finished [Some command_list_all]) ?h
      (?s\<lparr>devices_result := client_tree ms\<rparr>) =
      (helper_exit, h\<lparr>result_state := dtmd_ok\<rparr>, ?s\<lparr>devices_result := client_tree ms\<rparr>)"
    using generic assms(2) by (simp add: list_all_request_def process_list_all_def process_listing_def)
  show ?thesis by (simp add: start lines finish [simplified])
qed

text \<open>The daemon's side of the same exchange.\<close>

lemma wire_list_all:
  "message response_started [print_plain command_list_all] = wire_message (answer_line response_started [Some command_list_all])"
  "message response_finished [print_plain command_list_all] = wire_message (answer_line response_finished [Some command_list_all])"
  by (simp_all add: wire_answer print_plain_arg)

lemma all_request_parsed:
  assumes "protocol_parser ps"
  shows "dt_parse_command ps (rq_text list_all_request) = Some \<lparr>cmd = command_list_all, args = []\<rparr>"
proof -
  have "wire_command \<lparr>cmd = command_list_all, args = []\<rparr>"
    by (simp add: wire_command_def wire_name_def command_names isalpha_def)
  moreover have "rq_text list_all_request = wire_message \<lparr>cmd = command_list_all, args = []\<rparr>"
    by (simp add: list_all_request_def wire_message_def)
  ultimately show ?thesis using assms by (simp add: protocol_parser_def)
qed

lemma map_Pair_inj: "map (Pair a) xs = map (Pair a) ys \<Longrightarrow> xs = ys"
  by (simp add: inj_map_eq_map inj_def)

lemma daemon_lists_all:
  assumes "writes (world d) = []" and "list_all known_type (nodes None (removable_media_root d))"
    and "invoke_command os c fd \<lparr>cmd = command_list_all, args = []\<rparr> d k = (r, d', k')"
  shows "r = ResultSuccess \<and> sent (world d') = sent (world d) @ map (Pair fd) (map wire_message
    (answer_line response_started [Some command_list_all] # map node_command (nodes None (removable_media_root d)) @
     [answer_line response_finished [Some command_list_all]]))"
  using assms
  by (auto simp: invoke_command_def list_all_command_def print_all_removable_devices_def Let_def io_simps
      print_devices_lines wire_list_all node_line_wire comp_def)

text \<open>A client with an idle connection to the daemon, on which the answer to its request arrives.\<close>

definition connected :: "handle \<Rightarrow> string list \<Rightarrow> client_input list \<Rightarrow> bool" where
  "connected h ms is \<longleftrightarrow> ready h \<and> library_state h = state_default \<and> allocs (h_world h) = [] \<and>
     h_buffer h = '''' \<and> incoming h = concat ms \<and> arriving is \<and> length (concat ms) \<le> length is"

text \<open>What is left when the answer has been read: nothing, and the connection is idle again; \<open>ns\<close> are
  the notifications that came before it.\<close>

definition finished_request :: "'s request \<Rightarrow> dt_command list \<Rightarrow> handle \<Rightarrow> handle \<Rightarrow> bool" where
  "finished_request rq ns h h' \<longleftrightarrow> h_buffer h' = '''' \<and> incoming h' = '''' \<and> library_state h' = state_default \<and>
     callbacks h' = callbacks h @ ns \<and> to_worker h' = to_worker h @ [1] \<and>
     sent (h_world h') = sent (h_world h) @ [(socket_fd h, rq_text rq)]"

lemma request_finished:
  assumes "connected h (map wire_message cs) is" and "list_all fits cs" and "protocol_parser ps"
    and "run_messages rq cs (asked rq h) s = (helper_exit, [], h1, s1)"
    and "rq_exit rq (h1\<lparr>h_buffer := '''', incoming := ''''\<rparr>) s1 = (True, h1\<lparr>h_buffer := '''', incoming := ''''\<rparr>, s2)"
  shows "generic_process ps rq dtmd_ok is h s = Some (result_state h1, h1\<lparr>h_buffer := '''', incoming := ''''\<rparr>, s2)"
proof -
  have w: "concat (map wire_message cs) = wire cs" by (simp add: wire_def)
  from generic_process_messages [of h cs ps "is" rq s helper_exit "[]" h1 s1] assms w show ?thesis
    by (auto simp: connected_def request_end_def)
qed

section \<open>One device\<close>

definition at_root_device :: "string \<Rightarrow> dt_command \<Rightarrow> bool" where
  "at_root_device path c \<longleftrightarrow> strcmp (the (args c ! 0)) dtmd_root_device_path = 0 \<or> strcmp (the (args c ! 1)) path = 0"

lemma list_device_lists: "lists_devices (list_device_request path) (at_root_device path)"
proof -
  have "at_root_device path = (\<lambda>c. the (args c ! 0) = dtmd_root_device_path \<or> the (args c ! 1) = path)"
    by (rule ext) (simp add: at_root_device_def)
  then show ?thesis
    by (simp add: lists_devices_def list_device_request_def process_list_device_def process_listing_def response_finished_def)
qed

lemma at_root_node:
  assumes "every_info described ms" and "(par', q, i) \<in> set (nodes par ms)"
  shows "at_root_device path (node_command (par', q, i)) \<longleftrightarrow> parent_path par' = dtmd_root_device_path \<or> q = path"
  using described_args [OF assms] by (simp add: at_root_device_def)

lemma at_root_path: "described i \<Longrightarrow> at_root_device p (node_command (par, p, i))"
  using node_command_args(3) [of i par p] by (simp add: at_root_device_def)

lemma run_list_device:
  fixes h :: handle and path :: string and multiple :: bool
  defines "h1 \<equiv> h\<lparr>library_state := state_in_list_removable_device\<rparr>"
    and "s1 \<equiv> \<lparr>devices_started = True, accept_multiple_devices = multiple, devices_result = []\<rparr>"
  assumes "library_state h = state_default"
    and lines: "\<And>rest. run_messages (list_device_request path) (map node_command ns @ rest) h1 s1 =
      run_messages (list_device_request path) rest h1 (s1\<lparr>devices_result := t\<rparr>)"
  shows "run_messages (list_device_request path) (answer_line response_started [Some command_list_device, Some path] #
      map node_command ns @ [answer_line response_finished [Some command_list_device, Some path]]) h
      \<lparr>devices_started = False, accept_multiple_devices = multiple, devices_result = []\<rparr> =
    (helper_exit, [], h\<lparr>result_state := dtmd_ok\<rparr>,
     \<lparr>devices_started = True, accept_multiple_devices = multiple, devices_result = t\<rparr>)"
proof -
  have generic: "is_list_device_generic (answer_line r [Some command_list_device, Some path])"
    "list_device_match path (answer_line r [Some command_list_device, Some path])" for r
    by (simp_all add: is_list_device_generic_def is_list_device_common_def arg_is_def list_device_match_def)
  have start: "rq_process (list_device_request path) (answer_line response_started [Some command_list_device, Some path]) h
      \<lparr>devices_started = False, accept_multiple_devices = multiple, devices_result = []\<rparr> = (helper_ok, h1, s1)"
    using assms(3) generic by (simp add: list_device_request_def process_list_device_def process_listing_def h1_def s1_def)
  have finish: "rq_process (list_device_request path) (answer_line response_finished [Some command_list_device, Some path])
      h1 (s1\<lparr>devices_result := t\<rparr>) =
      (helper_exit, h\<lparr>result_state := dtmd_ok\<rparr>, \<lparr>devices_started = True, accept_multiple_devices = multiple, devices_result = t\<rparr>)"
    using generic assms(3) by (simp add: list_device_request_def process_list_device_def process_listing_def h1_def s1_def)
  show ?thesis by (simp add: start lines finish)
qed

text \<open>The lines of the whole tree, and of one device and what is below it.\<close>

lemma run_whole_tree:
  assumes "listable ms" and "allocs (h_world h) = []" and "devices_started s" and "devices_result s = []"
  shows "run_messages (list_device_request dtmd_root_device_path) (map node_command (nodes None ms) @ rest) h s =
    run_messages (list_device_request dtmd_root_device_path) rest h (s\<lparr>devices_result := client_tree ms\<rparr>)"
proof -
  let ?path = dtmd_root_device_path
  have ok: "every_info described ms" "siblings_ok ms" "?path \<notin> paths None ms"
    using assms(1) by (simp_all add: listable_def siblings_ok_def)
  have "at_root_device ?path (node_command (par, q, i)) \<longleftrightarrow> par = None" if n: "(par, q, i) \<in> set (nodes None ms)" for par q i
    using at_root_node [OF ok(1) n, of ?path] listed_parents [OF ok(3) n] by simp
  then have "\<forall>(par, q, i) \<in> set (nodes None ms). at_root_device ?path (node_command (par, q, i)) \<longleftrightarrow> par = None"
    by blast
  with run_roots [OF list_device_lists, of h s ms ?path rest] assms ok(2) show ?thesis by simp
qed

lemma run_subtree:
  assumes "siblings_ok [m]" and "dtmd_root_device_path \<notin> paths None [m]" and "m_path m = path"
    and "allocs (h_world h) = []" and "devices_started s" and "devices_result s = []"
  shows "run_messages (list_device_request path) (map node_command (nodes par [m]) @ rest) h s =
    run_messages (list_device_request path) rest h (s\<lparr>devices_result := client_tree [m]\<rparr>)"
proof -
  obtain i ds where m: "m = Media path i ds" using assms(3) by (cases m) auto
  with assms(1) have ok: "siblings_ok ds" "described i" "path \<notin> paths None ds" "every_info described ds"
    by (auto simp: siblings_ok_Cons) (simp add: siblings_ok_def)
  let ?t = "[Media path (client_view i) []]"
  have "process_device (at_root_device path) (node_command (par, path, i)) h s = (helper_ok, h, s\<lparr>devices_result := ?t\<rparr>)"
    using process_device_node(1) [OF ok(2) assms(4), of "at_root_device path" par path s] at_root_path [OF ok(2)] assms(6)
    by simp
  note step = run_messages_node [OF list_device_lists assms(5) this]
  have "\<not> at_root_device path (node_command n)" if n: "n \<in> set (nodes (Some path) ds)" for n
  proof -
    obtain par' q j where n': "n = (par', q, j)" by (metis prod_cases3)
    have q: "q \<noteq> path" using n n' ok(3) set_node_paths [of "Some path" ds] by force
    have "(par', q, j) \<in> set (nodes None [m])" using n n' m by simp
    note p = listed_parents(1) [OF assms(2) this]
    moreover have "par' \<noteq> None" using n n' nodes_parent_Some by blast
    ultimately show ?thesis
      using at_root_node [OF ok(4), of par' q j "Some path" path] n n' q by simp
  qed
  then have "run_messages (list_device_request path) (map node_command (nodes (Some path) ds) @ rest) h
      (s\<lparr>devices_result := ?t\<rparr>) =
    run_messages (list_device_request path) rest h (s\<lparr>devices_result := [Media path (client_view i) (client_tree ds)]\<rparr>)"
    using run_below [OF list_device_lists assms(4), of "s\<lparr>devices_result := ?t\<rparr>" path ds path rest] assms(5) ok(1,3)
    by simp
  with step show ?thesis by (simp add: m)
qed

lemma sorted_find: "media_sorted ms \<Longrightarrow> find_at par p ms = Some (pp, m) \<Longrightarrow> media_sorted [m]"
  by (induction par p ms rule: find_at.induct) (auto simp: media_sorted.simps split: if_splits option.splits)

lemma listable_find:
  assumes "listable ms" and "find_at None p ms = Some (pp, m)"
  shows "siblings_ok [m]" and "dtmd_root_device_path \<notin> paths None [m]" and "list_all fits (map node_command (nodes pp [m]))"
proof -
  obtain xs ys where n: "nodes None ms = xs @ nodes pp [m] @ ys" using nodes_edit [OF assms(2)] by blast
  have sub: "set (map node_path (nodes pp [m])) \<subseteq> set (map node_path (nodes None ms))" unfolding n by auto
  have "distinct (map node_path (nodes pp [m]))" using assms(1) unfolding listable_def siblings_ok_def n by simp
  then have "distinct (map node_path (nodes None [m]))" using distinct_any by blast
  with sorted_find [OF _ assms(2)] every_node_find [OF _ assms(2)] assms(1)
  show "siblings_ok [m]" unfolding listable_def siblings_ok_def by blast
  show "dtmd_root_device_path \<notin> paths None [m]"
    using assms(1) sub unfolding listable_def set_node_paths by blast
  show "list_all fits (map node_command (nodes pp [m]))"
    using assms(1) by (simp add: listable_def n list.pred_map comp_def)
qed

text \<open>The daemon's answer about one device, and the daemon's side of the exchange.\<close>

definition device_listing :: "string \<Rightarrow> node list \<Rightarrow> dt_command list" where
  "device_listing path ns = answer_line response_started [Some command_list_device, Some path] # map node_command ns @
     [answer_line response_finished [Some command_list_device, Some path]]"

definition device_answer :: "string \<Rightarrow> media list \<Rightarrow> dt_command list" where
  "device_answer path root =
     (if path = dtmd_root_device_path then device_listing path (nodes None root)
      else case find_at None path root of
        Some (par, m) \<Rightarrow> device_listing path (nodes par [m])
      | None \<Rightarrow> [answer_line response_failed [Some command_list_device, Some path,
          Some (error_code_to_string error_code_no_such_removable_device)]])"

lemma wire_list_device:
  "message r [print_plain command_list_device, print_arg (Some path)] = wire_message (answer_line r [Some command_list_device, Some path])"
  "message r [print_plain command_list_device, print_arg (Some path), print_arg (Some e)] =
     wire_message (answer_line r [Some command_list_device, Some path, Some e])"
  by (simp_all add: wire_answer print_plain_arg)

lemma wire_device_listing:
  "map wire_message (device_listing path ns) = message response_started [print_plain command_list_device, print_arg (Some path)] #
     map node_line ns @ [message response_finished [print_plain command_list_device, print_arg (Some path)]]"
  by (simp add: device_listing_def wire_list_device node_line_wire comp_def)

lemma daemon_lists_device:
  assumes "writes (world d) = []" and "list_all known_type (nodes None (removable_media_root d))"
    and "invoke_command os c fd \<lparr>cmd = command_list_device, args = [Some path]\<rparr> d k = (r, d', k')"
  shows "sent (world d') = sent (world d) @ map (Pair fd) (map wire_message (device_answer path (removable_media_root d)))"
proof -
  have sub: "list_all known_type (nodes par [m])" if "find_at None path (removable_media_root d) = Some (par, m)" for par m
    using nodes_edit [OF that] assms(2) by (auto simp: list_all_iff)
  consider (root) "path = dtmd_root_device_path"
    | (unknown) "path \<noteq> dtmd_root_device_path" "find_at None path (removable_media_root d) = None"
    | (device) par m where "path \<noteq> dtmd_root_device_path" "find_at None path (removable_media_root d) = Some (par, m)"
    by (metis option.exhaust prod.exhaust)
  then show ?thesis
  proof cases
    case root
    with assms show ?thesis
      by (auto simp: device_answer_def wire_device_listing invoke_command_def list_device_command_def
          print_all_removable_devices_def Let_def io_simps print_devices_lines comp_def simp del: error_code_to_string.simps)
  next
    case unknown
    with assms show ?thesis
      by (auto simp: device_answer_def wire_list_device(2) [symmetric] invoke_command_def list_device_command_def
          Let_def io_simps simp del: error_code_to_string.simps)
  next
    case device
    with assms sub [OF device(2)] show ?thesis
      by (auto simp: device_answer_def wire_device_listing invoke_command_def list_device_command_def
          print_all_removable_devices_recursive_def Let_def io_simps print_devices_lines comp_def
          simp del: error_code_to_string.simps)
  qed
qed

definition subtree :: "string \<Rightarrow> media list \<Rightarrow> media list option" where
  "subtree path root = (if path = dtmd_root_device_path then Some root
     else map_option (\<lambda>(par, m). [m]) (find_at None path root))"

definition devices_start :: "string \<Rightarrow> devices_state" where
  "devices_start path = \<lparr>devices_started = False,
     accept_multiple_devices = (path = dtmd_root_device_path), devices_result = []\<rparr>"

lemma run_device_answer:
  assumes "listable root" and "library_state h = state_default" and "allocs (h_world h) = []"
  shows "run_messages (list_device_request path) (device_answer path root) h (devices_start path) =
    (helper_exit, [], case subtree path root of
       Some t \<Rightarrow> (h\<lparr>result_state := dtmd_ok\<rparr>, (devices_start path)\<lparr>devices_started := True, devices_result := client_tree t\<rparr>)
     | None \<Rightarrow> (h\<lparr>result_state := dt_command_failed, handle_error_code := error_code_no_such_removable_device\<rparr>, devices_start path))"
proof -
  let ?s1 = "\<lparr>devices_started = True, accept_multiple_devices = (path = dtmd_root_device_path), devices_result = []\<rparr>"
  let ?h1 = "h\<lparr>library_state := state_in_list_removable_device\<rparr>"
  have bracket: "run_messages (list_device_request path) (device_listing path ns) h (devices_start path) =
      (helper_exit, [], h\<lparr>result_state := dtmd_ok\<rparr>, (devices_start path)\<lparr>devices_started := True, devices_result := t\<rparr>)"
    if "\<And>rest. run_messages (list_device_request path) (map node_command ns @ rest) ?h1 ?s1 =
      run_messages (list_device_request path) rest ?h1 (?s1\<lparr>devices_result := t\<rparr>)" for ns t
    using run_list_device [OF assms(2) that] by (simp add: device_listing_def devices_start_def)
  consider (root) "path = dtmd_root_device_path"
    | (unknown) "path \<noteq> dtmd_root_device_path" "find_at None path root = None"
    | (device) par m where "path \<noteq> dtmd_root_device_path" "find_at None path root = Some (par, m)"
    by (metis option.exhaust prod.exhaust)
  then show ?thesis
  proof cases
    case root
    have "run_messages (list_device_request path) (map node_command (nodes None root) @ rest) ?h1 ?s1 =
        run_messages (list_device_request path) rest ?h1 (?s1\<lparr>devices_result := client_tree root\<rparr>)" for rest
      using run_whole_tree [OF assms(1), of ?h1 ?s1 rest] assms(3) root by simp
    from bracket [OF this] root show ?thesis by (simp add: device_answer_def subtree_def)
  next
    case device
    note l = listable_find [OF assms(1) device(2)]
    have "m_path m = path" using find_at_Some [OF device(2)] by simp
    then have "run_messages (list_device_request path) (map node_command (nodes par [m]) @ rest) ?h1 ?s1 =
        run_messages (list_device_request path) rest ?h1 (?s1\<lparr>devices_result := client_tree [m]\<rparr>)" for rest
      using run_subtree [OF l(1,2), of path ?h1 ?s1 par rest] assms(3) by simp
    from bracket [OF this] device show ?thesis by (simp add: device_answer_def subtree_def)
  next
    case unknown
    have "is_list_device_failed (answer_line response_failed [Some command_list_device, Some path, e])" if "e \<noteq> None" for e
      using that by (simp add: is_list_device_failed_def is_list_device_common_def arg_is_def)
    with unknown assms(2) show ?thesis
      by (simp add: device_answer_def subtree_def list_device_request_def process_list_device_def process_listing_def
          devices_start_def failed_handle_def list_device_match_def error_words.from_to
          del: error_code_to_string.simps)
  qed
qed

lemma device_request_parsed:
  assumes "protocol_parser ps" and "wire_text (Some path)"
  shows "dt_parse_command ps (rq_text (list_device_request path)) = Some \<lparr>cmd = command_list_device, args = [Some path]\<rparr>"
proof -
  have "path \<noteq> []" using assms(2) by (simp add: wire_text_def)
  then have "rq_text (list_device_request path) = wire_message \<lparr>cmd = command_list_device, args = [Some path]\<rparr>"
    by (simp add: list_device_request_def wire_message_def print_plain_arg)
  moreover have "wire_command \<lparr>cmd = command_list_device, args = [Some path]\<rparr>"
    using assms(2) by (simp add: wire_command_def wire_name_def command_names isalpha_def)
  ultimately show ?thesis using assms(1) by (simp add: protocol_parser_def)
qed

section \<open>Mounting, unmounting and powering off\<close>

text \<open>The client's function for a command that acts on a device, and the daemon's one message.\<close>

definition call_action ::
  "command_parser \<Rightarrow> dt_command \<Rightarrow> dtmd_result \<Rightarrow> client_input list \<Rightarrow> handle \<Rightarrow> (dtmd_result \<times> handle) option" where
  "call_action ps c =
     (if cmd c = command_mount then dtmd_mount ps (args c ! 0) (args c ! 1)
      else if cmd c = command_unmount then dtmd_unmount ps (args c ! 0)
      else dtmd_poweroff ps (args c ! 0))"

definition action_request_of :: "dt_command \<Rightarrow> unit request" where
  "action_request_of c =
     (if cmd c = command_mount then mount_request (the (args c ! 0)) (args c ! 1)
      else if cmd c = command_unmount then unmount_request (the (args c ! 0))
      else poweroff_request (the (args c ! 0)))"

definition action_answer :: "dt_command \<Rightarrow> error_code option \<Rightarrow> dt_command" where
  "action_answer c e = (case e of
     None \<Rightarrow> answer_line response_succeeded (Some (cmd c) # args c)
   | Some x \<Rightarrow> answer_line response_failed (Some (cmd c) # args c @ [Some (error_code_to_string x)]))"

lemma action_cases:
  assumes "action_command c" and "wire_command c"
  obtains (mount) p o' where "c = \<lparr>cmd = command_mount, args = [Some p, o']\<rparr>" "p \<noteq> []"
  | (unmount) p where "c = \<lparr>cmd = command_unmount, args = [Some p]\<rparr>" "p \<noteq> []"
  | (poweroff) p where "c = \<lparr>cmd = command_poweroff, args = [Some p]\<rparr>" "p \<noteq> []"
proof -
  obtain name as where c: "c = \<lparr>cmd = name, args = as\<rparr>" by (cases c)
  have "as ! 0 \<noteq> Some []" using assms c
    by (cases as) (auto simp: action_command_def wire_command_def wire_text_def)
  with assms(1) c two_args [of as] one_arg [of as] that show thesis
    by (auto simp: action_command_def)
qed

lemma action_request_text:
  assumes "action_command c" and "wire_command c"
  shows "rq_text (action_request_of c) = wire_message c"
  using assms
  by (cases rule: action_cases)
     (simp_all add: action_request_of_def mount_request_def unmount_request_def poweroff_request_def action_request_def
       wire_message_def print_plain_arg)

lemma call_action_request:
  assumes "action_command c" and "wire_command c"
  shows "call_action ps c captured is h = run_action_request ps (action_request_of c) captured is h"
  using assms
  by (cases rule: action_cases)
     (simp_all add: action_request_of_def call_action_def dtmd_mount_def dtmd_unmount_def dtmd_poweroff_def no_path_def)

text \<open>Notifications: messages the client hands to its callback.\<close>

definition notification :: "dt_command \<Rightarrow> bool" where
  "notification c \<longleftrightarrow> (\<forall>h. handle_callback_cmd c h = (dtmd_ok, h\<lparr>callbacks := callbacks h @ [c]\<rparr>))"

lemma notification_name: "notification c \<Longrightarrow> cmd c \<notin> {response_failed, response_succeeded, response_started}"
proof -
  assume "notification c"
  then have "fst (handle_callback_cmd c (SOME h. True)) = dtmd_ok" by (simp add: notification_def)
  moreover have "fst (handle_callback_cmd c h) = dtmd_fatal_io_error"
    if "cmd c \<in> {response_failed, response_succeeded, response_started}" for h
    using that by (auto simp: handle_callback_cmd_def response_failed_def response_succeeded_def response_started_def)
  ultimately show ?thesis by fastforce
qed

lemma handle_notification:
  assumes "notification c" and "library_state h = state_default"
  shows "handle_cmd c h = (dtmd_ok, h\<lparr>callbacks := callbacks h @ [c]\<rparr>)"
  using notification_name [OF assms(1)] assms by (simp add: handle_cmd_def notification_def)

lemma run_notifications:
  assumes "action_command c" and "wire_command c"
  shows "list_all notification ns \<Longrightarrow> library_state h = state_default \<Longrightarrow>
    run_messages (action_request_of c) (ns @ cs) h () = run_messages (action_request_of c) cs (h\<lparr>callbacks := callbacks h @ ns\<rparr>) ()"
proof (induction ns arbitrary: h)
  case (Cons n ns)
  then have n: "notification n" by simp
  have "rq_process (action_request_of c) n h () = (helper_ok, h\<lparr>callbacks := callbacks h @ [n]\<rparr>, ())"
    using handle_notification [OF n Cons.prems(2)] notification_name [OF n]
    by (simp add: action_request_of_def mount_request_def unmount_request_def poweroff_request_def action_request_def
        process_mount_def process_unmount_def process_poweroff_def process_action_def process_other_def)
  with Cons show ?case by simp
qed simp

lemma run_action_answer:
  assumes "action_command c" and "wire_command c" and "library_state h = state_default"
  shows "run_messages (action_request_of c) [action_answer c e] h () = (helper_exit, [], case e of
     None \<Rightarrow> h\<lparr>result_state := dtmd_ok\<rparr>
   | Some x \<Rightarrow> h\<lparr>result_state := dt_command_failed, handle_error_code := x\<rparr>, ())"
  using assms(1,2)
proof (cases rule: action_cases)
  case mount
  with assms(3) show ?thesis
    by (auto simp: action_request_of_def mount_request_def action_request_def process_mount_def process_action_def
        action_answer_def is_mount_generic_def is_mount_failed_def is_mount_common_def arg_is_def mount_match_def
        failed_handle_def error_words.from_to simp del: error_code_to_string.simps split: option.split)
next
  case unmount
  with assms(3) show ?thesis
    by (auto simp: action_request_of_def unmount_request_def action_request_def process_unmount_def process_action_def
        action_answer_def is_unmount_generic_def is_unmount_failed_def is_unmount_common_def arg_is_def unmount_match_def
        failed_handle_def error_words.from_to simp del: error_code_to_string.simps split: option.split)
next
  case poweroff
  with assms(3) show ?thesis
    by (auto simp: action_request_of_def poweroff_request_def action_request_def process_poweroff_def process_action_def
        action_answer_def is_poweroff_generic_def is_poweroff_failed_def is_poweroff_common_def arg_is_def poweroff_match_def
        failed_handle_def error_words.from_to simp del: error_code_to_string.simps split: option.split)
qed

lemma daemon_answers_action:
  assumes "action_command c" and "wire_command c" and "writes (world d) = []"
    and "run_action os cf fd c d k = (r, e, w1, k1)" and "invoke_command os cf fd c d k = (r2, d', k')"
  shows "sent (world d') = sent (world d) @ map (Pair fd) [wire_message (action_answer c e)]"
proof -
  have "cmd c \<noteq> []" using assms(2) by (simp add: wire_command_def wire_name_def)
  then have "print_plain (cmd c) = print_arg (Some (cmd c))" by (rule print_plain_arg)
  with action_result [OF assms(4)] invoke_command_action [OF assms(1,4)] assms(3,5) show ?thesis
    by (auto simp: answer_def same_output_def action_answer_def wire_answer split: option.splits)
qed

lemma listing_rebuilds_tree:
  assumes "protocol_parser ps" and "dt_parse_command ps (rq_text list_all_request) = Some command"
    and "invoke_command os c fd command d k = (r, d', k')"
    and "sent (world d') = sent (world d) @ map (Pair fd) ms"
    and "writes (world d) = []" and "listable (removable_media_root d)" and "connected h ms is"
  shows "\<exists>h'. dtmd_list_all_removable_devices ps dtmd_ok is h =
    Some (dtmd_ok, h', client_tree (removable_media_root d)) \<and> finished_request list_all_request [] h h'"
proof -
  let ?root = "removable_media_root d"
  let ?cs = "answer_line response_started [Some command_list_all] # map node_command (nodes None ?root) @
     [answer_line response_finished [Some command_list_all]]"
  have "command = \<lparr>cmd = command_list_all, args = []\<rparr>"
    using all_request_parsed [OF assms(1)] assms(2) by simp
  with assms(3) have i: "invoke_command os c fd \<lparr>cmd = command_list_all, args = []\<rparr> d k = (r, d', k')" by simp
  from daemon_lists_all [OF assms(5) listable_known [OF assms(6)] i] assms(4)
  have "map (Pair fd) ms = map (Pair fd) (map wire_message ?cs)" by simp
  then have ms: "ms = map wire_message ?cs" by (rule map_Pair_inj)
  have fit: "list_all fits ?cs"
    using assms(6) list_all_lines_fit by (simp add: listable_def list.pred_map comp_def)
  let ?s = "\<lparr>devices_started = True, accept_multiple_devices = True, devices_result = client_tree ?root\<rparr>"
  let ?h = "(asked list_all_request h)\<lparr>result_state := dtmd_ok\<rparr>"
  have run: "run_messages list_all_request ?cs (asked list_all_request h)
      \<lparr>devices_started = False, accept_multiple_devices = True, devices_result = []\<rparr> = (helper_exit, [], ?h, ?s)"
    using assms(7) by (intro run_list_all [OF assms(6)]) (simp_all add: connected_def asked_def)
  have ex: "rq_exit list_all_request (?h\<lparr>h_buffer := '''', incoming := ''''\<rparr>) ?s =
      (True, ?h\<lparr>h_buffer := '''', incoming := ''''\<rparr>, ?s)"
    by (simp add: list_all_request_def exit_list_all_def exit_listing_def)
  from request_finished [OF assms(7) [unfolded ms] fit assms(1) run ex] show ?thesis
    using assms(7) by (simp add: dtmd_list_all_removable_devices_def finished_request_def asked_def connected_def)
qed

lemma action_reported:
  assumes "protocol_parser ps" and "action_command command" and "wire_command command"
    and "dt_parse_command ps (rq_text (action_request_of command)) = Some command'"
    and "invoke_command os c fd command' d k = (r2, d', k')" and "run_action os c fd command d k = (r, e, w1, k1)"
    and "sent (world d') = sent (world d) @ map (Pair fd) ms"
    and "writes (world d) = []" and "fits (action_answer command e)"
    and "list_all notification ns" and "list_all fits ns" and "connected h (map wire_message ns @ ms) is"
  shows "\<exists>h'. call_action ps command dtmd_ok is h =
      Some (if r = ResultSuccess then dtmd_ok else dt_command_failed, h') \<and>
    finished_request (action_request_of command) ns h h' \<and>
    (r \<noteq> ResultSuccess \<longrightarrow> e = Some (handle_error_code h'))"
proof -
  let ?rq = "action_request_of command" and ?cs = "ns @ [action_answer command e]"
  have same: "command' = command"
    using assms(1-4) by (simp add: action_request_text protocol_parser_def)
  have "map (Pair fd) ms = map (Pair fd) [wire_message (action_answer command e)]"
    using daemon_answers_action [OF assms(2,3,8,6) assms(5) [unfolded same]] assms(7) by simp
  then have "ms = [wire_message (action_answer command e)]" by (rule map_Pair_inj)
  with assms(12) have con: "connected h (map wire_message ?cs) is" by simp
  have fit: "list_all fits ?cs" using assms(9,11) by simp
  have lib: "library_state (asked ?rq h) = state_default" using con by (simp add: connected_def asked_def)
  note run = run_notifications [OF assms(2,3,10) lib, of "[action_answer command e]"]
    run_action_answer [OF assms(2,3), of "(asked ?rq h)\<lparr>callbacks := callbacks (asked ?rq h) @ ns\<rparr>" e]
  have ex: "rq_exit ?rq h1 () = (True, h1, ())" for h1
    by (simp add: action_request_of_def mount_request_def unmount_request_def poweroff_request_def action_request_def)
  have code: "r = ResultSuccess \<longleftrightarrow> e = None" using action_result(1) [OF assms(6)] .
  note finish = request_finished [OF con fit assms(1), of ?rq "()"]
  show ?thesis
  proof (cases e)
    case None
    with finish run lib ex code con show ?thesis
      by (simp add: call_action_request [OF assms(2,3)] run_action_request_def finished_request_def asked_def connected_def)
  next
    case (Some x)
    with finish run lib ex code con show ?thesis
      by (simp add: call_action_request [OF assms(2,3)] run_action_request_def finished_request_def asked_def connected_def)
  qed
qed

section \<open>Properties\<close>

text \<open>C2. The client rebuilds the daemon's device tree: after the daemon has handled the client's
  request for all devices, and however its answer is cut into reads, the client's function
  returns success with the daemon's tree, each device at its place with everything the
  protocol carries of it, and the connection is idle again.\<close>

theorem client_rebuilds_tree:
  assumes "protocol_parser ps" and "dt_parse_command ps (rq_text list_all_request) = Some command"
    and "invoke_command os c fd command d k = (r, d', k')"
    and "sent (world d') = sent (world d) @ map (Pair fd) ms"
    and "writes (world d) = []" and "listable (removable_media_root d)" and "connected h ms is"
  shows "\<exists>h'. dtmd_list_all_removable_devices ps dtmd_ok is h =
    Some (dtmd_ok, h', client_tree (removable_media_root d)) \<and> finished_request list_all_request [] h h'"
  using assms by (rule listing_rebuilds_tree)



text \<open>C25. Asked for a device, or for the root, the client's function returns the subtree the daemon
  has for it; for a device the daemon does not know it returns a failure with the daemon's
  error code.\<close>

theorem client_finds_device:
  assumes "protocol_parser ps" and "dt_parse_command ps (rq_text (list_device_request path)) = Some command"
    and "wire_text (Some path)" and "invoke_command os c fd command d k = (r, d', k')"
    and "sent (world d') = sent (world d) @ map (Pair fd) ms"
    and "writes (world d) = []" and "listable (removable_media_root d)" and "removable_media_root d \<noteq> []"
    and "list_all fits (device_answer path (removable_media_root d))" and "connected h ms is"
  shows "\<exists>h'. dtmd_list_removable_device ps (Some path) dtmd_ok is h =
      Some (case subtree path (removable_media_root d) of
        Some t \<Rightarrow> (dtmd_ok, h', client_tree t) | None \<Rightarrow> (dt_command_failed, h', [])) \<and>
    finished_request (list_device_request path) [] h h' \<and>
    (subtree path (removable_media_root d) = None \<longrightarrow> handle_error_code h' = error_code_no_such_removable_device)"
proof -
  let ?root = "removable_media_root d" and ?rq = "list_device_request path"
  have cmd: "command = \<lparr>cmd = command_list_device, args = [Some path]\<rparr>"
    using device_request_parsed [OF assms(1,3)] assms(2) by simp
  have "map (Pair fd) ms = map (Pair fd) (map wire_message (device_answer path ?root))"
    using daemon_lists_device [OF assms(6) listable_known [OF assms(7)] assms(4) [unfolded cmd]] assms(5) by simp
  then have ms: "ms = map wire_message (device_answer path ?root)" by (rule map_Pair_inj)
  have h: "library_state (asked ?rq h) = state_default" "allocs (h_world (asked ?rq h)) = []"
    using assms(10) by (simp_all add: connected_def asked_def)
  note run = run_device_answer [OF assms(7) h, of path]
  note done' = request_finished [OF assms(10) [unfolded ms] assms(9,1)]
  have nonempty: "client_tree t \<noteq> []" "path \<noteq> dtmd_root_device_path \<longrightarrow> tl (client_tree t) = []"
    if "subtree path ?root = Some t" for t
    using that assms(8) by (cases t; cases "hd t"; auto simp: subtree_def split: if_splits)+
  show ?thesis
  proof (cases "subtree path ?root")
    case None
    let ?h = "(asked ?rq h)\<lparr>result_state := dt_command_failed, handle_error_code := error_code_no_such_removable_device\<rparr>"
    have "generic_process ps ?rq dtmd_ok is h (devices_start path) =
        Some (result_state ?h, ?h\<lparr>h_buffer := '''', incoming := ''''\<rparr>, devices_start path)"
      using run None
      by (intro done') (auto simp: list_device_request_def exit_list_device_def exit_listing_def clear_devices_def devices_start_def)
    with None assms(3,10) show ?thesis
      by (simp add: dtmd_list_removable_device_def no_path_def wire_text_def devices_start_def
          finished_request_def asked_def connected_def)
  next
    case (Some t)
    let ?h = "(asked ?rq h)\<lparr>result_state := dtmd_ok\<rparr>"
    let ?s = "(devices_start path)\<lparr>devices_started := True, devices_result := client_tree t\<rparr>"
    have "generic_process ps ?rq dtmd_ok is h (devices_start path) =
        Some (result_state ?h, ?h\<lparr>h_buffer := '''', incoming := ''''\<rparr>, ?s)"
      using run Some nonempty [OF Some]
      by (intro done') (auto simp: list_device_request_def exit_list_device_def exit_listing_def devices_start_def)
    with Some assms(3,10) show ?thesis
      by (simp add: dtmd_list_removable_device_def no_path_def wire_text_def devices_start_def
          finished_request_def asked_def connected_def)
  qed
qed

text \<open>When the daemon has no device at all, asking for the root makes the client's handle invalid,
  tells its worker to stop, and so ends the client's connection, although the daemon answered
  the request with a complete, empty listing.\<close>

lemma empty_root_listing_breaks_client:
  assumes "protocol_parser ps"
    and "dt_parse_command ps (rq_text (list_device_request dtmd_root_device_path)) = Some command"
    and "invoke_command os c fd command d k = (r, d', k')"
    and "sent (world d') = sent (world d) @ map (Pair fd) ms"
    and "writes (world d) = []" and "removable_media_root d = []" and "connected h ms is"
  shows "\<exists>h'. dtmd_list_removable_device ps (Some dtmd_root_device_path) dtmd_ok is h =
      Some (dtmd_invalid_state, h', []) \<and> dtmd_is_state_invalid h' \<and> to_worker h' = to_worker h @ [1, 0]"
proof -
  let ?path = dtmd_root_device_path let ?rq = "list_device_request ?path"
  have w: "wire_text (Some ?path)" by (simp add: wire_text_def dtmd_root_device_path_def no_nul_def)
  have cmd: "command = \<lparr>cmd = command_list_device, args = [Some ?path]\<rparr>"
    using device_request_parsed [OF assms(1) w] assms(2) by simp
  have l: "listable []" by (simp add: listable_def siblings_ok_def)
  have "map (Pair fd) ms = map (Pair fd) (map wire_message (device_answer ?path []))"
    using daemon_lists_device [OF assms(5) _ assms(3) [unfolded cmd]] assms(4,6) by simp
  then have ms: "ms = map wire_message (device_answer ?path [])" by (rule map_Pair_inj)
  have fit: "list_all fits (device_answer ?path [])" by code_simp
  have conc: "concat ms = wire (device_answer ?path [])" by (simp add: ms wire_def)
  have run: "run_messages ?rq (device_answer ?path []) (asked ?rq h) (devices_start ?path) =
      (helper_exit, [], (asked ?rq h)\<lparr>result_state := dtmd_ok\<rparr>, (devices_start ?path)\<lparr>devices_started := True\<rparr>)"
    using run_device_answer [OF l, of "asked ?rq h" ?path] assms(7)
    by (simp add: connected_def asked_def subtree_def devices_start_def)
  have "\<exists>b inc. b @ inc = wire [] \<and> generic_process ps ?rq dtmd_ok is h (devices_start ?path) =
      Some (request_end ?rq (helper_exit = helper_exit,
        (asked ?rq h)\<lparr>result_state := dtmd_ok, h_buffer := b, incoming := inc\<rparr>, (devices_start ?path)\<lparr>devices_started := True\<rparr>))"
    using assms(7) conc fit run by (intro generic_process_messages [OF _ _ _ assms(1)]) (auto simp: connected_def)
  then show ?thesis
    by (auto simp: dtmd_list_removable_device_def no_path_def dtmd_root_device_path_def devices_start_def request_end_def
        request_error_def list_device_request_def exit_list_device_def exit_listing_def clear_devices_def
        dtmd_is_state_invalid_def asked_def)
qed

text \<open>C6. A client's call to mount, unmount or power off a device returns success exactly when the
  daemon's operation succeeded, and otherwise a failure with the daemon's error code; the
  notifications that arrive before the answer are handed to the client's callback, in order.\<close>

theorem client_reports_action:
  assumes "protocol_parser ps" and "action_command command" and "wire_command command"
    and "dt_parse_command ps (rq_text (action_request_of command)) = Some command'"
    and "invoke_command os c fd command' d k = (r2, d', k')" and "run_action os c fd command d k = (r, e, w1, k1)"
    and "sent (world d') = sent (world d) @ map (Pair fd) ms"
    and "writes (world d) = []" and "fits (action_answer command e)"
    and "list_all notification ns" and "list_all fits ns" and "connected h (map wire_message ns @ ms) is"
  shows "\<exists>h'. call_action ps command dtmd_ok is h =
      Some (if r = ResultSuccess then dtmd_ok else dt_command_failed, h') \<and>
    finished_request (action_request_of command) ns h h' \<and>
    (r \<noteq> ResultSuccess \<longrightarrow> e = Some (handle_error_code h'))"
  using assms by (rule action_reported)

section \<open>Witnesses\<close>

lemma demo_connected: "connected (demo_client cs) (map wire_message cs) (demo_reads cs)"
  by (auto simp: connected_def ready_def demo_client_def demo_reads_def dtmd_is_state_invalid_def quiet_io_def
      arriving_def wire_def)

lemma disk_listable: "listable (removable_media_root disk_daemon)"
  by code_simp

definition disk_answer :: "dt_command list" where
  "disk_answer = answer_line response_started [Some command_list_all] #
     map node_command (nodes None (removable_media_root disk_daemon)) @ [answer_line response_finished [Some command_list_all]]"

theorem client_rebuilds_tree_witness:
  "\<exists>h'. dtmd_list_all_removable_devices wire_parser dtmd_ok (demo_reads disk_answer) (demo_client disk_answer) =
    Some (dtmd_ok, h', client_tree (removable_media_root disk_daemon))"
proof -
  obtain r d' k' where i: "invoke_command demo_os initial_config 5 \<lparr>cmd = command_list_all, args = []\<rparr> disk_daemon demo_kernel = (r, d', k')"
    by (metis prod_cases3)
  have s: "sent (world d') = sent (world disk_daemon) @ map (Pair 5) (map wire_message disk_answer)"
    using daemon_lists_all [OF disk_find(3) listable_known [OF disk_listable] i] by (simp add: disk_answer_def)
  from client_rebuilds_tree [OF wire_parser_protocol all_request_parsed [OF wire_parser_protocol] i s disk_find(3)
      disk_listable demo_connected]
  show ?thesis by blast
qed

lemma disk_device_answer: "list_all fits (device_answer ''/dev/sdb1'' (removable_media_root disk_daemon))"
  by code_simp

theorem client_finds_device_witness:
  "\<exists>h'. dtmd_list_removable_device wire_parser (Some ''/dev/sdb1'') dtmd_ok
      (demo_reads (device_answer ''/dev/sdb1'' (removable_media_root disk_daemon)))
      (demo_client (device_answer ''/dev/sdb1'' (removable_media_root disk_daemon))) =
    Some (dtmd_ok, h', client_tree [part_media])"
proof -
  let ?path = "''/dev/sdb1''"
  have w: "wire_text (Some ?path)" by code_simp
  have f: "subtree ?path (removable_media_root disk_daemon) = Some [part_media]" by code_simp
  have ne: "removable_media_root disk_daemon \<noteq> []" using f by (auto simp: subtree_def split: if_splits)
  obtain r d' k' where i: "invoke_command demo_os initial_config 5 \<lparr>cmd = command_list_device, args = [Some ?path]\<rparr>
      disk_daemon demo_kernel = (r, d', k')" by (metis prod_cases3)
  note s = daemon_lists_device [OF disk_find(3) listable_known [OF disk_listable] i]
  from client_finds_device [OF wire_parser_protocol device_request_parsed [OF wire_parser_protocol w] w i s disk_find(3)
      disk_listable ne disk_device_answer demo_connected] f
  show ?thesis by auto
qed

definition disk_gone :: dt_command where
  "disk_gone = \<lparr>cmd = ''removable_device_removed'', args = [Some ''/dev/sdb'']\<rparr>"

lemma poweroff_facts:
  "action_command poweroff_command" "wire_command poweroff_command" "fits (action_answer poweroff_command None)"
  "list_all fits [disk_gone]"
  by code_simp+

lemma gone_notified: "list_all notification [disk_gone]"
  by (simp add: notification_def handle_callback_cmd_def disk_gone_def)

lemma poweroff_runs:
  "run_action demo_os initial_config 7 poweroff_command stateless_daemon demo_kernel =
     (ResultSuccess, None, quiet_io, \<lparr>kstate = (), syscalls =
       poweroff_calls ''/dev/sdc'' ''/sys/c'' False False @ [SysWrite ''/sys/c/remove'' ''1'']\<rparr>)"
  "writes (world stateless_daemon) = []"
proof -
  show "run_action demo_os initial_config 7 poweroff_command stateless_daemon demo_kernel =
     (ResultSuccess, None, quiet_io, \<lparr>kstate = (), syscalls =
       poweroff_calls ''/dev/sdc'' ''/sys/c'' False False @ [SysWrite ''/sys/c/remove'' ''1'']\<rparr>)"
    by (simp add: run_action_def poweroff_command_def stateless_daemon_def poweroff_run)
  show "writes (world stateless_daemon) = []" by (simp add: stateless_daemon_def quiet_io_def)
qed

lemma poweroff_parsed:
  "dt_parse_command wire_parser (rq_text (action_request_of poweroff_command)) = Some poweroff_command"
  using wire_parser_protocol poweroff_facts by (simp add: action_request_text protocol_parser_def)

text \<open>The answer, with a notification before it.\<close>

definition poweroff_messages :: "dt_command list" where
  "poweroff_messages = [disk_gone, action_answer poweroff_command None]"

lemma poweroff_connected:
  "connected (demo_client poweroff_messages) (map wire_message [disk_gone] @ [wire_message (action_answer poweroff_command None)])
     (demo_reads poweroff_messages)"
  using demo_connected [of poweroff_messages] by (simp add: poweroff_messages_def)

lemma poweroff_session:
  obtains r d' k' where "invoke_command demo_os initial_config 7 poweroff_command stateless_daemon demo_kernel = (r, d', k')"
    and "sent (world d') = sent (world stateless_daemon) @ map (Pair 7) [wire_message (action_answer poweroff_command None)]"
proof -
  obtain r d' k' where i: "invoke_command demo_os initial_config 7 poweroff_command stateless_daemon demo_kernel = (r, d', k')"
    by (metis prod_cases3)
  from that [OF i daemon_answers_action [OF poweroff_facts(1,2) poweroff_runs(2,1) i]] show thesis .
qed

theorem client_reports_action_witness:
  "\<exists>h'. dtmd_poweroff wire_parser (Some ''/dev/sdc'') dtmd_ok (demo_reads poweroff_messages)
      (demo_client poweroff_messages) = Some (dtmd_ok, h') \<and> callbacks h' = [disk_gone]"
proof -
  obtain r d' k' where i: "invoke_command demo_os initial_config 7 poweroff_command stateless_daemon demo_kernel = (r, d', k')"
    and s: "sent (world d') = sent (world stateless_daemon) @ map (Pair 7) [wire_message (action_answer poweroff_command None)]"
    by (rule poweroff_session)
  obtain h' where "call_action wire_parser poweroff_command dtmd_ok (demo_reads poweroff_messages) (demo_client poweroff_messages) =
      Some (dtmd_ok, h')" "callbacks h' = callbacks (demo_client poweroff_messages) @ [disk_gone]"
    using client_reports_action [OF wire_parser_protocol poweroff_facts(1,2) poweroff_parsed i poweroff_runs(1) s poweroff_runs(2)
        poweroff_facts(3) gone_notified poweroff_facts(4) poweroff_connected]
    by (fastforce simp: finished_request_def)
  moreover have "callbacks (demo_client poweroff_messages) = []" by (simp add: demo_client_def)
  ultimately show ?thesis by (auto simp: call_action_def poweroff_command_def)
qed

end
