(* ===== verification/Dtmd_Worker_Spec.thy ===== *)
theory Dtmd_Worker_Spec
  imports Dtmd_Session_Spec
begin

text \<open>
  The worker thread of the client library between requests: the notifications of the daemon reach
  the user's callback completely and in order, what a new device looks like there, and what a
  lost connection leaves behind.
\<close>

section \<open>The worker at the level of messages\<close>

lemma worker_lines_messages:
  assumes "protocol_parser ps"
  shows "b @ inc = wire cs \<Longrightarrow> list_all fits cs \<Longrightarrow> list_all notification cs \<Longrightarrow> library_state h = state_default \<Longrightarrow>
    \<exists>b1 ds es. cs = ds @ es \<and> worker_lines ps b h = (True, b1, h\<lparr>callbacks := callbacks h @ ds\<rparr>) \<and>
      b1 @ inc = wire es \<and> \<not> has_command b1"
proof (induction cs arbitrary: b h)
  case Nil
  then have "b = []" "\<not> has_command []" by (simp_all add: has_command_def c_str_def)
  with Nil show ?case
    by (intro exI [of _ "[]"]) (simp add: worker_lines.simps [of ps "[]"])
next
  case (Cons c cs)
  from Cons.prems(1,2) assms show ?case
  proof (cases rule: buffer_cases)
    case partial
    with Cons.prems show ?thesis
      by (intro exI [of _ b] exI [of _ "[]"] exI [of _ "c # cs"]) (simp add: worker_lines.simps [of ps b])
  next
    case (complete c' cs' b')
    let ?h = "h\<lparr>callbacks := callbacks h @ [c]\<rparr>"
    have "worker_lines ps b h = worker_lines ps b' ?h"
      using complete Cons.prems(3,4) handle_notification [of c h] by (simp add: worker_lines.simps [of ps b])
    moreover obtain b1 ds es where "cs = ds @ es" "worker_lines ps b' ?h = (True, b1, ?h\<lparr>callbacks := callbacks ?h @ ds\<rparr>)"
        "b1 @ inc = wire es" "\<not> has_command b1"
      using Cons.IH [of b' ?h] complete Cons.prems(2-4) by auto
    ultimately show ?thesis
      by (intro exI [of _ b1] exI [of _ "c # ds"] exI [of _ es]) simp
  qed
qed

text \<open>The connection, with \<open>cs\<close> on the way and the callback's log.\<close>

definition carries :: "dt_command list \<Rightarrow> handle \<Rightarrow> bool" where
  "carries cs h \<longleftrightarrow> h_buffer h @ incoming h = wire cs \<and> list_all fits cs \<and> list_all notification cs \<and>
     library_state h = state_default"

definition quiet_input :: "worker_input \<Rightarrow> bool" where
  "quiet_input i \<longleftrightarrow> i = WorkerInterrupted \<or> (\<exists>n. i = SocketReadable n)"

lemma worker_step_carries:
  assumes "protocol_parser ps" and "carries cs h" and "quiet_input i"
  shows "\<exists>ds es h'. cs = ds @ es \<and> worker_step ps f i h = (None, h') \<and> carries es h' \<and>
    callbacks h' = callbacks h @ ds \<and> (i = WorkerInterrupted \<and> incoming h' = '''' \<longrightarrow> es = [])"
proof -
  have c: "h_buffer h @ incoming h = wire cs" "list_all fits cs" "list_all notification cs" "library_state h = state_default"
    using assms(2) by (simp_all add: carries_def)
  obtain b1 ds es where w: "cs = ds @ es" "worker_lines ps (h_buffer h) h = (True, b1, h\<lparr>callbacks := callbacks h @ ds\<rparr>)"
      "b1 @ incoming h = wire es" "\<not> has_command b1"
    using worker_lines_messages [OF assms(1) c] by blast
  let ?h = "h\<lparr>callbacks := callbacks h @ ds, h_buffer := b1\<rparr>"
  have step: "worker_step ps f i h = worker_event f i ?h" by (simp add: worker_step_def w(2))
  have fit: "list_all fits es" "list_all notification es" using c(2,3) w(1) by simp_all
  from assms(3) consider "i = WorkerInterrupted" | n where "i = SocketReadable n" by (auto simp: quiet_input_def)
  then show ?thesis
  proof cases
    case 1
    have "incoming h = '''' \<longrightarrow> es = []"
    proof
      assume "incoming h = ''''"
      with w(3) have "b1 @ '''' = wire es" by simp
      from this fit(1) assms(1) show "es = []" by (cases rule: buffer_cases) (use w(4) in auto)
    qed
    with 1 step w fit c(4) show ?thesis
      by (intro exI [of _ ds] exI [of _ es]) (simp add: worker_event_def carries_def)
  next
    case 2
    obtain r b inc where d: "read_data (Arrived n) b1 (incoming h) = (r, b, inc)" by (metis prod_cases3)
    from read_data_keeps [OF d] w(3) have "b @ inc = wire es" by simp
    with 2 step w fit c(4) d show ?thesis
      by (intro exI [of _ ds] exI [of _ es]) (simp add: worker_event_def carries_def disconnect_def)
  qed
qed

lemma worker_function_carries:
  assumes "protocol_parser ps"
  shows "carries cs h \<Longrightarrow> list_all quiet_input is \<Longrightarrow>
    \<exists>ds es h'. cs = ds @ es \<and> worker_function ps f is h = (None, h') \<and> carries es h' \<and>
      callbacks h' = callbacks h @ ds \<and> (is \<noteq> [] \<and> last is = WorkerInterrupted \<and> incoming h' = '''' \<longrightarrow> es = [])"
proof (induction "is" arbitrary: cs h)
  case Nil
  then show ?case by (intro exI [of _ "[]"] exI [of _ cs]) simp
next
  case (Cons i "is")
  have q: "quiet_input i" "list_all quiet_input is" using Cons.prems(2) by simp_all
  from worker_step_carries [OF assms Cons.prems(1) q(1), of f]
  obtain ds es h1 where s: "cs = ds @ es" "worker_step ps f i h = (None, h1)" "carries es h1"
      "callbacks h1 = callbacks h @ ds" "i = WorkerInterrupted \<and> incoming h1 = '''' \<longrightarrow> es = []"
    by blast
  from Cons.IH [OF s(3) q(2)]
  obtain ds2 es2 h2 where t: "es = ds2 @ es2" "worker_function ps f is h1 = (None, h2)" "carries es2 h2"
      "callbacks h2 = callbacks h1 @ ds2" "is \<noteq> [] \<and> last is = WorkerInterrupted \<and> incoming h2 = '''' \<longrightarrow> es2 = []"
    by blast
  have "is = [] \<Longrightarrow> h2 = h1" using t(2) by simp
  then have "i # is \<noteq> [] \<and> last (i # is) = WorkerInterrupted \<and> incoming h2 = '''' \<longrightarrow> es2 = []"
    using s(5) t(1,5) by (cases "is = []") auto
  moreover have "cs = (ds @ ds2) @ es2" "worker_function ps f (i # is) h = (None, h2)"
      "callbacks h2 = callbacks h @ (ds @ ds2)"
    using s t by simp_all
  ultimately show ?case using t(3) by blast
qed

section \<open>What the daemon tells of a new device\<close>

lemma node_command_check:
  assumes "md_type i \<noteq> media_type_unknown_or_persistent"
  shows "check_removable_device_common \<lparr>cmd = x, args = args (node_command (par, q, i))\<rparr> \<longleftrightarrow> described i"
proof -
  have st: "string_to_device_subtype (Some (device_subtype_to_string t)) = t"
    "string_to_device_state (Some (device_state_to_string u)) = u" for t u
    by (rule subtype_words.from_to state_words.from_to)+
  consider (partition) "md_type i = media_type_device_partition" | (stateless) "md_type i = media_type_stateless_device"
    | (stateful) "md_type i = media_type_stateful_device"
    using assms by (cases "md_type i") auto
  then show ?thesis
    by cases (simp_all add: check_removable_device_common_def node_args type_read described_def st)
qed

lemma handle_added:
  assumes "library_state h = state_default" and "cmd c = ''removable_device_added''"
  shows "handle_cmd c h = (if check_removable_device_common c then (dtmd_ok, h\<lparr>callbacks := callbacks h @ [c]\<rparr>)
    else (dtmd_fatal_io_error, h))"
  using assms by (simp add: handle_cmd_def handle_callback_cmd_def response_failed_def response_succeeded_def response_started_def)

lemma added_desc:
  assumes "built_from a s i"
  shows "a\<lparr>d_label := md_label i\<rparr> =
    node_desc (if d_parent a = dtmd_root_device_path then None else Some (d_parent a)) (d_path a) i"
  using assms by (cases a) (auto simp: built_from_def node_desc_def)

definition added_command :: "device_desc \<Rightarrow> media_info \<Rightarrow> dt_command" where
  "added_command a i = \<lparr>cmd = ''removable_device_added'', args = args (node_command
     (if d_parent a = dtmd_root_device_path then None else Some (d_parent a), d_path a, i))\<rparr>"

lemma added_message:
  assumes "built_from a s i" and "d_type a \<noteq> media_type_unknown_or_persistent"
  shows "message_of ''removable_device_added'' (a\<lparr>d_label := md_label i\<rparr>) = [wire_message (added_command a i)]"
proof -
  let ?par = "if d_parent a = dtmd_root_device_path then None else Some (d_parent a)"
  have "md_type i \<noteq> media_type_unknown_or_persistent" using assms by (simp add: built_from_def)
  then obtain as where "device_args (node_desc ?par (d_path a) i) = Some as"
    using known_args [of ?par "d_path a" i] by (auto simp: known_type_def)
  then show ?thesis
    by (simp add: message_of_def added_desc [OF assms(1)] added_command_def wire_message_def node_command_def)
qed

section \<open>Inside a listing\<close>

lemma notification_not_listed:
  assumes "notification c"
  shows "cmd c \<notin> {response_finished, ''removable_device'', ''supported_filesystems_list'', ''supported_filesystem_options_list''}"
proof -
  have "fst (handle_callback_cmd c h) = dtmd_fatal_io_error"
    if "cmd c \<in> {response_finished, ''removable_device'', ''supported_filesystems_list'', ''supported_filesystem_options_list''}" for h
    using that by (auto simp: handle_callback_cmd_def response_finished_def)
  moreover have "fst (handle_callback_cmd c h) = dtmd_ok" for h using assms by (simp add: notification_def)
  ultimately show ?thesis by fastforce
qed

lemma has_command_wire:
  assumes "wire_command c"
  shows "has_command (wire_message c)"
proof -
  obtain line where "wire_message c = line @ [newline]" "no_nul line" by (rule wire_message_line [OF assms])
  then show ?thesis by (simp add: has_command_def c_str_no_nul no_nul_def)
qed

section \<open>Properties\<close>

text \<open>C28. A device that was added is announced to every client with one message, and the client that
  knows enough of the protocol gets back from it what the daemon stored: its worker hands the
  message to the callback and the library makes the device of it, exactly when the subtype and
  the state are known wherever the message carries them; otherwise the client takes the
  message for a broken connection.\<close>

theorem added_device_reaches_clients:
  assumes "add_media a s d = (ResultSuccess, d')" and "writes (world d) = []"
    and "d_type a \<noteq> media_type_unknown_or_persistent"
    and "library_state h = state_default" and "allocs (h_world h) = []"
  shows "\<exists>i. built_from a s i \<and>
    sent (world d') = sent (world d) @ to_all (clients d) (wire_message (added_command a i)) \<and>
    (if described i
     then handle_cmd (added_command a i) h = (dtmd_ok, h\<lparr>callbacks := callbacks h @ [added_command a i]\<rparr>) \<and>
       dtmd_fill_removable_device_from_notification True (added_command a i) h =
         (dtmd_ok, Some (Media (d_path a) (client_view i) []), h)
     else handle_cmd (added_command a i) h = (dtmd_fatal_io_error, h))"
proof -
  from assms(1) obtain i w where c: "construct_media a s (world d) = (Some i, w)"
    and d': "world d' = notify_removable_device_added (a\<lparr>d_label := md_label i\<rparr>) (clients d) w"
    by (auto simp: add_media_def Let_def split: if_splits prod.splits option.splits)
  have b: "built_from a s i" by (rule construct_media_built [OF c])
  have w: "sent w = sent (world d)" "writes w = []" using construct_media_sent [OF c] assms(2) by simp_all
  have out: "sent (world d') = sent (world d) @ to_all (clients d) (wire_message (added_command a i))"
    using w by (simp add: d' notify_removable_device_added_def notify_each_common added_message [OF b assms(3)])
  have t: "md_type i \<noteq> media_type_unknown_or_persistent" using b assms(3) by (simp add: built_from_def)
  let ?c = "added_command a i"
  have chk: "check_removable_device_common ?c \<longleftrightarrow> described i"
    unfolding added_command_def by (rule node_command_check [OF t])
  have n: "cmd ?c = ''removable_device_added''" by (simp add: added_command_def)
  have fill: "fill_removable_device True ?c h = (Some (Media (d_path a) (client_view i) []), h)" if "described i"
    using node_command_args(3,4) [OF that] malloc_all_no_failure [OF assms(5)]
    by (simp add: fill_removable_device_def added_command_def del: malloc_all.simps)
  show ?thesis
  proof (intro exI [of _ i] conjI b out)
    show "if described i
     then handle_cmd ?c h = (dtmd_ok, h\<lparr>callbacks := callbacks h @ [?c]\<rparr>) \<and>
       dtmd_fill_removable_device_from_notification True ?c h = (dtmd_ok, Some (Media (d_path a) (client_view i) []), h)
     else handle_cmd ?c h = (dtmd_fatal_io_error, h)"
      using handle_added [OF assms(4) n] chk fill n
      by (simp add: dtmd_fill_removable_device_from_notification_def is_notification_valid_removable_device_def)
  qed
qed

text \<open>C26. Between requests the worker hands the daemon's notifications to the callback completely and
  in order, however the text is cut into reads: at any time those handed over are the first
  ones, the rest is in the buffer or on the connection, and when everything was read and looked
  at none is left.\<close>

theorem worker_delivers_notifications:
  assumes "protocol_parser ps" and "h_buffer h @ incoming h = wire cs" and "list_all fits cs"
    and "list_all notification cs" and "library_state h = state_default" and "list_all quiet_input is"
  shows "\<exists>ds es h'. cs = ds @ es \<and> worker_function ps f is h = (None, h') \<and>
    callbacks h' = callbacks h @ ds \<and> h_buffer h' @ incoming h' = wire es \<and>
    (is \<noteq> [] \<and> last is = WorkerInterrupted \<and> incoming h' = '''' \<longrightarrow> es = [])"
  using worker_function_carries [OF assms(1), of cs h "is" f] assms(2-6) unfolding carries_def by blast

text \<open>A connection that is lost inside a listing cannot be used again: the client reconnects when
  the daemon's socket appears but still expects the rest of the listing, so the first
  notification of the new connection ends its worker.\<close>

lemma reconnect_mid_listing_fails:
  assumes "protocol_parser ps" and "fits c" and "notification c"
    and "library_state h \<noteq> state_default" and "0 \<le> socket_fd h" and "\<not> has_command (h_buffer h)" and "0 \<le> fd"
    and "length (wire_message c) \<le> Suc n"
  shows "fst (worker_function ps f [SocketBroken, Watched [\<lparr>we_created = True, we_name = Some f, we_gone = False,
    we_connect = Connected fd, we_incoming = wire_message c\<rparr>], SocketReadable n, i] h) = Some WorkerError"
proof -
  let ?m = "wire_message c"
  let ?h1 = "disconnect h"
  let ?h2 = "?h1\<lparr>socket_fd := fd, h_buffer := '''', incoming := ?m, state_callbacks := state_callbacks ?h1 @ [state_connected]\<rparr>"
  have wl: "worker_lines ps b h' = (True, b, h')" if "\<not> has_command b" for b h'
    using that by (simp add: worker_lines.simps [of ps b])
  have nc: "\<not> has_command ''''" by (simp add: has_command_def c_str_def)
  have fl: "list_all fits [c]" "'''' @ ?m = wire [c]" "?m @ '''' = wire [c]" using assms(2) by simp_all
  have m: "?m \<noteq> ''''" "length ?m \<le> dtmd_command_max_length"
    using assms(2) by (auto simp: fits_def wire_message_def message_def)
  then have rd: "read_data (Arrived n) '''' ?m = (dtmd_ok, ?m, '''')"
    using assms(8) by (simp add: read_data_def Let_def min_def)
  have s1: "worker_step ps f SocketBroken h = (None, ?h1)"
    using assms(5) wl [OF assms(6)] by (simp add: worker_step_def worker_event_def)
  have "h_buffer ?h1 = h_buffer h" "socket_fd ?h1 = -1" by (simp_all add: disconnect_def)
  then have s2: "worker_step ps f (Watched [\<lparr>we_created = True, we_name = Some f, we_gone = False,
      we_connect = Connected fd, we_incoming = ?m\<rparr>]) ?h1 = (None, ?h2)"
    using wl [OF assms(6)] by (simp add: worker_step_def worker_event_def try_connecting_def)
  have s3: "worker_step ps f (SocketReadable n) ?h2 = (None, ?h2\<lparr>h_buffer := ?m, incoming := ''''\<rparr>)"
    using wl [OF nc] rd assms(7) by (simp add: worker_step_def worker_event_def)
  have st: "library_state ?h2 = library_state h" by (simp add: disconnect_def)
  have names: "cmd c \<notin> {response_finished, ''removable_device'', ''supported_filesystems_list'', ''supported_filesystem_options_list''}"
    by (rule notification_not_listed [OF assms(3)])
  then have hc: "handle_cmd c h' = (dtmd_fatal_io_error, h')" if "library_state h' \<noteq> state_default" for h'
    using that by (cases "library_state h'") (simp_all add: handle_cmd_def handle_listed_def check_removable_device_def
        check_supported_filesystems_def check_supported_filesystem_options_def)
  have "fst (worker_lines ps ?m h') = False" if "library_state h' \<noteq> state_default" for h'
    using fl(3,1) assms(1)
  proof (cases rule: buffer_cases)
    case partial
    have "has_command ?m"
      using has_command_wire assms(2) by (simp add: fits_def)
    with partial show ?thesis by simp
  next
    case (complete c' cs' b')
    then have p: "dt_parse_command ps ?m = Some c" by simp
    show ?thesis using complete(2-4) p hc [OF that] by (subst worker_lines.simps) simp
  qed
  note bad = this
  let ?h3 = "?h2\<lparr>h_buffer := ?m, incoming := ''''\<rparr>"
  obtain ok b h4 where l: "worker_lines ps ?m ?h3 = (ok, b, h4)" by (metis prod_cases3)
  have "library_state ?h3 \<noteq> state_default" using assms(4) st by simp
  from bad [OF this] l have "\<not> ok" by simp
  with l have "fst (worker_step ps f i ?h3) = Some WorkerError" by (simp add: worker_step_def)
  then show ?thesis using s1 s2 s3 by (auto split: prod.splits)
qed


section \<open>Witnesses\<close>

theorem added_device_reaches_clients_witness:
  "\<exists>i. handle_cmd (added_command part_desc i) (demo_client []) =
     (dtmd_ok, (demo_client [])\<lparr>callbacks := [added_command part_desc i]\<rparr>)"
proof -
  let ?d = "snd (add_media disk_desc (Some ''/sys/b'') (snd (add_client 5 empty_daemon)))"
  have "fst (add_media part_desc None ?d) = ResultSuccess" "writes (world ?d) = []" by code_simp+
  then obtain d' where a: "add_media part_desc None ?d = (ResultSuccess, d')" "writes (world ?d) = []"
    by (metis prod.collapse)
  have t: "d_type part_desc \<noteq> media_type_unknown_or_persistent" by (simp add: part_desc_def)
  have l: "library_state (demo_client []) = state_default" "allocs (h_world (demo_client [])) = []"
    by (simp_all add: demo_client_def quiet_io_def)
  obtain i where b: "built_from part_desc None i" and r: "if described i
     then handle_cmd (added_command part_desc i) (demo_client []) =
       (dtmd_ok, (demo_client [])\<lparr>callbacks := callbacks (demo_client []) @ [added_command part_desc i]\<rparr>) \<and>
       dtmd_fill_removable_device_from_notification True (added_command part_desc i) (demo_client []) =
         (dtmd_ok, Some (Media (d_path part_desc) (client_view i) []), demo_client [])
     else handle_cmd (added_command part_desc i) (demo_client []) = (dtmd_fatal_io_error, demo_client [])"
    using added_device_reaches_clients [OF a t l] by blast
  have "described i" using b by (simp add: built_from_def described_def part_desc_def)
  with r show ?thesis by (intro exI [of _ i]) (simp add: demo_client_def)
qed

definition demo_inputs :: "worker_input list" where
  "demo_inputs = [SocketReadable 20, SocketReadable 60, WorkerInterrupted]"

theorem worker_delivers_notifications_witness:
  "\<exists>h'. worker_function wire_parser ''socket'' demo_inputs (demo_client [disk_gone]) = (None, h') \<and> callbacks h' = [disk_gone]"
proof -
  have n: "list_all notification [disk_gone]" by (simp add: notification_def handle_callback_cmd_def disk_gone_def)
  have f: "list_all fits [disk_gone]" by code_simp
  have "h_buffer (demo_client [disk_gone]) @ incoming (demo_client [disk_gone]) = wire [disk_gone]"
    "library_state (demo_client [disk_gone]) = state_default" "list_all quiet_input demo_inputs"
    by (simp_all add: demo_client_def quiet_input_def demo_inputs_def)
  from worker_delivers_notifications [OF wire_parser_protocol this(1) f n this(2,3), of "''socket''"]
  obtain ds es h' where r: "[disk_gone] = ds @ es" "worker_function wire_parser ''socket'' demo_inputs (demo_client [disk_gone]) = (None, h')"
    "callbacks h' = callbacks (demo_client [disk_gone]) @ ds" "demo_inputs \<noteq> [] \<and> last demo_inputs = WorkerInterrupted \<and> incoming h' = '''' \<longrightarrow> es = []"
    by blast
  have "incoming (snd (worker_function wire_parser ''socket'' demo_inputs (demo_client [disk_gone]))) = ''''" by code_simp
  with r show ?thesis by (simp add: demo_inputs_def demo_client_def)
qed

end
