(* ===== verification/Dtmd_Handover.thy ===== *)
theory Dtmd_Handover
  imports Dtmd_Requests
begin

text \<open>
  How the thread that calls the library and the worker thread take turns on the socket
  (\<^verbatim>\<open>dtmd_helper_capture_socket\<close>, the end of \<^verbatim>\<open>dtmd_helper_generic_process\<close> and the pipe branch
  of \<^verbatim>\<open>dtmd_worker_function\<close> in \<^verbatim>\<open>library/dtmd-library.c\<close>): a pipe to the worker, a pipe back and a
  semaphore.  Each step is one read or write of these by one of the threads; the threads'
  steps interleave freely.
\<close>

section \<open>The state\<close>

text \<open>The worker polls the socket, or has lent it and waits for the semaphore, or has ended.  The
  caller is outside the library, waits for the socket, or uses it; \<open>CallerRefused\<close>: the handle is
  invalid and no request gets any further.\<close>

datatype worker_pos = WorkerServing | WorkerLent | WorkerEnded

datatype caller_pos = CallerIdle | CallerAsking | CallerOwning | CallerRefused

record handover =
  pipe :: "nat list"
  feedback_pipe :: "nat list"
  caller_socket :: nat
  worker :: worker_pos
  caller :: caller_pos

definition handover_start :: handover where
  "handover_start = \<lparr>pipe = [], feedback_pipe = [], caller_socket = 0, worker = WorkerServing, caller = CallerIdle\<rparr>"

section \<open>The steps\<close>

text \<open>\<open>timed\<close>: the caller gives its requests a timeout.  \<open>interrupted\<close>: a \<open>read\<close> of the feedback pipe or a
  \<open>sem_wait\<close> may return without a byte or a token, as both do when the thread handles a signal; the
  library does not look at their results, and the byte it tests is 1 before it is read.  Writing one
  byte to a pipe that is not full always succeeds.  A request
  that times out, or ends well, returns the socket; one that ends with an error tells the worker
  to stop as well, and leaves the handle valid or not.\<close>

inductive handover_step :: "bool \<Rightarrow> bool \<Rightarrow> handover \<Rightarrow> handover \<Rightarrow> bool" for timed :: bool and interrupted :: bool where
  ask: "caller s = CallerIdle \<Longrightarrow>
    handover_step timed interrupted s (s\<lparr>caller := CallerAsking, pipe := pipe s @ [1]\<rparr>)"
| capture: "caller s = CallerAsking \<Longrightarrow> feedback_pipe s = x # fb \<Longrightarrow> x \<noteq> 0 \<Longrightarrow>
    handover_step timed interrupted s (s\<lparr>caller := CallerOwning, feedback_pipe := fb\<rparr>)"
| capture_unread: "interrupted \<Longrightarrow> caller s = CallerAsking \<Longrightarrow>
    handover_step timed interrupted s (s\<lparr>caller := CallerOwning\<rparr>)"
| capture_ended: "caller s = CallerAsking \<Longrightarrow> feedback_pipe s = 0 # fb \<Longrightarrow>
    handover_step timed interrupted s (s\<lparr>caller := CallerRefused, feedback_pipe := fb, pipe := pipe s @ [0],
      caller_socket := Suc (caller_socket s)\<rparr>)"
| time_out: "timed \<Longrightarrow> caller s = CallerAsking \<Longrightarrow> feedback_pipe s = [] \<Longrightarrow>
    handover_step timed interrupted s (s\<lparr>caller := CallerIdle, caller_socket := Suc (caller_socket s)\<rparr>)"
| wait_error: "timed \<Longrightarrow> caller s = CallerAsking \<Longrightarrow>
    handover_step timed interrupted s (s\<lparr>caller := CallerRefused, pipe := pipe s @ [0], caller_socket := Suc (caller_socket s)\<rparr>)"
| release: "caller s = CallerOwning \<Longrightarrow>
    handover_step timed interrupted s (s\<lparr>caller := CallerIdle, caller_socket := Suc (caller_socket s)\<rparr>)"
| release_error: "caller s = CallerOwning \<Longrightarrow> c = CallerIdle \<or> c = CallerRefused \<Longrightarrow>
    handover_step timed interrupted s (s\<lparr>caller := c, pipe := pipe s @ [0], caller_socket := Suc (caller_socket s)\<rparr>)"
| lend: "worker s = WorkerServing \<Longrightarrow> pipe s = 1 # p \<Longrightarrow>
    handover_step timed interrupted s (s\<lparr>worker := WorkerLent, pipe := p, feedback_pipe := feedback_pipe s @ [1]\<rparr>)"
| stop: "worker s = WorkerServing \<Longrightarrow> pipe s = x # p \<Longrightarrow> x \<noteq> 1 \<Longrightarrow>
    handover_step timed interrupted s (s\<lparr>worker := WorkerEnded, pipe := p, feedback_pipe := feedback_pipe s @ [0]\<rparr>)"
| fail: "worker s = WorkerServing \<Longrightarrow>
    handover_step timed interrupted s (s\<lparr>worker := WorkerEnded, feedback_pipe := feedback_pipe s @ [0]\<rparr>)"
| resume: "worker s = WorkerLent \<Longrightarrow> caller_socket s = Suc n \<Longrightarrow>
    handover_step timed interrupted s (s\<lparr>worker := WorkerServing, caller_socket := n\<rparr>)"
| resume_early: "interrupted \<Longrightarrow> worker s = WorkerLent \<Longrightarrow>
    handover_step timed interrupted s (s\<lparr>worker := WorkerServing\<rparr>)"

inductive handover_reachable :: "bool \<Rightarrow> bool \<Rightarrow> handover \<Rightarrow> bool" for timed :: bool and interrupted :: bool where
  start: "handover_reachable timed interrupted handover_start"
| step: "handover_reachable timed interrupted s \<Longrightarrow> handover_step timed interrupted s t \<Longrightarrow> handover_reachable timed interrupted t"

section \<open>Without timeouts and interruptions\<close>

text \<open>Every token is accounted for: at most one request is in the pipe, and only while the caller
  asks; a lent socket is on its way to the caller, with it, or on its way back.\<close>

fun handover_ok :: "handover \<Rightarrow> bool" where
  "handover_ok s = (case worker s of
     WorkerServing \<Rightarrow> caller s \<noteq> CallerOwning \<and> feedback_pipe s = [] \<and> caller_socket s = 0 \<and>
       count_list (pipe s) 1 = (if caller s = CallerAsking then 1 else 0)
   | WorkerLent \<Rightarrow>
       (if caller_socket s = 0
        then count_list (pipe s) 1 = 0 \<and>
          (caller s = CallerOwning \<and> feedback_pipe s = [] \<or> caller s = CallerAsking \<and> feedback_pipe s = [1])
        else caller_socket s = 1 \<and> caller s \<noteq> CallerOwning \<and> feedback_pipe s = [] \<and>
          count_list (pipe s) 1 = (if caller s = CallerAsking then 1 else 0))
   | WorkerEnded \<Rightarrow> True)"

lemma handover_step_ok: "handover_step False False s t \<Longrightarrow> handover_ok s \<Longrightarrow> handover_ok t"
proof (induction rule: handover_step.induct)
  case (release_error s c)
  then show ?case by (cases "worker s") (auto split: if_splits)
qed (auto split: worker_pos.splits if_splits)

lemma handover_reachable_ok: "handover_reachable False False s \<Longrightarrow> handover_ok s"
  by (induction rule: handover_reachable.induct) (simp add: handover_start_def, blast intro: handover_step_ok)

section \<open>Properties\<close>

text \<open>C14. As long as no request has a timeout and no call of the threads is interrupted by a signal, the
  socket is never used by the caller and the worker at once, and a socket that the worker has lent
  is never lost: it is with the caller, or a token for it is in exactly one of the feedback pipe
  and the semaphore.\<close>

theorem socket_exclusive:
  assumes "handover_reachable False False s"
  shows "(caller s = CallerOwning \<longrightarrow> worker s \<noteq> WorkerServing) \<and>
    (worker s = WorkerLent \<longrightarrow>
       (if caller s = CallerOwning then 1 else 0) + length (feedback_pipe s) + caller_socket s = 1)"
  using handover_reachable_ok [OF assms] by (auto split: worker_pos.splits if_splits)

text \<open>One request: the caller asks, the worker lends the socket.\<close>

lemma reach_asked: "handover_reachable t i \<lparr>pipe = [1], feedback_pipe = [], caller_socket = 0, worker = WorkerServing, caller = CallerAsking\<rparr>"
  by (rule handover_reachable.step [OF handover_reachable.start])
    (use handover_step.ask [of handover_start t i] in \<open>simp add: handover_start_def\<close>)

lemma reach_lent: "handover_reachable t i \<lparr>pipe = [], feedback_pipe = [1], caller_socket = 0, worker = WorkerLent, caller = CallerAsking\<rparr>"
  by (rule handover_reachable.step [OF reach_asked])
    (use handover_step.lend [of "\<lparr>pipe = [1], feedback_pipe = [], caller_socket = 0, worker = WorkerServing, caller = CallerAsking\<rparr>" "[]" t i] in simp)

lemma reach_owning: "handover_reachable t i \<lparr>pipe = [], feedback_pipe = [], caller_socket = 0, worker = WorkerLent, caller = CallerOwning\<rparr>"
  by (rule handover_reachable.step [OF reach_lent])
    (use handover_step.capture [of "\<lparr>pipe = [], feedback_pipe = [1], caller_socket = 0, worker = WorkerLent, caller = CallerAsking\<rparr>" 1 "[]" t i] in simp)

text \<open>A request that times out: the byte of the worker arrives after that and stays in the pipe.\<close>

lemma reach_stale: "handover_reachable True i \<lparr>pipe = [1], feedback_pipe = [1], caller_socket = 0, worker = WorkerServing, caller = CallerAsking\<rparr>"
proof -
  let ?st = "\<lambda>p f n w c. \<lparr>pipe = p, feedback_pipe = f, caller_socket = n, worker = w, caller = c\<rparr>"
  have 2: "handover_reachable True i (?st [1] [] 1 WorkerServing CallerIdle)"
    by (rule handover_reachable.step [OF reach_asked]) (use handover_step.time_out [of True "?st [1] [] 0 WorkerServing CallerAsking" i] in simp)
  have 3: "handover_reachable True i (?st [] [1] 1 WorkerLent CallerIdle)"
    by (rule handover_reachable.step [OF 2]) (use handover_step.lend [of "?st [1] [] 1 WorkerServing CallerIdle" "[]" True i] in simp)
  have 4: "handover_reachable True i (?st [] [1] 0 WorkerServing CallerIdle)"
    by (rule handover_reachable.step [OF 3]) (use handover_step.resume [of "?st [] [1] 1 WorkerLent CallerIdle" 0 True i] in simp)
  show ?thesis
    by (rule handover_reachable.step [OF 4]) (use handover_step.ask [of "?st [] [1] 0 WorkerServing CallerIdle" True i] in simp)
qed

text \<open>C37. A timeout breaks this: when the wait for the socket has timed out, the byte the worker sends
  back later is taken for the answer to the next request, and then both threads use the socket.
  Without timeouts a signal breaks it as well, in either thread: when the caller's \<open>read\<close> is
  interrupted it takes the socket without having been given it, and when the worker's \<open>sem_wait\<close> is
  interrupted it takes back the socket it has lent.\<close>

theorem timeout_breaks_exclusion:
  "(\<exists>s. handover_reachable True False s \<and> caller s = CallerOwning \<and> worker s = WorkerServing) \<and>
   (\<exists>s. handover_reachable False True s \<and> caller s = CallerOwning \<and> worker s = WorkerServing \<and> pipe s = [1]) \<and>
   (\<exists>s. handover_reachable False True s \<and> caller s = CallerOwning \<and> worker s = WorkerServing \<and> pipe s = [])"
proof -
  let ?st = "\<lambda>p f n w c. \<lparr>pipe = p, feedback_pipe = f, caller_socket = n, worker = w, caller = c\<rparr>"
  have 1: "handover_reachable True False (?st [1] [] 0 WorkerServing CallerOwning)"
    by (rule handover_reachable.step [OF reach_stale])
      (use handover_step.capture [of "?st [1] [1] 0 WorkerServing CallerAsking" 1 "[]" True False] in simp)
  have 2: "handover_reachable False True (?st [1] [] 0 WorkerServing CallerOwning)"
    by (rule handover_reachable.step [OF reach_asked])
      (use handover_step.capture_unread [of True "?st [1] [] 0 WorkerServing CallerAsking" False] in simp)
  have 3: "handover_reachable False True (?st [] [] 0 WorkerServing CallerOwning)"
    by (rule handover_reachable.step [OF reach_owning])
      (use handover_step.resume_early [of True "?st [] [] 0 WorkerLent CallerOwning" False] in simp)
  show ?thesis
    by (intro conjI exI [of _ "?st [1] [] 0 WorkerServing CallerOwning"] exI [of _ "?st [] [] 0 WorkerServing CallerOwning"])
      (use 1 2 3 in simp_all)
qed

section \<open>Witness\<close>

text \<open>The states a request goes through, while the socket is on its way to the caller and while the caller
  has it.\<close>

theorem socket_exclusive_witness:
  "\<exists>s t. handover_reachable False False s \<and> worker s = WorkerLent \<and> caller s = CallerAsking \<and>
     length (feedback_pipe s) + caller_socket s = 1 \<and>
     handover_reachable False False t \<and> caller t = CallerOwning \<and> worker t \<noteq> WorkerServing \<and> feedback_pipe t = []"
  by (intro exI conjI, rule reach_lent [of False False])
    (use socket_exclusive [OF reach_lent] socket_exclusive [OF reach_owning] reach_owning [of False False] in auto)

end
