(* ===== verification/Dtmd_Source.thy ===== *)
theory Dtmd_Source
  imports Dtmd_Rebuild
begin

text \<open>
  What the daemon needs of a device module (\<^verbatim>\<open>daemon/system_module.h\<close>): the interface between
  \<^verbatim>\<open>daemon/modules\<close> and the main program as a locale.  A module that reports, for every complete
  device, a known state where the device has one, and never changes the type of the device at a
  path, keeps every device of the tree one that clients can read.
\<close>

section \<open>What the tree inherits\<close>

text \<open>A device of the right type, described well enough for a client.\<close>

definition of_kind :: "(string \<Rightarrow> media_type) \<Rightarrow> string \<Rightarrow> media_info \<Rightarrow> bool" where
  "of_kind kind q i \<longleftrightarrow> described i \<and> md_type i = kind q"

lemma of_kind_mount:
  "of_kind kind q i \<Longrightarrow> process_entry cl e q i w = (True, i', w') \<Longrightarrow> of_kind kind q i'"
  by (auto simp: of_kind_def described_def process_entry_def process_mount_dir_def process_mount_opts_def Let_def
      split: if_splits option.splits prod.splits)

lemma of_kind_counter [simp]: "of_kind kind q (i\<lparr>md_mount_counter := n\<rparr>) = of_kind kind q i"
  by (simp add: of_kind_def described_def)

lemma of_kind_change_result: "of_kind kind q i \<Longrightarrow> of_kind kind q (change_result i)"
  by (auto simp: of_kind_def described_def change_result_def split: if_splits)

definition kinds_ok :: "(string \<Rightarrow> media_type) \<Rightarrow> daemon \<Rightarrow> bool" where
  "kinds_ok kind d \<longleftrightarrow> every_node (of_kind kind) (removable_media_root d)"

lemma check_mount_changes_kinds:
  "check_mount_changes mounts d = (ResultSuccess, d') \<Longrightarrow> kinds_ok kind d \<Longrightarrow> kinds_ok kind d'"
  unfolding kinds_ok_def
  by (rule check_mount_changes_keep [where Q = "of_kind kind"], assumption, assumption, simp)
     (erule of_kind_mount, assumption, erule of_kind_change_result)

lemma kinds_ok_tree: "removable_media_root d' = removable_media_root d \<Longrightarrow> kinds_ok kind d' = kinds_ok kind d"
  by (simp add: kinds_ok_def)

lemma process_commands_tree:
  "process_commands os c ps fd b d k = (v, b', d', k') \<Longrightarrow> removable_media_root d' = removable_media_root d"
  using process_commands_effect [of os c ps fd b d k v b' d' k'] by auto

lemma remove_client_tree [simp]: "removable_media_root (snd (remove_client fd d)) = removable_media_root d"
  by (simp add: remove_client_def)

lemma client_readable_tree:
  "client_readable os c ps fd rd d k = (r, d', k') \<Longrightarrow> removable_media_root d' = removable_media_root d"
  by (auto simp: client_readable_def set_buffer_def split: option.splits if_splits prod.splits verdict.splits
      dest!: process_commands_tree)

lemma poll_clients_tree:
  "poll_clients os c ps ev fds d k = (r, d', k') \<Longrightarrow> removable_media_root d' = removable_media_root d"
proof (induction fds arbitrary: d k)
  case (Cons fd fds)
  then show ?case by (fastforce split: if_splits prod.splits option.splits dest: client_readable_tree)
qed simp

text \<open>The steps of the loop that leave the tree alone, and the one that looks at the mounts.\<close>

lemma accept_step_tree: "accept_step li s = (r, s') \<Longrightarrow> removable_media_root (dmn s') = removable_media_root (dmn s)"
  by (auto simp: accept_step_def add_client_def split: if_splits option.splits prod.splits)

lemma clients_step_tree:
  "clients_step os c ps li fds s = (r, s') \<Longrightarrow> removable_media_root (dmn s') = removable_media_root (dmn s)"
  by (auto simp: clients_step_def split: prod.splits dest: poll_clients_tree)

lemma pollfds_step_tree: "pollfds_step s = (r, s') \<Longrightarrow> removable_media_root (dmn s') = removable_media_root (dmn s)"
  by (auto simp: pollfds_step_def split: if_splits prod.splits)

lemma check_mount_changes_fails:
  "check_mount_changes mounts d = (r, d') \<Longrightarrow> \<not> is_result_fatal_error r \<Longrightarrow> r = ResultSuccess"
  by (auto simp: check_mount_changes_def split: option.splits prod.splits if_splits)

lemma mounts_step_kinds: "mounts_step os li s = (None, s') \<Longrightarrow> kinds_ok kind (dmn s) \<Longrightarrow> kinds_ok kind (dmn s')"
proof -
  assume s: "mounts_step os li s = (None, s')" "kinds_ok kind (dmn s)"
  obtain r d where c: "check_mount_changes (os_mounts os (kstate (krn s))) (dmn s) = (r, d)" by fastforce
  show "kinds_ok kind (dmn s')"
    using s c check_mount_changes_fails [OF c] check_mount_changes_kinds [of _ "dmn s" d]
    by (auto simp: mounts_step_def split: if_splits)
qed

text \<open>A client accepts the line for each device.\<close>

lemma kinds_ok_accepted:
  "kinds_ok kind d \<Longrightarrow> list_all (\<lambda>n. check_removable_device (node_command n)) (nodes None (removable_media_root d))"
  unfolding kinds_ok_def every_node_def list_all_iff of_kind_def by (auto intro: node_command_args(1))

section \<open>The interface\<close>

definition reported_input :: "(dtmd_info \<Rightarrow> bool) \<Rightarrow> loop_input \<Rightarrow> bool" where
  "reported_input reported li \<longleftrightarrow> (case in_device li of Inr (action, i) \<Rightarrow> reported i | Inl _ \<Rightarrow> True)"

text \<open>A complete description has the type that belongs to the path.\<close>

definition same_kind :: "(string \<Rightarrow> media_type) \<Rightarrow> dtmd_info \<Rightarrow> bool" where
  "same_kind kind i \<longleftrightarrow> (event_complete i \<longrightarrow> in_media_type i = kind (the (in_path i)))"

text \<open>\<open>reported i\<close>: the module reports \<open>i\<close>, at the start or as an event; \<open>kind\<close> is the type of the
  device at each path.\<close>

locale device_source =
  fixes reported :: "dtmd_info \<Rightarrow> bool"
    and kind :: "string \<Rightarrow> media_type"
  assumes reported_state: "reported i \<Longrightarrow> event_complete i \<Longrightarrow> in_media_type i = media_type_stateful_device \<Longrightarrow>
      in_state i \<noteq> media_state_unknown"
    and reported_kind: "reported i \<Longrightarrow> event_complete i \<Longrightarrow> in_media_type i = kind (the (in_path i))"
begin

lemma added_of_kind:
  assumes "reported i" and "event_complete i" and "construct_media (event_desc i) s w = (Some j, w')"
  shows "of_kind kind (d_path (event_desc i)) j"
  using construct_media_built [OF assms(3)] reported_state [OF assms(1,2)] reported_kind [OF assms(1,2)] assms(2)
  by (auto simp: built_from_def of_kind_def described_def event_complete_def event_desc_def)

lemma changed_of_kind:
  assumes "reported i" and "event_complete i" and "of_kind kind (d_path (event_desc i)) j"
    and "change_info cl q (event_desc i) j w = (r, i', w')"
  shows "of_kind kind (d_path (event_desc i)) i'"
proof -
  have "md_state i' = md_state j \<or> md_state i' = in_state i" "md_subtype i' = md_subtype j" "md_type i' = md_type j"
    using assms(4)
    by (auto simp: change_info_def update_mnt_point_def event_desc_def Let_def split: if_splits prod.splits option.splits)
  then show ?thesis
    using assms(3) reported_state [OF assms(1,2)] reported_kind [OF assms(1,2)]
    by (auto simp: of_kind_def described_def event_desc_def)
qed

lemma device_event_kinds:
  assumes "reported i" and "kinds_ok kind d" and "device_event action i d = (r, f, d')"
  shows "kinds_ok kind d'"
  using assms(3)
proof (cases rule: device_event_cases)
  case 2
  with added_of_kind [OF assms(1)] assms(2) show ?thesis by (auto simp: kinds_ok_def intro: add_media_keeps)
next
  case 4
  have "of_kind kind q i'" if "of_kind kind q j" "q = d_path (event_desc i)"
    "change_info cl q (event_desc i) j w = (r, i', w')" for q j cl w r i' w'
    using changed_of_kind [OF assms(1) 4(1)] that by blast
  with 4(2) assms(2) show ?thesis by (auto simp: kinds_ok_def intro: change_media_keeps)
qed (use assms(2) in \<open>simp_all add: kinds_ok_def remove_media_keeps\<close>)

lemma device_step_kinds:
  "reported_input reported li \<Longrightarrow> kinds_ok kind (dmn s) \<Longrightarrow> kinds_ok kind (dmn (snd (device_step li s)))"
  by (auto simp: device_step_def reported_input_def split: sum.split prod.split dest: device_event_kinds)

lemma loop_step_kinds:
  assumes "kinds_ok kind (dmn s)" and "reported_input reported li" and "loop_step os c ps s li = (None, s')"
  shows "kinds_ok kind (dmn s')"
proof (cases "in_poll li")
  case PollReady
  let ?s0 = "fill_pollfds s"
  have s0: "kinds_ok kind (dmn ?s0)" using assms(1) by (simp add: fill_pollfds_def kinds_ok_def)
  from assms(3) PollReady obtain s1 s2 s3 s4 where steps: "accept_step li ?s0 = (None, s1)" "device_step li s1 = (None, s2)"
    "mounts_step os li s2 = (None, s3)" "clients_step os c ps li (map clientfd (clients (dmn s))) s3 = (None, s4)"
    "pollfds_step s4 = (None, s')"
    by (auto simp: loop_step_def Let_def next_step_def split: prod.splits option.splits)
  have "kinds_ok kind (dmn s1)" using accept_step_tree [OF steps(1)] s0 kinds_ok_tree by blast
  then have "kinds_ok kind (dmn s2)" using device_step_kinds [OF assms(2)] steps(2) by (metis snd_conv)
  then have "kinds_ok kind (dmn s3)" using mounts_step_kinds [OF steps(3)] by blast
  then show ?thesis using clients_step_tree [OF steps(4)] pollfds_step_tree [OF steps(5)] kinds_ok_tree by metis
qed (use assms in \<open>auto simp: loop_step_def fill_pollfds_def kinds_ok_def\<close>)

lemma enumerate_devices_kinds:
  "list_all reported is \<Longrightarrow> kinds_ok kind d \<Longrightarrow> enumerate_devices is rc d = (ok, d') \<Longrightarrow> kinds_ok kind d'"
proof (induction "is" arbitrary: d)
  case (Cons i "is")
  have add: "kinds_ok kind (snd (add_media (event_desc i) (in_sysfs_path i) d))" if "event_complete i"
    using added_of_kind [of i] that Cons.prems(1,2) by (auto simp: kinds_ok_def intro: add_media_keeps)
  from Cons.prems Cons.IH [of d] Cons.IH add show ?case by (auto split: if_splits prod.splits)
qed simp

end

sublocale device_source \<subseteq> kinds_loop: guarded_loop "loop_step os c ps" "reported_input reported" "\<lambda>s. kinds_ok kind (dmn s)"
  for os :: "'k os" and c ps
  by unfold_locales (rule loop_step_kinds)

context device_source begin

lemma start_daemon_kinds:
  assumes "list_all reported devices" and "start_daemon os devices rc w k = (True, s)"
  shows "kinds_ok kind (dmn s)"
proof -
  obtain b d where e: "enumerate_devices devices rc (no_devices w) = (b, d)" by fastforce
  have "kinds_ok kind (no_devices w)" by (simp add: kinds_ok_def no_devices_def)
  with enumerate_devices_kinds [OF assms(1) _ e] have d: "kinds_ok kind d" by blast
  obtain r d1 where c: "check_mount_changes (os_mounts os (kstate k)) d = (r, d1)" by fastforce
  from assms(2) e c have "\<not> is_result_fatal_error r" "removable_media_root (dmn s) = removable_media_root d1"
    by (auto simp: start_daemon_def Let_def split: if_splits prod.splits)
  with check_mount_changes_kinds check_mount_changes_fails [OF c] c d kinds_ok_tree show ?thesis by metis
qed

lemma devices_accepted:
  assumes "list_all reported devices" and "start_daemon os devices rc w k = (True, s0)"
    and "list_all (reported_input reported) inputs" and "main_loop os c ps inputs s0 = (0, s)"
  shows "list_all (\<lambda>n. check_removable_device (node_command n)) (nodes None (removable_media_root (dmn s)))"
proof -
  have "run_steps (loop_step os c ps) inputs s0 = (None, s)"
    using assms(4) by (auto simp: main_loop_steps split: prod.splits option.splits)
  from kinds_loop.run_keeps [OF start_daemon_kinds [OF assms(1,2)] assms(3) this] show ?thesis by (rule kinds_ok_accepted)
qed

end

end
