(* ===== verification/Dtmd_Udev.thy ===== *)
theory Dtmd_Udev
  imports Dtmd_Daemon
begin

text \<open>
  \<^verbatim>\<open>daemon/modules/linux-udev/system_module.c\<close>: the devices and events of the daemon as libudev
  tells them.  What libudev knows of a device is a parameter, a record with the results of the
  calls the module makes; so is what its enumeration and its monitor return.  The reference
  counts of libudev's objects are not modelled.
\<close>

section \<open>What libudev knows of a device\<close>

record udev_props =
  ud_devnode :: "string option"
  ud_sysattr :: "string \<Rightarrow> string option"
  ud_property :: "string \<Rightarrow> string option"

text \<open>The system path of the parent that is a USB device, and the parent that is a disk, when there
  are such.\<close>

record udev_device = udev_props +
  ud_devtype :: "string option"
  ud_action :: "string option"
  ud_usb_parent :: "string option"
  ud_disk_parent :: "udev_props option"

definition text_is :: "string option \<Rightarrow> string \<Rightarrow> bool" where
  "text_is a s \<longleftrightarrow> a \<noteq> None \<and> strcmp (the a) s = 0"

section \<open>Devices\<close>

definition get_device_subtype :: "'a udev_props_scheme \<Rightarrow> media_subtype" where
  "get_device_subtype device =
     (let removable = ud_sysattr device ''removable'';
          id_bus = ud_property device ''ID_BUS'';
          id_cdrom = ud_property device ''ID_CDROM'';
          id_drive_flash_sd = ud_property device ''ID_DRIVE_FLASH_SD'';
          id_drive_media_flash_sd = ud_property device ''ID_DRIVE_MEDIA_FLASH_SD''
      in if removable \<noteq> None \<and> (text_is removable ''1'' \<or> text_is id_bus ''usb'' \<or>
             text_is id_drive_flash_sd ''1'' \<or> text_is id_drive_media_flash_sd ''1'')
         then (if text_is id_cdrom ''1'' then media_subtype_cdrom
               else if text_is id_drive_flash_sd ''1'' \<or> text_is id_drive_media_flash_sd ''1''
               then media_subtype_sd_card
               else media_subtype_removable_disk)
         else media_subtype_unknown_or_persistent)"

definition cdrom_state :: "string option \<Rightarrow> string option \<Rightarrow> media_state" where
  "cdrom_state fstype state = (case state of
     Some s \<Rightarrow>
       if fstype \<noteq> None \<and> strcmp s ''complete'' = 0 then media_state_ok
       else if strcmp s ''blank'' = 0 then media_state_clear
       else media_state_empty
   | None \<Rightarrow> if fstype \<noteq> None then media_state_ok else media_state_empty)"

definition device_system_fill_device :: "udev_device \<Rightarrow> string \<Rightarrow> dtmd_info" where
  "device_system_fill_device dev path =
     (let subtype = get_device_subtype dev; cdrom = (subtype = media_subtype_cdrom);
          fstype = (if cdrom then ud_property dev ''ID_FS_TYPE'' else None)
      in \<lparr>in_path_parent = Some dtmd_root_device_path, in_path = Some path,
          in_media_type = (if cdrom then media_type_stateful_device else media_type_stateless_device),
          in_media_subtype = subtype, in_sysfs_path = ud_usb_parent dev, in_fstype = fstype,
          in_label = (if cdrom then ud_property dev ''ID_FS_LABEL_ENC'' else None),
          in_state = (if cdrom then cdrom_state fstype (ud_property dev ''ID_CDROM_MEDIA_STATE'')
            else media_state_unknown)\<rparr>)"

definition device_system_fill_partition :: "udev_device \<Rightarrow> string \<Rightarrow> dtmd_info" where
  "device_system_fill_partition dev path =
     \<lparr>in_path_parent = (case ud_disk_parent dev of
        Some p \<Rightarrow> ud_devnode p | None \<Rightarrow> Some dtmd_root_device_path),
      in_path = Some path, in_media_type = media_type_device_partition,
      in_media_subtype = (case ud_disk_parent dev of
        Some p \<Rightarrow> get_device_subtype p | None \<Rightarrow> media_subtype_unknown_or_persistent),
      in_sysfs_path = None, in_fstype = ud_property dev ''ID_FS_TYPE'',
      in_label = ud_property dev ''ID_FS_LABEL_ENC'', in_state = media_state_unknown\<rparr>"

text \<open>A disk or a partition; \<open>Some None\<close>: of another kind.  The device type is compared without a
  check for \<open>NULL\<close>.\<close>

definition udev_info :: "udev_device \<Rightarrow> string \<Rightarrow> io \<Rightarrow> dtmd_info option option \<times> io" where
  "udev_info dev path w = (case ud_devtype dev of
     None \<Rightarrow> (None, undefined_behaviour w)
   | Some t \<Rightarrow>
       if strcmp t ''disk'' = 0 \<or> strcmp t ''partition'' = 0
       then (case malloc w of (ok, w1) \<Rightarrow>
         (if \<not> ok then None
          else Some (Some (if strcmp t ''disk'' = 0 then device_system_fill_device dev path
                           else device_system_fill_partition dev path)), w1))
       else (Some None, w))"

section \<open>Enumeration\<close>

text \<open>The list of system paths: for each, the device libudev makes of it, if it can.\<close>

type_synonym udev_list = "udev_device option list"

text \<open>The enumeration is set up by four calls; each may fail.\<close>

definition device_system_enumerate_devices ::
  "bool \<Rightarrow> bool \<Rightarrow> udev_list option \<Rightarrow> io \<Rightarrow> udev_list option \<times> io" where
  "device_system_enumerate_devices enumerate_new add_match scan w = (case malloc w of (ok, w1) \<Rightarrow>
     (if ok \<and> enumerate_new \<and> add_match then scan else None, w1))"

fun device_system_next_enumerated_device ::
  "udev_list \<Rightarrow> io \<Rightarrow> result \<times> dtmd_info option \<times> udev_list \<times> io" where
  "device_system_next_enumerated_device [] w = (ResultFail, None, [], w)"
| "device_system_next_enumerated_device (e # es) w = (case e of
     None \<Rightarrow> (ResultFatalError, None, es, w)
   | Some dev \<Rightarrow> (case ud_devnode dev of
       None \<Rightarrow> (ResultFatalError, None, es, w)
     | Some path \<Rightarrow> (case udev_info dev path w of
         (None, w1) \<Rightarrow> (ResultFatalError, None, es, w1)
       | (Some None, w1) \<Rightarrow> device_system_next_enumerated_device es w1
       | (Some (Some i), w1) \<Rightarrow> (ResultSuccess, Some i, es, w1))))"

lemma next_enumerated_shorter:
  "device_system_next_enumerated_device es w = (ResultSuccess, i, es', w') \<Longrightarrow> length es' < length es"
  by (induction es w rule: device_system_next_enumerated_device.induct)
     (auto split: option.splits prod.splits intro: less_SucI)

text \<open>All devices of an enumeration and the result that ends it.\<close>

function udev_enumeration :: "udev_list \<Rightarrow> io \<Rightarrow> dtmd_info list \<times> result \<times> io" where
  "udev_enumeration es w = (case device_system_next_enumerated_device es w of (rc, i, es', w') \<Rightarrow>
     if rc = ResultSuccess
     then (case udev_enumeration es' w' of (is, r, w2) \<Rightarrow> (the i # is, r, w2))
     else ([], rc, w'))"
  by pat_completeness auto
termination
  by (relation "measure (\<lambda>(es, w). length es)") (auto dest: next_enumerated_shorter [OF sym])

declare udev_enumeration.simps [simp del]

section \<open>Monitoring\<close>

definition device_system_start_monitoring :: "bool \<Rightarrow> bool \<Rightarrow> bool \<Rightarrow> bool" where
  "device_system_start_monitoring monitor_new add_match enable_receiving \<longleftrightarrow>
     monitor_new \<and> add_match \<and> enable_receiving"

definition action_of :: "string \<Rightarrow> device_action" where
  "action_of s = (if strcmp s ''add'' = 0 then device_action_add
     else if strcmp s ''online'' = 0 then device_action_online
     else if strcmp s ''remove'' = 0 then device_action_remove
     else if strcmp s ''offline'' = 0 then device_action_offline
     else if strcmp s ''change'' = 0 then device_action_change
     else device_action_unknown)"

text \<open>The event read from the monitor; \<open>None\<close>: libudev has none.\<close>

definition device_system_monitor_get_device ::
  "udev_device option \<Rightarrow> io \<Rightarrow> (result + device_action \<times> dtmd_info) \<times> io" where
  "device_system_monitor_get_device event w = (case event of
     None \<Rightarrow> (Inl ResultFatalError, w)
   | Some dev \<Rightarrow> (case (ud_action dev, ud_devnode dev) of
       (Some a, Some path) \<Rightarrow>
         if action_of a = device_action_unknown then (Inl ResultFail, w)
         else (case udev_info dev path w of
             (None, w1) \<Rightarrow> (Inl ResultFatalError, w1)
           | (Some None, w1) \<Rightarrow> (Inl ResultFail, w1)
           | (Some (Some i), w1) \<Rightarrow> (Inr (action_of a, i), w1))
     | _ \<Rightarrow> (Inl ResultFail, w)))"

end
