(* ===== verification/Dtmd_Udev_Spec.thy ===== *)
theory Dtmd_Udev_Spec
  imports Dtmd_Source Dtmd_Udev
begin

text \<open>
  The udev module: what it enumerates, that its events describe devices as the enumeration does,
  and that it is a \<open>device_source\<close>, so that clients can read every device of a daemon that runs
  on it.
\<close>

section \<open>The devices it reports\<close>

definition udev_reports :: "(string \<Rightarrow> media_type) \<Rightarrow> dtmd_info \<Rightarrow> bool" where
  "udev_reports kind i \<longleftrightarrow> same_kind kind i \<and>
     (\<exists>dev path. i = device_system_fill_device dev path \<or> i = device_system_fill_partition dev path)"

lemma cdrom_state_known [simp]: "cdrom_state f s \<noteq> media_state_unknown"
  by (simp add: cdrom_state_def split: option.split)

interpretation udev: device_source "udev_reports kind" kind
  for kind :: "string \<Rightarrow> media_type"
  by unfold_locales
     (auto simp: udev_reports_def same_kind_def device_system_fill_device_def device_system_fill_partition_def Let_def
       split: if_splits)

section \<open>Enumeration\<close>

text \<open>The reference: what is reported of a device, if anything.\<close>

definition udev_listed :: "udev_device \<Rightarrow> dtmd_info option" where
  "udev_listed dev = (case (ud_devnode dev, ud_devtype dev) of
     (Some path, Some t) \<Rightarrow>
       if t = ''disk'' then Some (device_system_fill_device dev path)
       else if t = ''partition'' then Some (device_system_fill_partition dev path) else None
   | _ \<Rightarrow> None)"

lemma udev_info_listed:
  "udev_info dev path w = (Some x, w') \<Longrightarrow> ud_devnode dev = Some path \<Longrightarrow> udev_listed dev = x"
  by (auto simp: udev_info_def udev_listed_def split: option.splits prod.splits if_splits)

lemma udev_listed_reports: "udev_listed dev = Some i \<Longrightarrow> same_kind kind i \<Longrightarrow> udev_reports kind i"
  by (auto simp: udev_listed_def udev_reports_def split: option.splits if_splits)

fun listed_devices :: "udev_device list \<Rightarrow> dtmd_info list" where
  "listed_devices [] = []"
| "listed_devices (d # ds) = (case udev_listed d of None \<Rightarrow> listed_devices ds | Some i \<Rightarrow> i # listed_devices ds)"

lemma listed_devices_append [simp]: "listed_devices (ds @ ds') = listed_devices ds @ listed_devices ds'"
  by (induction ds) (auto split: option.split)

definition walked :: "udev_list \<Rightarrow> result \<Rightarrow> dtmd_info list \<Rightarrow> udev_list \<Rightarrow> bool" where
  "walked es r is rest \<longleftrightarrow> (\<exists>ds. es = map Some ds @ rest \<and> listed_devices ds = is) \<and>
     (r = ResultFail \<longrightarrow> rest = [])"

lemma walked_Cons: "walked es r is rest \<Longrightarrow> udev_listed dev = None \<Longrightarrow> walked (Some dev # es) r is rest"
  unfolding walked_def by (metis append_Cons list.simps(9) listed_devices.simps(2) option.simps(4))

lemma walked_Nil: "r \<noteq> ResultFail \<Longrightarrow> walked es r [] es"
  unfolding walked_def by (auto intro!: exI [of _ "[]"])

lemma next_enumerated_spec:
  assumes "device_system_next_enumerated_device es w = (r, i, es', w')"
  shows "r = ResultSuccess \<and> i \<noteq> None \<and> walked es r [the i] es' \<or>
    (r = ResultFail \<or> r = ResultFatalError) \<and> (\<exists>rest. walked es r [] rest)"
  using assms
proof (induction es arbitrary: w)
  case (Cons e es)
  consider (skipped) dev path w1 where "e = Some dev" "ud_devnode dev = Some path" "udev_info dev path w = (Some None, w1)"
    | (found) dev path x w1 where "e = Some dev" "ud_devnode dev = Some path" "udev_info dev path w = (Some (Some x), w1)"
    | (failed) "r = ResultFatalError"
    using Cons.prems by (auto split: option.splits prod.splits)
  then show ?case
  proof cases
    case skipped
    with udev_info_listed [OF skipped(3,2)] Cons.IH [of w1] Cons.prems show ?thesis by (auto intro: walked_Cons)
  next
    case found
    have r: "r = ResultSuccess" "es' = es" "i = Some x" using found Cons.prems by auto
    have "e # es = map Some [dev] @ es" "listed_devices [dev] = [x]"
      using udev_info_listed [OF found(3,2)] found(1) by simp_all
    with r have "walked (e # es) r [x] es" unfolding walked_def by blast
    with r show ?thesis by simp
  qed (auto intro: walked_Nil)
qed (auto simp: walked_def)

lemma walked_append:
  "walked es r [i] es' \<Longrightarrow> r \<noteq> ResultFail \<Longrightarrow> walked es' rc is rest \<Longrightarrow> walked es rc (i # is) rest"
proof -
  assume w: "walked es r [i] es'" "r \<noteq> ResultFail" "walked es' rc is rest"
  then obtain ds ds' where "es = map Some ds @ es'" "listed_devices ds = [i]"
    "es' = map Some ds' @ rest" "listed_devices ds' = is" by (auto simp: walked_def)
  then have "es = map Some (ds @ ds') @ rest" "listed_devices (ds @ ds') = i # is"
    by simp_all
  with w(3) show ?thesis unfolding walked_def by blast
qed

lemma udev_enumeration_walked:
  "udev_enumeration es w = (devices, rc, w') \<Longrightarrow>
   (rc = ResultFail \<or> rc = ResultFatalError) \<and> (\<exists>rest. walked es rc devices rest)"
proof (induction es w arbitrary: devices rc w' rule: udev_enumeration.induct)
  case (1 es w)
  obtain r j es1 w1 where n: "device_system_next_enumerated_device es w = (r, j, es1, w1)" by (metis prod_cases4)
  note spec = next_enumerated_spec [OF n]
  show ?case
  proof (cases "r = ResultSuccess")
    case True
    obtain ds rc1 w2 where e: "udev_enumeration es1 w1 = (ds, rc1, w2)" by (metis prod_cases3)
    from "1.prems" n True e have d: "devices = the j # ds" "rc = rc1"
      by (subst (asm) udev_enumeration.simps, simp)+
    from spec True have "walked es r [the j] es1" "r \<noteq> ResultFail" by auto
    from walked_append [OF this] "1.IH" [OF n [symmetric] refl refl True e] show ?thesis
      unfolding d by blast
  next
    case False
    with "1.prems" n spec show ?thesis by (subst (asm) udev_enumeration.simps) auto
  qed
qed

section \<open>Monitoring\<close>

lemma monitor_listed:
  "fst (device_system_monitor_get_device event w) = Inr (a, i) \<Longrightarrow>
   \<exists>dev. event = Some dev \<and> udev_listed dev = Some i \<and> a \<noteq> device_action_unknown"
  by (auto simp: device_system_monitor_get_device_def split: option.splits prod.splits if_splits dest!: udev_info_listed)

lemma walked_listed: "walked es r is rest \<Longrightarrow> i \<in> set is \<Longrightarrow> \<exists>dev. udev_listed dev = Some i"
proof -
  have "i \<in> set (listed_devices ds) \<Longrightarrow> \<exists>dev. udev_listed dev = Some i" for ds
    by (induction ds) (auto split: option.splits)
  then show "walked es r is rest \<Longrightarrow> i \<in> set is \<Longrightarrow> \<exists>dev. udev_listed dev = Some i" by (auto simp: walked_def)
qed

section \<open>Properties\<close>

text \<open>The enumeration reports exactly the disks and partitions libudev lists, in its order, up to
  the first device it fails on; and an event describes its device as the enumeration would.\<close>

lemma udev_enumeration_complete:
  assumes "udev_enumeration es w = (devices, rc, w')"
  shows "(rc = ResultFail \<or> rc = ResultFatalError) \<and>
    (\<exists>ds rest. es = map Some ds @ rest \<and> devices = listed_devices ds \<and> (rc = ResultFail \<longrightarrow> rest = [])) \<and>
    (\<forall>dev u a i. fst (device_system_monitor_get_device (Some dev) u) = Inr (a, i) \<longrightarrow> udev_listed dev = Some i)"
proof -
  from udev_enumeration_walked [OF assms] obtain ds rest where
    "rc = ResultFail \<or> rc = ResultFatalError" "es = map Some ds @ rest" "listed_devices ds = devices"
    "rc = ResultFail \<longrightarrow> rest = []" unfolding walked_def by blast
  moreover have "udev_listed dev = Some i" if "fst (device_system_monitor_get_device (Some dev) u) = Inr (a, i)" for dev u a i
    using monitor_listed [OF that] by simp
  ultimately show ?thesis by blast
qed

text \<open>With libudev as the source of devices, every line of a listing of the daemon's devices is
  one that clients accept, after the start and any number of passes of the event loop, as long
  as the device at a path is never reported with another type.\<close>

lemma udev_devices_accepted:
  assumes "udev_enumeration es u = (devices, rc, u')" and "list_all (same_kind kind) devices"
    and "start_daemon os devices rc w k = (True, s0)"
    and "list_all (\<lambda>li. \<exists>event v. in_device li = fst (device_system_monitor_get_device event v)) inputs"
    and "list_all (reported_input (same_kind kind)) inputs"
    and "main_loop os c ps inputs s0 = (0, s)"
  shows "list_all (\<lambda>n. check_removable_device (node_command n)) (nodes None (removable_media_root (dmn s)))"
proof -
  have "list_all (udev_reports kind) devices"
    using udev_enumeration_walked [OF assms(1)] walked_listed assms(2) udev_listed_reports
    unfolding list_all_iff by blast
  moreover have "reported_input (udev_reports kind) li" if li: "li \<in> set inputs" for li
  proof (cases "in_device li")
    case (Inr p)
    obtain a i where p: "p = (a, i)" by (cases p)
    from li assms(4) Inr p obtain event v where "fst (device_system_monitor_get_device event v) = Inr (a, i)"
      by (fastforce simp: list_all_iff)
    from monitor_listed [OF this] obtain dev where "udev_listed dev = Some i" by blast
    moreover have "same_kind kind i" using li assms(5) Inr p by (auto simp: list_all_iff reported_input_def)
    ultimately show ?thesis using Inr p udev_listed_reports by (simp add: reported_input_def)
  qed (simp add: reported_input_def)
  ultimately show ?thesis
    using udev.devices_accepted [OF _ assms(3) _ assms(6)] by (simp add: list_all_iff)
qed

section \<open>Witnesses\<close>

text \<open>A disc drive whose medium changes, and a device of no interest.\<close>

definition demo_drive :: udev_device where
  "demo_drive = \<lparr>ud_devnode = Some ''/dev/sr0'', ud_sysattr = (\<lambda>a. if a = ''removable'' then Some ''1'' else None),
     ud_property = (\<lambda>p. if p = ''ID_CDROM'' then Some ''1'' else None),
     ud_devtype = Some ''disk'', ud_action = None, ud_usb_parent = None, ud_disk_parent = None\<rparr>"

definition demo_entries :: udev_list where
  "demo_entries = [Some (demo_drive\<lparr>ud_devtype := Some ''none''\<rparr>), Some demo_drive]"

definition demo_disc :: udev_device where
  "demo_disc = demo_drive\<lparr>ud_action := Some ''change'',
     ud_property := (\<lambda>p. if p = ''ID_CDROM'' then Some ''1'' else if p = ''ID_FS_TYPE'' then Some ''iso9660'' else None)\<rparr>"

definition disc_pass :: loop_input where
  "disc_pass = connect_pass\<lparr>in_socket := no_event, in_monitor := some_input,
     in_device := fst (device_system_monitor_get_device (Some demo_disc) quiet_io)\<rparr>"

definition disc_end :: "unit main_state" where
  "disc_end = snd (main_loop demo_os initial_config demo_parser [disc_pass]
     (snd (start_daemon demo_os (fst (udev_enumeration demo_entries quiet_io)) ResultFail quiet_io demo_kernel)))"

lemma demo_enumeration:
  "udev_enumeration demo_entries quiet_io = ([device_system_fill_device demo_drive ''/dev/sr0''], ResultFail, quiet_io)"
  by (simp add: udev_enumeration.simps demo_entries_def demo_drive_def udev_info_def quiet_io_def malloc_def)

text \<open>The condition on the types is needed: a drive that is reported as a disk keeps its type in the
  tree and gets the disk's state, so the line for it is one that clients refuse.\<close>

lemma changed_type_breaks_listing:
  "\<not> list_all (\<lambda>n. check_removable_device (node_command n)) (nodes None (removable_media_root (snd (snd
     (device_event device_action_change
       (device_system_fill_device (demo_drive\<lparr>ud_property := (\<lambda>_. None)\<rparr>) ''/dev/sr0'')
       (snd (snd (device_event device_action_add (device_system_fill_device demo_drive ''/dev/sr0'') empty_daemon))))))))"
  by code_simp

end
