(* ===== verification/Dtmd_Sysfs.thy ===== *)
theory Dtmd_Sysfs
  imports Dtmd_Daemon
begin

text \<open>
  The Linux part of \<^verbatim>\<open>daemon/modules/unix-userspace/system_module.c\<close>, first half: the devices the
  module finds in \<^verbatim>\<open>/sys\<close> at the start.  The file system and what libblkid tells of a device are
  a parameter; they do not change while the module looks at them.  Directory handles and log
  messages are not modelled.
\<close>

section \<open>The file system\<close>

text \<open>\<open>fs_file\<close>: the contents of a file that can be opened, as far as it can be read: the code takes an
  error of \<open>read\<close> for the end of the file, so a file that cannot be read further ends there.
  \<open>fs_reads\<close>: how many bytes, less one, the successive calls of \<open>read\<close> on it return at most.  \<open>fs_readdir\<close>: the entries of a directory
  that can be opened.  \<open>fs_blkid\<close>: type and label, when a probe can be made; \<open>fs_partitions\<close>: the
  numbers of the partitions likewise.\<close>

record sysfs =
  fs_file :: "string \<Rightarrow> string option"
  fs_reads :: "string \<Rightarrow> nat list"
  fs_exists :: "string \<Rightarrow> bool"
  fs_is_dir :: "string \<Rightarrow> bool"
  fs_readdir :: "string \<Rightarrow> string list option"
  fs_realpath :: "string \<Rightarrow> string option"
  fs_lstat :: "string \<Rightarrow> bool"
  fs_readlink :: "string \<Rightarrow> string option"
  fs_blkid :: "string \<Rightarrow> (string option \<times> string option) option"
  fs_partitions :: "string \<Rightarrow> nat list option"

definition file_read_buffer :: nat where "file_read_buffer = 4096"

section \<open>Reading attributes\<close>

text \<open>The digits of a file; \<open>None\<close> when the value does not fit an \<open>int\<close>.\<close>

definition is_digit :: "char \<Rightarrow> bool" where
  "is_digit c \<longleftrightarrow> CHR ''0'' \<le> c \<and> c \<le> CHR ''9''"

fun read_number :: "string \<Rightarrow> int \<Rightarrow> bool \<Rightarrow> int option" where
  "read_number [] n not_first = Some n"
| "read_number (c # cs) n not_first =
     (if \<not> is_digit c then Some (if not_first then n else -1)
      else let n' = n * 10 + (of_char c - 48) in
        if n' \<ge> 2 ^ 31 then None else read_number cs n' True)"

definition read_int_from_file :: "sysfs \<Rightarrow> string \<Rightarrow> io \<Rightarrow> int \<times> io" where
  "read_int_from_file fs filename w = (case fs_file fs filename of
     None \<Rightarrow> (-1, w)
   | Some s \<Rightarrow> (case read_number s 0 False of None \<Rightarrow> (-1, undefined_behaviour w) | Some n \<Rightarrow> (n, w)))"

definition is_print :: "char \<Rightarrow> bool" where
  "is_print c \<longleftrightarrow> (32 :: nat) \<le> of_char c \<and> of_char c < (127 :: nat)"

text \<open>The buffer is reallocated for each byte.\<close>

definition read_string_from_file :: "sysfs \<Rightarrow> string \<Rightarrow> io \<Rightarrow> result \<times> string \<times> io" where
  "read_string_from_file fs filename w = (case fs_file fs filename of
     None \<Rightarrow> (ResultFail, [], w)
   | Some s \<Rightarrow>
       let t = takeWhile is_print s in
       case malloc_all (True # replicate (length t) True) w of (ok, w1) \<Rightarrow>
         if ok then (ResultSuccess, t, w1) else (ResultFatalError, [], w1))"

definition device_subtype_from_string :: "string \<Rightarrow> media_subtype" where
  "device_subtype_from_string s =
     (if strcmp s ''0'' = 0 then media_subtype_removable_disk
      else if strcmp s ''SD'' = 0 then media_subtype_sd_card
      else if strcmp s ''5'' = 0 then media_subtype_cdrom
      else media_subtype_unknown_or_persistent)"

definition helper_blkid_read_data_from_partition ::
  "sysfs \<Rightarrow> string \<Rightarrow> io \<Rightarrow> result \<times> string option \<times> string option \<times> io" where
  "helper_blkid_read_data_from_partition fs name w = (case fs_blkid fs name of
     None \<Rightarrow> (ResultFail, None, None, w)
   | Some (fstype, label) \<Rightarrow> (case malloc_all [fstype \<noteq> None, label \<noteq> None] w of (ok, w1) \<Rightarrow>
       if ok then (ResultSuccess, fstype, label, w1) else (ResultFatalError, None, None, w1)))"

section \<open>Looking for a line\<close>

text \<open>The lines in the buffer: found, or what remains and whether it starts a line.\<close>

function check_buffer :: "string \<Rightarrow> string \<Rightarrow> bool \<Rightarrow> bool \<times> string \<times> bool" where
  "check_buffer line b line_start =
     (if \<not> has_command b then (False, b, line_start)
      else let got = takeWhile (\<lambda>c. c \<noteq> newline) b in
        if line_start \<and> length got = length line \<and> strncmp_eq got line (length line) then (True, b, line_start)
        else check_buffer line (after_command b) True)"
  by pat_completeness auto
termination
  by (relation "measure (\<lambda>(line, b, s). length b)") (auto simp: after_command_shorter)

declare check_buffer.simps [simp del]

text \<open>One call of \<open>read\<close>: the bytes, and what is left of the calls and of the file.\<close>

definition read_chunk :: "nat \<Rightarrow> nat list \<Rightarrow> string \<Rightarrow> string \<times> nat list \<times> string" where
  "read_chunk room ns s = (let n = (case ns of [] \<Rightarrow> room | m # _ \<Rightarrow> min (Suc m) room) in
     (take n s, (case ns of [] \<Rightarrow> [] | _ # ms \<Rightarrow> ms), drop n s))"

text \<open>A buffer that is full is dropped, and the line it holds with it.\<close>

function file_check_lines :: "string \<Rightarrow> nat list \<Rightarrow> string \<Rightarrow> string \<Rightarrow> bool \<Rightarrow> result" where
  "file_check_lines line ns s b line_start =
     (case read_chunk (file_read_buffer - length b) ns s of (got, ns', s') \<Rightarrow>
        if got = [] then ResultFail
        else case check_buffer line (b @ got) line_start of (found, b', line_start') \<Rightarrow>
          if found then ResultSuccess
          else if length b' = file_read_buffer then file_check_lines line ns' s' [] False
          else file_check_lines line ns' s' b' line_start')"
  by pat_completeness auto
termination
  by (relation "measure (\<lambda>(line, ns, s, b, l). length s)") (auto simp: read_chunk_def Let_def split: if_splits)

declare file_check_lines.simps [simp del]

definition file_check_line :: "sysfs \<Rightarrow> string \<Rightarrow> string \<Rightarrow> result" where
  "file_check_line fs path line = (case fs_file fs path of
     None \<Rightarrow> ResultFail | Some s \<Rightarrow> file_check_lines line (fs_reads fs path) s [] True)"

section \<open>The USB device a device belongs to\<close>

text \<open>\<^verbatim>\<open>file_name\<close> ends with a slash.  A negative result of \<open>readlink\<close> is compared with an unsigned
  length, so it passes the comparison and the bytes before the buffer are read.\<close>

definition usb_link :: "sysfs \<Rightarrow> string \<Rightarrow> io \<Rightarrow> bool \<times> io" where
  "usb_link fs file_name w =
     (if \<not> fs_lstat fs (file_name @ ''subsystem'') then (False, w)
      else case fs_readlink fs (file_name @ ''subsystem'') of
        None \<Rightarrow> (False, undefined_behaviour w)
      | Some l \<Rightarrow> (let l' = take path_max l in
          length l' > length ''/usb'' \<and> strncmp_eq (drop (length l' - length ''/usb'') l') ''/usb'' (length ''/usb''), w))"

text \<open>The directory above, with its slash.\<close>

definition upper_directory :: "string \<Rightarrow> string option" where
  "upper_directory file_name =
     map_option (\<lambda>t. take (length (butlast file_name) - length t + 1) (butlast file_name))
       (strrchr (butlast file_name) CHR ''/'')"

lemma upper_directory_shorter: "upper_directory s = Some t \<Longrightarrow> s \<noteq> [] \<Longrightarrow> length t < length s"
  by (cases s rule: rev_cases) (auto simp: upper_directory_def)

function usb_parent :: "sysfs \<Rightarrow> string \<Rightarrow> io \<Rightarrow> string option \<times> io" where
  "usb_parent fs file_name w =
     (if \<not> (length file_name > length ''/sys/'' \<and> strncmp_eq file_name ''/sys/'' (length ''/sys/'')) then (None, w)
      else case usb_link fs file_name w of (usb, w1) \<Rightarrow>
        if usb \<and> file_check_line fs (file_name @ ''uevent'') ''DEVTYPE=usb_device'' = ResultSuccess
        then (case malloc w1 of (ok, w2) \<Rightarrow> (if ok then Some (butlast file_name) else None, w2))
        else case upper_directory file_name of
          None \<Rightarrow> (None, w1) | Some f \<Rightarrow> usb_parent fs f w1)"
  by pat_completeness auto
termination
  by (relation "measure (\<lambda>(fs, f, w). length f)") (auto dest: upper_directory_shorter)

declare usb_parent.simps [simp del]

definition helper_get_usb_parent_syspath :: "sysfs \<Rightarrow> string \<Rightarrow> io \<Rightarrow> string option \<times> io" where
  "helper_get_usb_parent_syspath fs path w = (case fs_realpath fs path of
     None \<Rightarrow> (None, w)
   | Some f \<Rightarrow>
       if f = [] then (None, undefined_behaviour w)
       else if last f \<noteq> CHR ''/'' \<and> length f + 1 > path_max then (None, w)
       else let f' = (if last f \<noteq> CHR ''/'' then f @ ''/'' else f) in
         if length f' + length ''subsystem'' > path_max then (None, w) else usb_parent fs f' w)"

section \<open>One device\<close>

datatype read_device = FoundDevice dtmd_info | FoundStateful dtmd_info | NotFound result

definition found_device ::
  "string \<Rightarrow> media_subtype \<Rightarrow> string option \<Rightarrow> media_type \<Rightarrow> string option \<Rightarrow> string option \<Rightarrow> media_state \<Rightarrow> dtmd_info" where
  "found_device path subtype sysfs_path t fstype label state =
     \<lparr>in_path_parent = Some dtmd_root_device_path, in_path = Some path, in_media_type = t,
      in_media_subtype = subtype, in_sysfs_path = sysfs_path, in_fstype = fstype, in_label = label, in_state = state\<rparr>"

definition disc_state :: "result \<Rightarrow> string option \<Rightarrow> media_state" where
  "disc_state r fstype = (if r = ResultFail then media_state_empty
     else if fstype = None then media_state_clear else media_state_ok)"

text \<open>\<open>name\<close> is the directory of the device, with its slash.\<close>

definition helper_read_device ::
  "sysfs \<Rightarrow> string \<Rightarrow> string \<Rightarrow> bool \<Rightarrow> io \<Rightarrow> read_device \<times> io" where
  "helper_read_device fs name device_name check_removable w =
     (if \<not> fs_exists fs (name @ ''dev'') then (NotFound ResultFail, w)
      else case (if check_removable then read_int_from_file fs (name @ ''removable'') w else (1, w)) of (n, w1) \<Rightarrow>
        if n \<noteq> 1 then (NotFound ResultFail, w1)
        else case read_string_from_file fs (name @ ''device/type'') w1 of (r, t, w2) \<Rightarrow>
          if is_result_failure r then (NotFound r, w2)
          else let subtype = device_subtype_from_string t; path = ''/dev/'' @ device_name in
            if subtype = media_subtype_unknown_or_persistent then (NotFound ResultFail, w2)
            else case malloc_all [True, True, True] w2 of (ok, w3) \<Rightarrow>
              if \<not> ok then (NotFound ResultFatalError, w3)
              else if subtype = media_subtype_cdrom
              then (case helper_blkid_read_data_from_partition fs path w3 of (r2, fstype, label, w4) \<Rightarrow>
                (if r2 = ResultFatalError then NotFound ResultFatalError
                 else FoundStateful (found_device path subtype None media_type_stateful_device fstype label
                        (disc_state r2 fstype)), w4))
              else (case helper_get_usb_parent_syspath fs name w3 of (sysfs_path, w4) \<Rightarrow>
                (FoundDevice (found_device path subtype sysfs_path media_type_stateless_device None None
                   media_state_unknown), w4)))"

section \<open>The enumeration\<close>

text \<open>The devices found so far, in order.\<close>

type_synonym enumeration = "dtmd_info list \<times> io"

definition enumeration_add_device :: "dtmd_info \<Rightarrow> enumeration \<Rightarrow> result \<times> enumeration" where
  "enumeration_add_device device e = (case e of (found, w) \<Rightarrow>
     if list_ex (\<lambda>i. strcmp (the (in_path i)) (the (in_path device)) = 0) found then (ResultFail, e)
     else case malloc w of (ok, w1) \<Rightarrow>
       if ok then (ResultSuccess, found @ [device], w1) else (ResultFatalError, found, w1))"

definition partition_path :: "string \<Rightarrow> nat \<Rightarrow> string" where
  "partition_path device_name index = ''/dev/'' @ device_name @ decimal index"

definition found_partition :: "dtmd_info \<Rightarrow> string \<Rightarrow> string option \<Rightarrow> string option \<Rightarrow> dtmd_info" where
  "found_partition device path fstype label =
     \<lparr>in_path_parent = in_path device, in_path = Some path, in_media_type = media_type_device_partition,
      in_media_subtype = in_media_subtype device, in_sysfs_path = None, in_fstype = fstype, in_label = label,
      in_state = media_state_unknown\<rparr>"

fun read_partitions :: "sysfs \<Rightarrow> dtmd_info \<Rightarrow> string \<Rightarrow> nat list \<Rightarrow> enumeration \<Rightarrow> result \<times> enumeration" where
  "read_partitions fs device device_name [] e = (ResultSuccess, e)"
| "read_partitions fs device device_name (index # is) (found, w) =
     (let path = partition_path device_name index in
      case malloc w of (ok, w1) \<Rightarrow>
        if \<not> ok then (ResultFatalError, found, w1)
        else if \<not> fs_exists fs path then (ResultFail, found, w1)
        else case malloc_all [True, True] w1 of (ok2, w2) \<Rightarrow>
          if \<not> ok2 then (ResultFatalError, found, w2)
          else case helper_blkid_read_data_from_partition fs path w2 of (r, fstype, label, w3) \<Rightarrow>
            if is_result_fatal_error r then (r, found, w3)
            else case enumeration_add_device (found_partition device path fstype label) (found, w3) of (r2, e2) \<Rightarrow>
              if is_result_fatal_error r2 then (r2, e2) else read_partitions fs device device_name is e2)"

definition helper_read_device_partitions ::
  "sysfs \<Rightarrow> dtmd_info \<Rightarrow> string \<Rightarrow> enumeration \<Rightarrow> result \<times> enumeration" where
  "helper_read_device_partitions fs device device_name e = (case fs_partitions fs (the (in_path device)) of
     None \<Rightarrow> (ResultFail, e) | Some is \<Rightarrow> read_partitions fs device device_name is e)"

text \<open>A directory of a device that was found: \<open>Some r\<close> when the enumeration stops.\<close>

definition stops :: "result \<Rightarrow> result option" where
  "stops r = (if r = ResultSuccess \<or> r = ResultFail then None else Some r)"

definition enumerate_device ::
  "sysfs \<Rightarrow> bool \<Rightarrow> string \<Rightarrow> string \<Rightarrow> enumeration \<Rightarrow> result option \<times> enumeration" where
  "enumerate_device fs check_removable file_name d e = (case e of (found, w) \<Rightarrow>
     case helper_read_device fs (file_name @ ''/'') d check_removable w of
       (FoundDevice i, w1) \<Rightarrow> (case enumeration_add_device i (found, w1) of (r, e1) \<Rightarrow>
          if r = ResultSuccess
          then (case helper_read_device_partitions fs i d e1 of (r2, e2) \<Rightarrow> (stops r2, e2))
          else (stops r, e1))
     | (FoundStateful i, w1) \<Rightarrow> (case enumeration_add_device i (found, w1) of (r, e1) \<Rightarrow> (stops r, e1))
     | (NotFound r, w1) \<Rightarrow> (stops r, found, w1))"

text \<open>Going through a directory: dot and dot-dot are skipped.\<close>

fun each_entry :: "(string \<Rightarrow> 's \<Rightarrow> result option \<times> 's) \<Rightarrow> string list \<Rightarrow> 's \<Rightarrow> result option \<times> 's" where
  "each_entry f [] s = (None, s)"
| "each_entry f (d # ds) s =
     (if strcmp d ''.'' = 0 \<or> strcmp d ''..'' = 0 then each_entry f ds s
      else case f d s of (None, s1) \<Rightarrow> each_entry f ds s1 | (Some r, s1) \<Rightarrow> (Some r, s1))"

definition in_directory ::
  "sysfs \<Rightarrow> string \<Rightarrow> (string \<Rightarrow> 's \<Rightarrow> result option \<times> 's) \<Rightarrow> 's \<Rightarrow> result option \<times> 's" where
  "in_directory fs dir f s = (case fs_readdir fs dir of None \<Rightarrow> (None, s) | Some ds \<Rightarrow> each_entry f ds s)"

text \<open>\<open>f\<close> for a directory whose name, with that of a file in it, fits the buffer.\<close>

definition len_ext :: nat where "len_ext = length ''device/type''"

definition for_directory ::
  "sysfs \<Rightarrow> nat \<Rightarrow> string \<Rightarrow> ('s \<Rightarrow> result option \<times> 's) \<Rightarrow> 's \<Rightarrow> result option \<times> 's" where
  "for_directory fs len file_name f s =
     (if len + len_ext > path_max \<or> \<not> fs_is_dir fs file_name then (None, s) else f s)"

definition block_devices_dir :: string where "block_devices_dir = ''/sys/class/block''"

definition block_mmc_devices_dir :: string where "block_mmc_devices_dir = ''/sys/bus/mmc/devices''"

definition block_usb_devices_dir :: string where "block_usb_devices_dir = ''/sys/bus/usb/devices''"

definition enumerate_block :: "sysfs \<Rightarrow> enumeration \<Rightarrow> result option \<times> enumeration" where
  "enumerate_block fs = in_directory fs block_devices_dir (\<lambda>d.
     let f = block_devices_dir @ ''/'' @ d in
     for_directory fs (length d + 2 + length block_devices_dir) f (enumerate_device fs True f d))"

definition enumerate_mmc :: "sysfs \<Rightarrow> enumeration \<Rightarrow> result option \<times> enumeration" where
  "enumerate_mmc fs = in_directory fs block_mmc_devices_dir (\<lambda>m.
     let f = block_mmc_devices_dir @ ''/'' @ m @ ''/block'' in
     for_directory fs (length ''block'' + length m + 3 + length block_mmc_devices_dir) f
       (in_directory fs f (\<lambda>d. let g = f @ ''/'' @ d in
          for_directory fs (length d + length ''block'' + length m + 5 + length block_mmc_devices_dir) g
            (enumerate_device fs False g d))))"

text \<open>The five levels below a USB device.\<close>

definition enumerate_usb_target ::
  "sysfs \<Rightarrow> nat \<Rightarrow> string \<Rightarrow> enumeration \<Rightarrow> result option \<times> enumeration" where
  "enumerate_usb_target fs len target_dir = in_directory fs target_dir (\<lambda>t.
     let f = target_dir @ ''/'' @ t @ ''/block'' in
     for_directory fs (length ''block'' + length t + len + 6) f
       (in_directory fs f (\<lambda>d. let g = f @ ''/'' @ d in
          for_directory fs (length d + length ''block'' + length t + len + 8) g
            (enumerate_device fs False g d))))"

definition enumerate_usb :: "sysfs \<Rightarrow> enumeration \<Rightarrow> result option \<times> enumeration" where
  "enumerate_usb fs = in_directory fs block_usb_devices_dir (\<lambda>u.
     let base = length block_usb_devices_dir; f = block_usb_devices_dir @ ''/'' @ u in
     for_directory fs (length u + 2 + base) f (in_directory fs f (\<lambda>v.
       if \<not> strncmp_eq v ''host'' (length ''host'') then Pair None
       else let g = f @ ''/'' @ v in
       for_directory fs (length v + length u + 3 + base) g (in_directory fs g (\<lambda>x.
         if \<not> strncmp_eq x ''target'' (length ''target'') then Pair None
         else let h = g @ ''/'' @ x in
         for_directory fs (length x + length v + length u + 4 + base) h
           (enumerate_usb_target fs (length x + length v + length u + base) h))))))"

definition next_directory ::
  "('s \<Rightarrow> result option \<times> 's) \<Rightarrow> result option \<times> 's \<Rightarrow> result option \<times> 's" where
  "next_directory f r = (case r of (None, s) \<Rightarrow> f s | (Some x, s) \<Rightarrow> (Some x, s))"

definition device_system_run_device_enumeration :: "sysfs \<Rightarrow> enumeration \<Rightarrow> result \<times> enumeration" where
  "device_system_run_device_enumeration fs e =
     (case next_directory (enumerate_mmc fs) (next_directory (enumerate_usb fs) (enumerate_block fs e)) of
        (None, e1) \<Rightarrow> (ResultSuccess, e1) | (Some r, e1) \<Rightarrow> (r, e1))"

text \<open>When the enumeration fails it is unlinked from a list it was never put in, through a pointer
  that was never set.\<close>

definition device_system_enumerate_devices_unix :: "sysfs \<Rightarrow> io \<Rightarrow> dtmd_info list option \<times> io" where
  "device_system_enumerate_devices_unix fs w = (case malloc w of (ok, w1) \<Rightarrow>
     if \<not> ok then (None, w1)
     else case device_system_run_device_enumeration fs ([], w1) of (r, found, w2) \<Rightarrow>
       if is_result_failure r then (None, undefined_behaviour w2) else (Some found, w2))"

text \<open>The daemon takes the devices one by one until there is none left; \<open>current\<close> is the rest of the list.\<close>

fun unix_next_enumerated_device :: "dtmd_info list \<Rightarrow> result \<times> dtmd_info option \<times> dtmd_info list" where
  "unix_next_enumerated_device [] = (ResultFail, None, [])"
| "unix_next_enumerated_device (i # current) = (ResultSuccess, Some i, current)"

lemma unix_next_shorter: "unix_next_enumerated_device is = (ResultSuccess, i, js) \<Longrightarrow> length js < length is"
  by (cases "is") auto

function unix_enumeration :: "dtmd_info list \<Rightarrow> dtmd_info list \<times> result" where
  "unix_enumeration is = (case unix_next_enumerated_device is of (rc, i, js) \<Rightarrow>
     if rc = ResultSuccess then (case unix_enumeration js of (ks, r) \<Rightarrow> (the i # ks, r)) else ([], rc))"
  by pat_completeness auto
termination
  by (relation "measure length") (auto dest: unix_next_shorter [OF sym])

declare unix_enumeration.simps [simp del]

end
