(* ===== verification/Dtmd_Sysfs_Spec.thy ===== *)
theory Dtmd_Sysfs_Spec
  imports Dtmd_Source Dtmd_Sysfs
begin

text \<open>
  The enumeration in \<^verbatim>\<open>/sys\<close>: looking for a line does not depend on how the file is read, every device
  is found once and after its parent, and all of them are in the daemon's tree after the start.
\<close>

section \<open>Lines\<close>

text \<open>The reference: the lines of a text that are ended by a newline.\<close>

function complete_lines :: "string \<Rightarrow> string list" where
  "complete_lines s = (if newline \<in> set s then takeWhile (\<lambda>c. c \<noteq> newline) s # complete_lines (after_command s) else [])"
  by pat_completeness auto
termination
proof (relation "measure length")
  fix s :: string assume "newline \<in> set s"
  then have "dropWhile (\<lambda>c. c \<noteq> newline) s \<noteq> []" by (auto simp: dropWhile_eq_Nil_conv)
  then show "(after_command s, s) \<in> measure length"
    using length_dropWhile_le [of "\<lambda>c. c \<noteq> newline" s] unfolding after_command_def
    by (cases "dropWhile (\<lambda>c. c \<noteq> newline) s") auto
qed simp

declare complete_lines.simps [simp del]

text \<open>Whether a text that need not start at the beginning of a line has the line.\<close>

definition has_line :: "string \<Rightarrow> bool \<Rightarrow> string \<Rightarrow> bool" where
  "has_line line line_start s \<longleftrightarrow> line \<in> set (if line_start then complete_lines s else tl (complete_lines s))"

lemma complete_lines_cons: "newline \<notin> set x \<Longrightarrow> complete_lines (x @ newline # y) = x # complete_lines y"
  by (subst complete_lines.simps) (simp add: after_line takeWhile_append)

lemma complete_lines_none [simp]: "newline \<notin> set x \<Longrightarrow> complete_lines x = []"
  by (subst complete_lines.simps) simp

lemma has_line_skip:
  "newline \<notin> set x \<Longrightarrow> x \<noteq> line \<or> \<not> line_start \<Longrightarrow> has_line line line_start (x @ newline # y) = has_line line True y"
  by (auto simp: has_line_def complete_lines_cons)

text \<open>A line without a newline in it is not affected by dropping the start of a longer one.\<close>

lemma has_line_drop:
  assumes "newline \<notin> set b" and "length line < length b"
  shows "has_line line line_start (b @ s) = has_line line False s"
proof (cases "newline \<in> set s")
  case True
  then obtain x y where "s = x @ newline # y" "newline \<notin> set x" using split_list_first by metis
  then show ?thesis
    using assms complete_lines_cons [of "b @ x" y] by (auto simp: has_line_def complete_lines_cons)
qed (use assms in \<open>simp add: has_line_def\<close>)

lemma check_buffer_spec:
  assumes "check_buffer line b line_start = (found, b', line_start')" and "no_nul b" and "no_nul s"
  shows "if found then has_line line line_start (b @ s)
    else newline \<notin> set b' \<and> no_nul b' \<and> length b' \<le> length b \<and>
      has_line line line_start (b @ s) = has_line line line_start' (b' @ s)"
  using assms(1,2)
proof (induction line b line_start rule: check_buffer.induct)
  case (1 line b line_start)
  show ?case
  proof (cases "has_command b")
    case True
    obtain x y where b: "b = x @ newline # y" "newline \<notin> set x" "after_command b = y"
      by (rule first_line [OF True "1.prems"(2)])
    have t: "takeWhile (\<lambda>c. c \<noteq> newline) b = x" using b by (simp add: takeWhile_append)
    have y: "no_nul y" using no_nul_after [OF "1.prems"(2)] b(3) by simp
    show ?thesis
    proof (cases "line_start \<and> x = line")
      case hit: True
      then have "found" using "1.prems"(1) True t by (subst (asm) check_buffer.simps) (auto simp: strncmp_eq_def)
      with hit b show ?thesis by (simp add: has_line_def complete_lines_cons)
    next
      case miss: False
      then have c: "check_buffer line y True = (found, b', line_start')"
        using "1.prems"(1) True t b(3) by (subst (asm) check_buffer.simps) (auto simp: strncmp_eq_def split: if_splits)
      have "has_line line line_start (b @ s) = has_line line True (y @ s)"
        using has_line_skip [OF b(2), of line line_start "y @ s"] miss by (auto simp: b(1))
      moreover have "if found then has_line line True (y @ s)
          else newline \<notin> set b' \<and> no_nul b' \<and> length b' \<le> length y \<and>
            has_line line True (y @ s) = has_line line line_start' (b' @ s)"
        using "1.IH" [OF _ t [symmetric]] True miss c y b(3) by (auto simp: strncmp_eq_def)
      ultimately show ?thesis by (auto simp: b(1) split: if_splits)
    qed
  next
    case False
    then show ?thesis using "1.prems" by (subst (asm) check_buffer.simps) (auto simp: has_command_def c_str_no_nul)
  qed
qed

lemma file_check_lines_spec:
  assumes "no_nul b" and "no_nul s" and "newline \<notin> set b" and "length b < file_read_buffer"
    and "length line < file_read_buffer"
  shows "file_check_lines line ns s b line_start = (if has_line line line_start (b @ s) then ResultSuccess else ResultFail)"
  using assms
proof (induction line ns s b line_start rule: file_check_lines.induct)
  case (1 line ns s b line_start)
  let ?room = "file_read_buffer - length b"
  obtain got ns' s' where r: "read_chunk ?room ns s = (got, ns', s')" by (metis prod_cases3)
  have s: "s = got @ s'" "length got \<le> ?room"
    using r by (auto simp: read_chunk_def Let_def split: list.splits)
  show ?case
  proof (cases "got = []")
    case True
    then have "s = []" using r "1.prems"(4) by (auto simp: read_chunk_def Let_def split: list.splits)
    with True r "1.prems"(3) show ?thesis by (subst file_check_lines.simps) (auto simp: has_line_def)
  next
    case False
    obtain found b' line_start' where c: "check_buffer line (b @ got) line_start = (found, b', line_start')"
      by (metis prod_cases3)
    have nul: "no_nul (b @ got)" "no_nul s'" using "1.prems"(1,2) s by (auto simp: no_nul_def)
    note spec = check_buffer_spec [OF c nul]
    show ?thesis
    proof (cases found)
      case True
      with r False c spec s show ?thesis by (subst file_check_lines.simps) simp
    next
      case not_found: False
      with spec have b': "newline \<notin> set b'" "no_nul b'" "length b' \<le> length (b @ got)"
        "has_line line line_start (b @ s) = has_line line line_start' (b' @ s')" by (simp_all add: s(1))
      have len: "length b' \<le> file_read_buffer" using b'(3) s(2) "1.prems"(4) by simp
      show ?thesis
      proof (cases "length b' = file_read_buffer")
        case True
        have "file_check_lines line ns' s' [] False =
            (if has_line line False ([] @ s') then ResultSuccess else ResultFail)"
          using "1.IH"(1) [OF r [symmetric] refl False c [symmetric] refl not_found True] nul "1.prems"(5)
          by (simp add: no_nul_def file_read_buffer_def)
        moreover have "has_line line line_start' (b' @ s') = has_line line False s'"
          using has_line_drop b'(1) True "1.prems"(5) by simp
        ultimately show ?thesis using r False c not_found True b'(4) by (subst file_check_lines.simps) simp
      next
        case rest: False
        have "file_check_lines line ns' s' b' line_start' =
            (if has_line line line_start' (b' @ s') then ResultSuccess else ResultFail)"
          using "1.IH"(2) [OF r [symmetric] refl False c [symmetric] refl not_found rest] nul b' len rest "1.prems"(5)
          by simp
        then show ?thesis using r False c not_found rest b'(4) by (subst file_check_lines.simps) simp
      qed
    qed
  qed
qed

text \<open>C20. However many bytes each read returns, \<open>file_check_line\<close> finds a line of fewer than 4096 bytes
  exactly when it is one of the complete lines of the file: neither at the border of two reads nor
  behind a line that is longer than the buffer is one missed or made up.\<close>

theorem file_check_line_complete:
  assumes "fs_file fs path = Some s" and "no_nul s" and "length line < file_read_buffer"
  shows "file_check_line fs path line = (if line \<in> set (complete_lines s) then ResultSuccess else ResultFail)"
  using file_check_lines_spec [of "[]" s line "fs_reads fs path" True] assms
  by (simp add: file_check_line_def has_line_def no_nul_def file_read_buffer_def)

section \<open>What the enumeration finds\<close>

text \<open>A device that may follow those with the paths \<open>ps\<close>: described, new, and below the root or a device
  that was found before.\<close>

definition found_ok :: "string option set \<Rightarrow> dtmd_info \<Rightarrow> bool" where
  "found_ok ps i \<longleftrightarrow> event_complete i \<and> in_path i \<notin> ps \<and>
     (in_media_type i = media_type_stateful_device \<longrightarrow> in_state i \<noteq> media_state_unknown) \<and>
     (if in_media_type i = media_type_device_partition then in_path_parent i \<in> ps
      else in_path_parent i = Some dtmd_root_device_path)"

fun listing_ok :: "string option set \<Rightarrow> dtmd_info list \<Rightarrow> bool" where
  "listing_ok ps [] = True"
| "listing_ok ps (i # is) \<longleftrightarrow> found_ok ps i \<and> listing_ok (insert (in_path i) ps) is"

lemma listing_ok_snoc:
  "listing_ok ps (is @ [i]) \<longleftrightarrow> listing_ok ps is \<and> found_ok (ps \<union> in_path ` set is) i"
  by (induction "is" arbitrary: ps) (auto simp: insert_commute Un_commute)

lemma listing_ok_complete: "listing_ok ps is \<Longrightarrow> i \<in> set is \<Longrightarrow> event_complete i"
  by (induction "is" arbitrary: ps) (auto simp: found_ok_def)

abbreviation enumeration_ok :: "enumeration \<Rightarrow> bool" where
  "enumeration_ok e \<equiv> listing_ok {} (fst e)"

lemma enumeration_add_ok:
  assumes "enumeration_add_device i e = (r, e')" and "enumeration_ok e"
    and "in_path i \<notin> in_path ` set (fst e) \<Longrightarrow> found_ok (in_path ` set (fst e)) i"
  shows "enumeration_ok e'" and "in_path ` set (fst e) \<subseteq> in_path ` set (fst e')"
    and "r = ResultSuccess \<Longrightarrow> in_path i \<in> in_path ` set (fst e')"
proof -
  have "enumeration_ok e' \<and> in_path ` set (fst e) \<subseteq> in_path ` set (fst e') \<and>
      (r = ResultSuccess \<longrightarrow> in_path i \<in> in_path ` set (fst e'))"
  proof (cases "in_path i \<in> in_path ` set (fst e)")
    case True
    then have "list_ex (\<lambda>j. strcmp (the (in_path j)) (the (in_path i)) = 0) (fst e)" by (auto simp: list_ex_iff)
    with assms(1,2) show ?thesis by (auto simp: enumeration_add_device_def split: prod.splits)
  next
    case False
    with assms show ?thesis
      by (auto simp: enumeration_add_device_def listing_ok_snoc split: prod.splits if_splits)
  qed
  then show "enumeration_ok e'" "in_path ` set (fst e) \<subseteq> in_path ` set (fst e')"
    "r = ResultSuccess \<Longrightarrow> in_path i \<in> in_path ` set (fst e')" by simp_all
qed

lemma found_partition_ok:
  "in_path device \<in> ps \<Longrightarrow> event_complete device \<Longrightarrow> Some path \<notin> ps \<Longrightarrow> found_ok ps (found_partition device path fstype label)"
  by (auto simp: found_ok_def found_partition_def event_complete_def)

lemma read_partitions_ok:
  assumes "read_partitions fs device name is e = (r, e')" and "enumeration_ok e"
    and "in_path device \<in> in_path ` set (fst e)" and "event_complete device"
  shows "enumeration_ok e'"
  using assms(1-3)
proof (induction "is" arbitrary: e)
  case (Cons index "is")
  let ?p = "found_partition device (partition_path name index)" and ?path = "partition_path name index"
  obtain found w where e: "e = (found, w)" by (cases e)
  obtain ok w1 where m: "malloc w = (ok, w1)" by (cases "malloc w")
  obtain ok2 w2 where m2: "malloc_all [True, True] w1 = (ok2, w2)" by (cases "malloc_all [True, True] w1")
  obtain r1 f1 l1 w3 where b: "helper_blkid_read_data_from_partition fs ?path w2 = (r1, f1, l1, w3)" by (metis prod_cases4)
  obtain r3 e3 where a: "enumeration_add_device (?p f1 l1) (found, w3) = (r3, e3)"
    by (cases "enumeration_add_device (?p f1 l1) (found, w3)")
  consider "fst e' = fst e"
    | fstype label w r2 e2 where "enumeration_add_device (?p fstype label) (fst e, w) = (r2, e2)"
      "e' = e2 \<or> read_partitions fs device name is e2 = (r, e')"
    using Cons.prems(1) a by (auto simp: e m m2 b Let_def simp del: malloc_all.simps split: if_splits)
  then show ?case
  proof cases
    case 2
    have "found_ok (in_path ` set (fst e)) (?p fstype label)" if "in_path (?p fstype label) \<notin> in_path ` set (fst e)"
      using found_partition_ok [OF Cons.prems(3) assms(4)] that by (simp add: found_partition_def)
    with enumeration_add_ok [OF 2(1)] Cons.prems have "enumeration_ok e2" "in_path device \<in> in_path ` set (fst e2)" by auto
    with 2(2) Cons.IH show ?thesis by blast
  qed (use Cons.prems in simp)
qed simp

lemma read_device_cases:
  assumes "helper_read_device fs name d cr w = (x, w')"
  shows "(\<exists>r. x = NotFound r) \<or>
    (\<exists>subtype s. subtype \<noteq> media_subtype_unknown_or_persistent \<and>
       x = FoundDevice (found_device (''/dev/'' @ d) subtype s media_type_stateless_device None None media_state_unknown)) \<or>
    (\<exists>r f l. x = FoundStateful (found_device (''/dev/'' @ d) media_subtype_cdrom None media_type_stateful_device f l
       (disc_state r f)))"
proof -
  obtain n w1 where n: "(if cr then read_int_from_file fs (name @ ''removable'') w else (1, w)) = (n, w1)" by fastforce
  obtain r t w2 where t: "read_string_from_file fs (name @ ''device/type'') w1 = (r, t, w2)" by (metis prod_cases3)
  obtain ok w3 where m: "malloc_all [True, True, True] w2 = (ok, w3)" by (cases "malloc_all [True, True, True] w2")
  obtain r2 f l w4 where b: "helper_blkid_read_data_from_partition fs (''/dev/'' @ d) w3 = (r2, f, l, w4)" by (metis prod_cases4)
  obtain p w5 where p: "helper_get_usb_parent_syspath fs name w3 = (p, w5)" by fastforce
  show ?thesis
    using assms unfolding helper_read_device_def n t m b p Let_def prod.case by (auto split: if_splits; blast)
qed

lemma disc_state_known: "disc_state r f \<noteq> media_state_unknown"
  by (simp add: disc_state_def)

lemma read_device_ok:
  assumes "helper_read_device fs name d cr w = (x, w')"
  shows "x = FoundDevice i \<Longrightarrow> event_complete i \<and> in_media_type i = media_type_stateless_device \<and>
      in_path_parent i = Some dtmd_root_device_path"
    and "x = FoundStateful i \<Longrightarrow> event_complete i \<and> in_media_type i = media_type_stateful_device \<and>
      in_path_parent i = Some dtmd_root_device_path \<and> in_state i \<noteq> media_state_unknown \<and> in_sysfs_path i = None"
  using read_device_cases [OF assms] by (auto simp: found_device_def event_complete_def disc_state_known)

lemma found_device_ok:
  "helper_read_device fs name d cr w = (FoundDevice i, w') \<or> helper_read_device fs name d cr w = (FoundStateful i, w') \<Longrightarrow>
     in_path i \<notin> ps \<Longrightarrow> found_ok ps i"
  by (auto simp: found_ok_def dest!: read_device_ok [OF _ refl])

lemma enumerate_device_ok:
  assumes "enumerate_device fs cr file_name d e = (r, e')" and "enumeration_ok e"
  shows "enumeration_ok e'"
proof -
  obtain found w where e: "e = (found, w)" by (cases e)
  obtain x w1 where h: "helper_read_device fs (file_name @ ''/'') d cr w = (x, w1)" by fastforce
  show ?thesis
  proof (cases x)
    case (FoundDevice i)
    obtain r1 e1 where a: "enumeration_add_device i (found, w1) = (r1, e1)"
      by (cases "enumeration_add_device i (found, w1)")
    note ok = enumeration_add_ok [OF a]
    have f: "found_ok (in_path ` set (fst (found, w1))) i" if "in_path i \<notin> in_path ` set (fst (found, w1))"
      using found_device_ok [of fs "file_name @ ''/''" d cr w i w1] h FoundDevice that by simp
    have e1: "enumeration_ok e1" "r1 = ResultSuccess \<Longrightarrow> in_path i \<in> in_path ` set (fst e1)"
      using ok f assms(2) e by simp_all
    obtain r2 e2 where p: "helper_read_device_partitions fs i d e1 = (r2, e2)"
      by (cases "helper_read_device_partitions fs i d e1")
    have "e' = e1 \<or> r1 = ResultSuccess \<and> e' = e2"
      using assms(1) e h FoundDevice a p by (auto simp: enumerate_device_def split: if_splits)
    moreover have "r1 = ResultSuccess \<Longrightarrow> enumeration_ok e2"
      using p e1 read_device_ok(1) [OF h FoundDevice] read_partitions_ok
      unfolding helper_read_device_partitions_def by (auto split: option.splits)
    ultimately show ?thesis using e1(1) by blast
  next
    case (FoundStateful i)
    obtain r1 e1 where a: "enumeration_add_device i (found, w1) = (r1, e1)"
      by (cases "enumeration_add_device i (found, w1)")
    have f: "found_ok (in_path ` set (fst (found, w1))) i" if "in_path i \<notin> in_path ` set (fst (found, w1))"
      using found_device_ok [of fs "file_name @ ''/''" d cr w i w1] h FoundStateful that by simp
    show ?thesis
      using assms e h FoundStateful a enumeration_add_ok(1) [OF a _ f] by (auto simp: enumerate_device_def)
  qed (use assms e h in \<open>auto simp: enumerate_device_def\<close>)
qed

text \<open>Going through the directories keeps what every step keeps.\<close>

definition keeps :: "('s \<Rightarrow> bool) \<Rightarrow> ('s \<Rightarrow> 'r \<times> 's) \<Rightarrow> bool" where
  "keeps P f \<longleftrightarrow> (\<forall>s. P s \<longrightarrow> P (snd (f s)))"

lemma keeps_each_entry: "(\<And>d. keeps P (f d)) \<Longrightarrow> keeps P (each_entry f ds)"
proof (induction ds)
  case (Cons d ds)
  show ?case unfolding keeps_def
  proof (intro allI impI)
    fix s assume s: "P s"
    obtain r t where f: "f d s = (r, t)" by (cases "f d s")
    have "P t" using Cons.prems [of d] s f unfolding keeps_def by (metis snd_conv)
    then show "P (snd (each_entry f (d # ds) s))"
      using Cons s f unfolding keeps_def by (auto split: option.split)
  qed
qed (simp add: keeps_def)

lemma keeps_in_directory: "(\<And>d. keeps P (f d)) \<Longrightarrow> keeps P (in_directory fs dir f)"
  using keeps_each_entry [of P f] by (auto simp: keeps_def in_directory_def split: option.split)

lemma keeps_for_directory: "keeps P f \<Longrightarrow> keeps P (for_directory fs len name f)"
  by (auto simp: keeps_def for_directory_def)

lemma keeps_if: "(\<not> b \<Longrightarrow> keeps P f) \<Longrightarrow> keeps P (if b then Pair None else f)"
  by (simp add: keeps_def)

lemma keeps_next: "keeps P f \<Longrightarrow> P (snd x) \<Longrightarrow> P (snd (next_directory f x))"
  by (auto simp: keeps_def next_directory_def split: prod.split option.split)

lemma keeps_device: "keeps enumeration_ok (enumerate_device fs cr file_name d)"
  unfolding keeps_def using enumerate_device_ok by (metis prod.collapse)

lemmas keeps_intros = keeps_device keeps_in_directory keeps_for_directory keeps_if

lemma directories_keep:
  "keeps enumeration_ok (enumerate_block fs)" "keeps enumeration_ok (enumerate_usb fs)"
  "keeps enumeration_ok (enumerate_mmc fs)"
  unfolding enumerate_block_def enumerate_usb_def enumerate_usb_target_def enumerate_mmc_def Let_def
  by (intro keeps_intros)+

lemma enumeration_listing_ok:
  assumes "device_system_enumerate_devices_unix fs w = (Some found, w')"
  shows "listing_ok {} found"
proof -
  obtain ok w1 where m: "malloc w = (ok, w1)" by (cases "malloc w")
  let ?e = "next_directory (enumerate_mmc fs) (next_directory (enumerate_usb fs) (enumerate_block fs ([], w1)))"
  note nxt = keeps_next [where P = enumeration_ok]
  have "enumeration_ok (snd (enumerate_block fs ([], w1)))"
    using directories_keep(1) [of fs] unfolding keeps_def by simp
  from nxt [OF directories_keep(3) nxt [OF directories_keep(2) this]] have "enumeration_ok (snd ?e)" .
  moreover obtain x f w2 where e: "?e = (x, f, w2)" by (metis prod_cases3)
  moreover have "f = found"
    using assms m e by (cases ok; cases x)
      (auto simp: device_system_enumerate_devices_unix_def device_system_run_device_enumeration_def split: if_splits)
  ultimately show ?thesis by simp
qed

lemma listing_ok_distinct: "listing_ok ps is \<Longrightarrow> distinct (map in_path is) \<and> in_path ` set is \<inter> ps = {}"
  by (induction "is" arbitrary: ps) (auto simp: found_ok_def)

section \<open>Into the tree\<close>

text \<open>Where a device is: below which other one, and its path.\<close>

definition place_of :: "node \<Rightarrow> string option \<times> string" where
  "place_of n = (fst n, node_path n)"

definition found_at :: "dtmd_info \<Rightarrow> string option \<times> string" where
  "found_at i = (if in_path_parent i = Some dtmd_root_device_path then None else in_path_parent i, the (in_path i))"

definition places :: "media list \<Rightarrow> (string option \<times> string) list" where
  "places ms = map place_of (nodes None ms)"

lemma places_set_info [simp]: "places (edit_media p (set_info i) ms) = places ms"
proof -
  have "map place_of (nodes par (edit_media p (set_info i) ms)) = map place_of (nodes par ms)" for par
    by (induction p "set_info i" ms arbitrary: par rule: edit_media.induct)
       (auto simp: set_info_def place_of_def)
  then show ?thesis by (simp add: places_def)
qed

lemma places_map_tree [simp]: "places (map_tree f ms) = places ms"
  by (simp add: places_def nodes_map_tree place_of_def case_prod_unfold comp_def node_path_def)

lemma process_entries_places: "process_entries cl es ms w = (True, ms', w') \<Longrightarrow> places ms' = places ms"
proof (induction es arbitrary: ms w)
  case (Cons e es)
  from Cons.prems(1) show ?case by (cases rule: process_entries_cases) (auto dest: Cons.IH)
qed simp

lemma check_mount_changes_places:
  "check_mount_changes mounts d = (ResultSuccess, d') \<Longrightarrow> places (removable_media_root d') = places (removable_media_root d)"
  by (erule check_mount_changes_parts) (simp add: mark_map_tree process_entries_places)

lemma paths_places: "paths None ms = snd ` set (places ms)"
  by (auto simp: paths_def places_def place_of_def image_image)

lemma add_media_places:
  assumes "event_complete i" and "found_ok (Some ` paths None (removable_media_root d)) i"
    and "add_media (event_desc i) (in_sysfs_path i) d = (r, d')" and "\<not> is_result_fatal_error r"
  shows "mset (places (removable_media_root d')) = add_mset (found_at i) (mset (places (removable_media_root d)))"
proof -
  have "d_parent (event_desc i) = ''/'' \<or> dtmd_find_media (d_parent (event_desc i)) (removable_media_root d) \<noteq> None"
    using assms(2) by (auto simp: found_ok_def event_desc_def dtmd_root_device_path_def find_media_None find_at_None
        split: if_splits)
  then have "r \<noteq> ResultFail"
    using assms(3) by (auto simp: add_media_def Let_def dtmd_root_device_path_def split: prod.splits option.splits if_splits)
  then have r: "r = ResultSuccess" using assms(4) by (cases r) auto
  have at: "(if d_parent (event_desc i) = ''/'' then None else Some (d_parent (event_desc i)), d_path (event_desc i)) = found_at i"
    using assms(1) by (auto simp: event_desc_def found_at_def event_complete_def dtmd_root_device_path_def)
  obtain j where "mset (nodes None (removable_media_root d')) =
      add_mset (if d_parent (event_desc i) = ''/'' then None else Some (d_parent (event_desc i)), d_path (event_desc i), j)
        (mset (nodes None (removable_media_root d)))"
    using add_media_added assms(3) unfolding r by blast
  then show ?thesis unfolding places_def mset_map by (simp add: place_of_def at)
qed

lemma enumerate_devices_places:
  "listing_ok (Some ` paths None (removable_media_root d)) is \<Longrightarrow> enumerate_devices is rc d = (True, d') \<Longrightarrow>
   mset (places (removable_media_root d')) = mset (map found_at is) + mset (places (removable_media_root d))"
proof (induction "is" arbitrary: d)
  case (Cons i "is")
  then have i: "event_complete i" "found_ok (Some ` paths None (removable_media_root d)) i" by (auto simp: found_ok_def)
  obtain r d1 where a: "add_media (event_desc i) (in_sysfs_path i) d = (r, d1)" by (cases "add_media (event_desc i) (in_sysfs_path i) d")
  with Cons.prems(2) i(1) have r: "\<not> is_result_fatal_error r" "enumerate_devices is rc d1 = (True, d')"
    by (auto split: if_splits)
  note p = add_media_places [OF i a r(1)]
  have "in_path i = Some (snd (found_at i))" using i(1) by (auto simp: found_at_def event_complete_def)
  then have "Some ` paths None (removable_media_root d1) = insert (in_path i) (Some ` paths None (removable_media_root d))"
    using arg_cong [OF p, of set_mset] by (simp add: paths_places image_image)
  with Cons.IH [OF _ r(2)] Cons.prems(1) p show ?case by simp
qed simp

lemma unix_enumeration_all: "unix_enumeration is = (is, ResultFail)"
  by (induction "is") (subst unix_enumeration.simps, simp)+

text \<open>C5. The devices found at the start are all different, every partition comes after its disk, and
  after a successful start the daemon's tree holds exactly them: each once, below the root or
  below the disk it was found on.\<close>

theorem start_lists_found_devices:
  assumes "device_system_enumerate_devices_unix fs w = (Some found, w')"
    and "unix_enumeration found = (devices, rc)" and "start_daemon os devices rc w' k = (True, s)"
  shows "distinct (map in_path found) \<and>
    mset (places (removable_media_root (dmn s))) = mset (map found_at found) \<and>
    (\<forall>i \<in> set found. event_complete i)"
proof -
  note ok = enumeration_listing_ok [OF assms(1)]
  have start: "start_daemon os found ResultFail w' k = (True, s)"
    using assms(2,3) by (simp add: unix_enumeration_all)
  obtain b d where e: "enumerate_devices found ResultFail (no_devices w') = (b, d)" by fastforce
  obtain r d1 where c: "check_mount_changes (os_mounts os (kstate k)) d = (r, d1)" by fastforce
  from start e c have b: "b" "\<not> is_result_fatal_error r" "removable_media_root (dmn s) = removable_media_root d1"
    by (auto simp: start_daemon_def Let_def split: if_splits prod.splits)
  have "mset (places (removable_media_root d)) = mset (map found_at found)"
    using enumerate_devices_places [of "no_devices w'" found ResultFail d] ok e b(1)
    by (simp add: no_devices_def places_def)
  moreover have "places (removable_media_root d1) = places (removable_media_root d)"
    using check_mount_changes_fails [OF c b(2)] check_mount_changes_places c by blast
  ultimately show ?thesis using listing_ok_distinct [OF ok] listing_ok_complete [OF ok] b(3) by simp
qed

section \<open>Witnesses\<close>

text \<open>A machine with a disk that has one partition and a disc drive on the USB.\<close>

definition demo_sysfs :: sysfs where
  "demo_sysfs = \<lparr>fs_file = (\<lambda>p.
       if p = ''/sys/class/block/sda/removable'' \<or> p = ''/sys/class/block/sr0/removable'' then Some ''1''
       else if p = ''/sys/class/block/sda/device/type'' then Some ''0''
       else if p = ''/sys/class/block/sr0/device/type'' \<or> p = ''/sys/devices/usb1/block/sr0/device/type'' then Some ''5''
       else if p = ''/sys/devices/usb1/uevent'' then Some (''DEVTYPE=usb_device'' @ [newline])
       else None),
     fs_reads = (\<lambda>_. [3, 0, 5]),
     fs_exists = (\<lambda>p. p = ''/sys/class/block/sda/dev'' \<or> p = ''/sys/class/block/sr0/dev'' \<or> p = ''/dev/sda1''),
     fs_is_dir = (\<lambda>_. True),
     fs_readdir = (\<lambda>p. if p = ''/sys/class/block'' then Some [''.'', ''sda'', ''sr0''] else None),
     fs_realpath = (\<lambda>p. if p = ''/sys/class/block/sda/'' then None else Some ''/sys/devices/usb1/block/sr0''),
     fs_lstat = (\<lambda>p. p = ''/sys/devices/usb1/subsystem''),
     fs_readlink = (\<lambda>_. Some ''../../bus/usb''),
     fs_blkid = (\<lambda>p. if p = ''/dev/sda1'' then Some (Some ''vfat'', None) else None),
     fs_partitions = (\<lambda>p. if p = ''/dev/sda'' then Some [1] else None)\<rparr>"

definition demo_found :: "dtmd_info list" where
  "demo_found = (let disk = found_device ''/dev/sda'' media_subtype_removable_disk None media_type_stateless_device None None
       media_state_unknown in
     [disk, found_partition disk ''/dev/sda1'' (Some ''vfat'') None,
      found_device ''/dev/sr0'' media_subtype_cdrom None media_type_stateful_device None None media_state_empty])"

lemma demo_sysfs_found: "device_system_enumerate_devices_unix demo_sysfs quiet_io = (Some demo_found, quiet_io)"
  by code_simp

theorem file_check_line_complete_witness:
  "file_check_line demo_sysfs ''/sys/devices/usb1/uevent'' ''DEVTYPE=usb_device'' = ResultSuccess"
proof -
  have f: "fs_file demo_sysfs ''/sys/devices/usb1/uevent'' = Some (''DEVTYPE=usb_device'' @ [newline])"
    by (simp add: demo_sysfs_def)
  have "complete_lines (''DEVTYPE=usb_device'' @ [newline]) = [''DEVTYPE=usb_device'']"
    using complete_lines_cons [of "''DEVTYPE=usb_device''" "[]"] by simp
  then show ?thesis
    using file_check_line_complete [OF f, of "''DEVTYPE=usb_device''"] by (simp add: no_nul_def file_read_buffer_def)
qed

theorem start_lists_found_devices_witness:
  "mset (places (removable_media_root (dmn (snd (start_daemon demo_os demo_found ResultFail quiet_io demo_kernel))))) =
     {#(None, ''/dev/sda''), (Some ''/dev/sda'', ''/dev/sda1''), (None, ''/dev/sr0'')#}"
proof -
  have "fst (start_daemon demo_os demo_found ResultFail quiet_io demo_kernel)" by code_simp
  then have s: "start_daemon demo_os demo_found ResultFail quiet_io demo_kernel =
      (True, snd (start_daemon demo_os demo_found ResultFail quiet_io demo_kernel))" by (simp add: prod_eq_iff)
  have "map found_at demo_found = [(None, ''/dev/sda''), (Some ''/dev/sda'', ''/dev/sda1''), (None, ''/dev/sr0'')]"
    by code_simp
  with start_lists_found_devices [OF demo_sysfs_found unix_enumeration_all s] show ?thesis by simp
qed

text \<open>The kernel names the first partition of \<^verbatim>\<open>mmcblk0\<close> with a \<^verbatim>\<open>p\<close>; the module looks for another
  name.  The card is found, its partition is not.\<close>

definition card_sysfs :: sysfs where
  "card_sysfs = \<lparr>fs_file = (\<lambda>p. if p = ''/sys/bus/mmc/devices/mmc0:1/block/mmcblk0/device/type'' then Some ''SD'' else None),
     fs_reads = (\<lambda>_. []),
     fs_exists = (\<lambda>p. p = ''/sys/bus/mmc/devices/mmc0:1/block/mmcblk0/dev'' \<or> p = ''/dev/mmcblk0p1''),
     fs_is_dir = (\<lambda>_. True),
     fs_readdir = (\<lambda>p. if p = ''/sys/bus/mmc/devices'' then Some [''mmc0:1'']
       else if p = ''/sys/bus/mmc/devices/mmc0:1/block'' then Some [''mmcblk0''] else None),
     fs_realpath = (\<lambda>_. None), fs_lstat = (\<lambda>_. False), fs_readlink = (\<lambda>_. None),
     fs_blkid = (\<lambda>p. if p = ''/dev/mmcblk0p1'' then Some (Some ''vfat'', None) else None),
     fs_partitions = (\<lambda>p. if p = ''/dev/mmcblk0'' then Some [1] else None)\<rparr>"

lemma card_partition_not_found:
  "map in_path (the (fst (device_system_enumerate_devices_unix card_sysfs quiet_io))) = [Some ''/dev/mmcblk0'']"
  by code_simp

end
