(* ===== verification/Dtmd_Uevent.thy ===== *)
theory Dtmd_Uevent
  imports Dtmd_Sysfs
begin

text \<open>
  The Linux part of \<^verbatim>\<open>daemon/modules/unix-userspace/system_module.c\<close>, second half: an event of the
  kernel and the device it is about.  What \<open>recvmsg\<close> returns is an input.
\<close>

section \<open>The message\<close>

text \<open>\<open>um_trusted\<close>: it comes from the kernel, by its address and its credentials.\<close>

record uevent_message =
  um_trusted :: bool
  um_data :: string

datatype received = ReceiveFailed | ReceivedNothing | ReceivedMessage uevent_message

text \<open>The strings of a message, each ended by a NUL; behind the last NUL the buffer is not set, so
  that a message with more there makes the loop read what was never written.\<close>

function nul_strings :: "string \<Rightarrow> string list" where
  "nul_strings s = (if s = [] then [] else c_str s # nul_strings (tl (dropWhile (\<lambda>c. c \<noteq> CHR 0x00) s)))"
  by pat_completeness auto
termination
proof (relation "measure length")
  fix s :: string assume "s \<noteq> []"
  then show "(tl (dropWhile (\<lambda>c. c \<noteq> CHR 0x00) s), s) \<in> measure length"
    using length_dropWhile_le [of "\<lambda>c. c \<noteq> CHR 0x00" s] by (cases s) (auto simp: less_Suc_eq_le intro: le_trans)
qed simp

declare nul_strings.simps [simp del]

definition nul_terminated :: "string \<Rightarrow> bool" where
  "nul_terminated s \<longleftrightarrow> s \<noteq> [] \<and> last s = CHR 0x00"

record uevent_fields =
  ue_action :: device_action
  ue_subsystem :: "string option"
  ue_devname :: "string option"
  ue_devtype :: "string option"
  ue_devpath :: "string option"

definition no_fields :: uevent_fields where
  "no_fields = \<lparr>ue_action = device_action_unknown, ue_subsystem = None, ue_devname = None, ue_devtype = None,
     ue_devpath = None\<rparr>"

definition has_prefix :: "string \<Rightarrow> string \<Rightarrow> bool" where
  "has_prefix p s \<longleftrightarrow> strncmp_eq s p (length p)"

definition set_action :: "string \<Rightarrow> uevent_fields \<Rightarrow> uevent_fields" where
  "set_action v u =
     (if strcmp v ''add'' = 0 then u\<lparr>ue_action := device_action_add\<rparr>
      else if strcmp v ''online'' = 0 then u\<lparr>ue_action := device_action_online\<rparr>
      else if strcmp v ''remove'' = 0 then u\<lparr>ue_action := device_action_remove\<rparr>
      else if strcmp v ''offline'' = 0 then u\<lparr>ue_action := device_action_offline\<rparr>
      else if strcmp v ''change'' = 0 then u\<lparr>ue_action := device_action_change\<rparr>
      else u)"

definition set_field :: "string \<Rightarrow> uevent_fields \<Rightarrow> uevent_fields" where
  "set_field s u =
     (if has_prefix ''ACTION='' s then set_action (drop (length ''ACTION='') s) u
      else if has_prefix ''SUBSYSTEM='' s then u\<lparr>ue_subsystem := Some (drop (length ''SUBSYSTEM='') s)\<rparr>
      else if has_prefix ''DEVNAME='' s then u\<lparr>ue_devname := Some (drop (length ''DEVNAME='') s)\<rparr>
      else if has_prefix ''DEVTYPE='' s then u\<lparr>ue_devtype := Some (drop (length ''DEVTYPE='') s)\<rparr>
      else if has_prefix ''DEVPATH='' s then u\<lparr>ue_devpath := Some (drop (length ''DEVPATH='') s)\<rparr>
      else u)"

definition uevent_of :: "string \<Rightarrow> uevent_fields" where
  "uevent_of s = fold set_field (nul_strings s) no_fields"

definition block_event :: "uevent_fields \<Rightarrow> bool" where
  "block_event u \<longleftrightarrow> ue_action u \<noteq> device_action_unknown \<and> ue_devtype u \<noteq> None \<and> ue_devname u \<noteq> None \<and>
     ue_subsystem u \<noteq> None \<and> ue_devpath u \<noteq> None \<and> strcmp (the (ue_subsystem u)) ''block'' = 0 \<and>
     (strcmp (the (ue_devtype u)) ''disk'' = 0 \<or> strcmp (the (ue_devtype u)) ''partition'' = 0)"

section \<open>The device\<close>

text \<open>\<open>None\<close>: the event is of no use.  The type of a partition's disk is in the directory above.\<close>

definition read_device_type :: "sysfs \<Rightarrow> string \<Rightarrow> io \<Rightarrow> result \<times> string \<times> io" where
  "read_device_type fs devpath w =
     (case read_string_from_file fs (''/sys'' @ devpath @ ''/device/type'') w of (r, t, w1) \<Rightarrow>
        if is_result_failure r then read_string_from_file fs (''/sys'' @ devpath @ ''/../device/type'') w1
        else (r, t, w1))"

definition disk_type :: "media_subtype \<Rightarrow> media_type" where
  "disk_type subtype = (if subtype = media_subtype_removable_disk \<or> subtype = media_subtype_sd_card
     then media_type_stateless_device
     else if subtype = media_subtype_cdrom then media_type_stateful_device
     else media_type_unknown_or_persistent)"

text \<open>Type, subtype and system path of the device of an event that is not about its removal.\<close>

definition present_device ::
  "sysfs \<Rightarrow> device_action \<Rightarrow> bool \<Rightarrow> string \<Rightarrow> io \<Rightarrow> (media_type \<times> media_subtype \<times> string option) option \<times> io" where
  "present_device fs action is_disk devpath w =
     (if length ''/sys'' + length devpath + length ''device/type'' + 4 > path_max then (None, w)
      else case read_device_type fs devpath w of (r, t, w1) \<Rightarrow>
        if is_result_successful r
        then (let subtype = device_subtype_from_string t in
          if is_disk
          then (case helper_get_usb_parent_syspath fs (''/sys'' @ devpath) w1 of (p, w2) \<Rightarrow>
            (Some (disk_type subtype, subtype, p), w2))
          else (Some (media_type_device_partition, subtype, None), w1))
        else if action = device_action_change
        then (Some (media_type_unknown_or_persistent, media_subtype_unknown_or_persistent, None), w1)
        else (None, w1))"

definition is_removal :: "device_action \<Rightarrow> bool" where
  "is_removal a \<longleftrightarrow> a = device_action_remove \<or> a = device_action_offline"

definition event_device ::
  "sysfs \<Rightarrow> device_action \<Rightarrow> bool \<Rightarrow> string \<Rightarrow> io \<Rightarrow> (media_type \<times> media_subtype \<times> string option) option \<times> io" where
  "event_device fs action is_disk devpath w =
     (if is_removal action
      then (Some (if is_disk then media_type_unknown_or_persistent else media_type_device_partition,
              media_subtype_unknown_or_persistent, None), w)
      else present_device fs action is_disk devpath w)"

text \<open>The contents; the result is that of the probe where one is made.\<close>

definition event_contents ::
  "sysfs \<Rightarrow> device_action \<Rightarrow> media_type \<Rightarrow> string \<Rightarrow> io \<Rightarrow> result \<times> string option \<times> string option \<times> media_state \<times> io" where
  "event_contents fs action t path w =
     (if is_removal action \<or> t \<noteq> media_type_device_partition \<and> t \<noteq> media_type_stateful_device
      then (ResultSuccess, None, None, media_state_unknown, w)
      else case helper_blkid_read_data_from_partition fs path w of (r, fstype, label, w1) \<Rightarrow>
        (r, fstype, label, if t = media_type_device_partition then media_state_unknown else disc_state r fstype, w1))"

text \<open>The disk of a partition: the last but one component of its path.\<close>

definition event_parent :: "media_type \<Rightarrow> string \<Rightarrow> string option" where
  "event_parent t devpath =
     (if t \<noteq> media_type_device_partition then Some dtmd_root_device_path
      else case strrchr devpath CHR ''/'' of
        None \<Rightarrow> None
      | Some l \<Rightarrow> map_option (\<lambda>d. ''/dev'' @ d) (strrchr (take (length devpath - length l) devpath) CHR ''/''))"

definition uevent_device ::
  "sysfs \<Rightarrow> uevent_fields \<Rightarrow> io \<Rightarrow> (result + device_action \<times> dtmd_info) \<times> io" where
  "uevent_device fs u w =
     (let action = ue_action u; is_disk = (strcmp (the (ue_devtype u)) ''disk'' = 0); devpath = the (ue_devpath u);
          path = ''/dev/'' @ the (ue_devname u)
      in case malloc w of (ok, w1) \<Rightarrow>
        if \<not> ok then (Inl ResultFatalError, w1)
        else case event_device fs action is_disk devpath w1 of
          (None, w2) \<Rightarrow> (Inl ResultFail, w2)
        | (Some (t, subtype, sysfs_path), w2) \<Rightarrow> (case malloc w2 of (ok2, w3) \<Rightarrow>
            if \<not> ok2 then (Inl ResultFatalError, w3)
            else case event_contents fs action t path w3 of (r, fstype, label, state, w4) \<Rightarrow>
              if is_result_fatal_error r then (Inl ResultFatalError, w4)
              else case event_parent t devpath of
                None \<Rightarrow> (Inl ResultFail, w4)
              | Some par \<Rightarrow> (case malloc w4 of (ok3, w5) \<Rightarrow>
                  if \<not> ok3 then (Inl ResultFatalError, w5)
                  else (Inr (action, \<lparr>in_path_parent = Some par, in_path = Some path, in_media_type = t,
                    in_media_subtype = subtype, in_sysfs_path = sysfs_path, in_fstype = fstype, in_label = label,
                    in_state = state\<rparr>), w5))))"

definition device_system_monitor_receive_device ::
  "sysfs \<Rightarrow> received \<Rightarrow> io \<Rightarrow> (result + device_action \<times> dtmd_info) \<times> io" where
  "device_system_monitor_receive_device fs r w = (case r of
     ReceiveFailed \<Rightarrow> (Inl ResultFatalError, w)
   | ReceivedNothing \<Rightarrow> (Inl ResultFail, w)
   | ReceivedMessage m \<Rightarrow>
       if \<not> um_trusted m then (Inl ResultFail, w)
       else let w1 = (if nul_terminated (um_data m) then w else undefined_behaviour w); u = uevent_of (um_data m) in
         if block_event u then uevent_device fs u w1 else (Inl ResultFail, w1))"

end
