(* ===== verification/Dtmd_Uevent_Spec.thy ===== *)
theory Dtmd_Uevent_Spec
  imports Dtmd_Sysfs_Spec Dtmd_Uevent
begin

text \<open>
  Events of the kernel: the message is read as it is written, the USB device of a disk is the nearest one
  above it, and the module is a \<open>device_source\<close>; but it describes a disc drive on the USB in two ways.
\<close>

section \<open>The message\<close>

text \<open>A message as the kernel writes it.\<close>

definition uevent_text :: "string \<Rightarrow> string \<Rightarrow> (string \<times> string) list \<Rightarrow> string" where
  "uevent_text action devpath kvs =
     action @ ''@'' @ devpath @ [CHR 0x00] @ concat (map (\<lambda>(k, v). k @ ''='' @ v @ [CHR 0x00]) kvs)"

definition field_ok :: "string \<times> string \<Rightarrow> bool" where
  "field_ok kv \<longleftrightarrow> no_nul (fst kv) \<and> no_nul (snd kv) \<and> CHR ''='' \<notin> set (fst kv)"

lemma nul_strings_cons: "no_nul s \<Longrightarrow> nul_strings (s @ CHR 0x00 # t) = s # nul_strings t"
  by (subst nul_strings.simps) (auto simp: c_str_def no_nul_def takeWhile_append dropWhile_append
      takeWhile_eq_all_conv dropWhile_eq_Nil_conv)

lemma nul_strings_Nil [simp]: "nul_strings [] = []"
  by (subst nul_strings.simps) simp

lemma nul_strings_fields:
  "list_all field_ok kvs \<Longrightarrow>
   nul_strings (concat (map (\<lambda>(k, v). k @ ''='' @ v @ [CHR 0x00]) kvs)) = map (\<lambda>(k, v). k @ ''='' @ v) kvs"
proof (induction kvs)
  case (Cons kv kvs)
  obtain k v where kv: "kv = (k, v)" by (cases kv)
  have "no_nul (k @ ''='' @ v)" using Cons.prems by (auto simp: kv field_ok_def no_nul_def)
  from nul_strings_cons [OF this] Cons show ?case by (simp add: kv)
qed simp

lemma has_prefix_key:
  "CHR ''='' \<notin> set k \<Longrightarrow> CHR ''='' \<notin> set key \<Longrightarrow> has_prefix (key @ ''='') (k @ CHR ''='' # v) \<longleftrightarrow> k = key"
proof (induction key arbitrary: k)
  case Nil
  then show ?case by (cases k) (auto simp: has_prefix_def strncmp_eq_def)
next
  case (Cons c key)
  then show ?case by (cases k) (auto simp: has_prefix_def strncmp_eq_def)
qed

lemma has_prefix_header:
  "CHR ''@'' \<notin> set key \<Longrightarrow> CHR ''='' \<notin> set a \<Longrightarrow> \<not> has_prefix (key @ ''='') (a @ CHR ''@'' # p)"
proof (induction key arbitrary: a)
  case Nil
  then show ?case by (cases a) (auto simp: has_prefix_def strncmp_eq_def)
next
  case (Cons c key)
  then show ?case by (cases a) (auto simp: has_prefix_def strncmp_eq_def)
qed

text \<open>\<open>set_field\<close> on a field and on the first string of the message.\<close>

definition set_named :: "string \<Rightarrow> string \<Rightarrow> uevent_fields \<Rightarrow> uevent_fields" where
  "set_named k v u =
     (if k = ''ACTION'' then set_action v u
      else if k = ''SUBSYSTEM'' then u\<lparr>ue_subsystem := Some v\<rparr>
      else if k = ''DEVNAME'' then u\<lparr>ue_devname := Some v\<rparr>
      else if k = ''DEVTYPE'' then u\<lparr>ue_devtype := Some v\<rparr>
      else if k = ''DEVPATH'' then u\<lparr>ue_devpath := Some v\<rparr>
      else u)"

lemmas key_simps = has_prefix_key [of _ "''ACTION''", simplified] has_prefix_key [of _ "''SUBSYSTEM''", simplified]
  has_prefix_key [of _ "''DEVNAME''", simplified] has_prefix_key [of _ "''DEVTYPE''", simplified]
  has_prefix_key [of _ "''DEVPATH''", simplified]

lemmas header_simps = has_prefix_header [of "''ACTION''", simplified] has_prefix_header [of "''SUBSYSTEM''", simplified]
  has_prefix_header [of "''DEVNAME''", simplified] has_prefix_header [of "''DEVTYPE''", simplified]
  has_prefix_header [of "''DEVPATH''", simplified]

lemma set_field_named: "CHR ''='' \<notin> set k \<Longrightarrow> set_field (k @ CHR ''='' # v) u = set_named k v u"
  by (simp add: set_field_def set_named_def key_simps)

lemma set_field_header: "CHR ''='' \<notin> set a \<Longrightarrow> set_field (a @ CHR ''@'' # p) u = u"
  by (simp add: set_field_def header_simps)

text \<open>The names the kernel gives to its actions.\<close>

definition kernel_actions :: "(string \<times> device_action) list" where
  "kernel_actions = [(''add'', device_action_add), (''remove'', device_action_remove), (''change'', device_action_change),
     (''online'', device_action_online), (''offline'', device_action_offline)]"

definition action_named :: "string \<Rightarrow> device_action" where
  "action_named v = (case map_of kernel_actions v of None \<Rightarrow> device_action_unknown | Some a \<Rightarrow> a)"

lemma set_action_fields:
  "ue_action (set_action v u) = (if action_named v = device_action_unknown then ue_action u else action_named v)"
  "ue_subsystem (set_action v u) = ue_subsystem u" "ue_devname (set_action v u) = ue_devname u"
  "ue_devtype (set_action v u) = ue_devtype u" "ue_devpath (set_action v u) = ue_devpath u"
  by (auto simp: set_action_def action_named_def kernel_actions_def)

definition field :: "(string \<times> string) list \<Rightarrow> string \<Rightarrow> string option \<Rightarrow> string option" where
  "field kvs k old = (case map_of kvs k of None \<Rightarrow> old | Some v \<Rightarrow> Some v)"

definition with_fields :: "(string \<times> string) list \<Rightarrow> uevent_fields \<Rightarrow> uevent_fields" where
  "with_fields kvs u =
     \<lparr>ue_action = (case map_of kvs ''ACTION'' of None \<Rightarrow> ue_action u | Some v \<Rightarrow>
       if action_named v = device_action_unknown then ue_action u else action_named v),
     ue_subsystem = field kvs ''SUBSYSTEM'' (ue_subsystem u), ue_devname = field kvs ''DEVNAME'' (ue_devname u),
     ue_devtype = field kvs ''DEVTYPE'' (ue_devtype u), ue_devpath = field kvs ''DEVPATH'' (ue_devpath u)\<rparr>"

lemma field_Cons: "field ((k, v) # kvs) x old = (if k = x then Some v else field kvs x old)"
  by (simp add: field_def)

lemma field_new: "map_of kvs k = None \<Longrightarrow> field kvs k old = old"
  by (simp add: field_def)

lemma with_fields_Cons: "map_of kvs k = None \<Longrightarrow> with_fields ((k, v) # kvs) u = with_fields kvs (set_named k v u)"
proof -
  assume new: "map_of kvs k = None"
  consider "k = ''ACTION''" | "k = ''SUBSYSTEM''" | "k = ''DEVNAME''" | "k = ''DEVTYPE''" | "k = ''DEVPATH''"
    | "k \<noteq> ''ACTION'' \<and> k \<noteq> ''SUBSYSTEM'' \<and> k \<noteq> ''DEVNAME'' \<and> k \<noteq> ''DEVTYPE'' \<and> k \<noteq> ''DEVPATH''" by blast
  then show ?thesis
    by cases (use new in \<open>auto simp: with_fields_def set_named_def field_Cons field_new set_action_fields
        split: option.split\<close>)
qed

lemma fold_fields:
  assumes "list_all field_ok kvs" and "distinct (map fst kvs)"
  shows "fold set_field (map (\<lambda>(k, v). k @ ''='' @ v) kvs) u = with_fields kvs u"
  using assms
proof (induction kvs arbitrary: u)
  case (Cons kv kvs)
  obtain k v where kv: "kv = (k, v)" by (cases kv)
  have new: "map_of kvs k = None" using Cons.prems(2) by (simp add: kv map_of_eq_None_iff)
  have "set_field (k @ CHR ''='' # v) u = set_named k v u"
    using Cons.prems(1) by (intro set_field_named) (simp add: kv field_ok_def)
  with Cons with_fields_Cons [OF new] show ?case by (simp add: kv)
qed (simp add: with_fields_def field_def)

text \<open>C24. Every field of a message of the kernel is read back as it was written, the action as the one the
  kernel's name stands for, in whatever order the fields come and whatever other fields the message
  holds; as long as no key occurs twice, keys and the action in the head of the message hold no
  equals sign, and no part of the message a null byte.\<close>

theorem uevent_roundtrip:
  assumes "list_all field_ok kvs" and "distinct (map fst kvs)"
    and "no_nul action" and "no_nul devpath" and "CHR ''='' \<notin> set action"
  shows "uevent_of (uevent_text action devpath kvs) =
    \<lparr>ue_action = (case map_of kvs ''ACTION'' of None \<Rightarrow> device_action_unknown | Some v \<Rightarrow> action_named v),
     ue_subsystem = map_of kvs ''SUBSYSTEM'', ue_devname = map_of kvs ''DEVNAME'',
     ue_devtype = map_of kvs ''DEVTYPE'', ue_devpath = map_of kvs ''DEVPATH''\<rparr>"
proof -
  have "no_nul (action @ ''@'' @ devpath)" using assms(3,4) by (simp add: no_nul_def)
  from nul_strings_cons [OF this] have "nul_strings (uevent_text action devpath kvs) =
      (action @ ''@'' @ devpath) # map (\<lambda>(k, v). k @ ''='' @ v) kvs"
    using nul_strings_fields [OF assms(1)] by (simp add: uevent_text_def)
  moreover have "field kvs k None = map_of kvs k" for k by (simp add: field_def split: option.split)
  ultimately show ?thesis
    using fold_fields [OF assms(1,2), of no_fields] set_field_header [OF assms(5), of devpath no_fields]
    by (simp add: uevent_of_def with_fields_def no_fields_def split: option.split)
qed

section \<open>The USB device\<close>

text \<open>A directory, given without its slash, that is the one of a USB device.\<close>

definition usb_device_dir :: "sysfs \<Rightarrow> string \<Rightarrow> bool" where
  "usb_device_dir fs q \<longleftrightarrow> has_prefix ''/sys/'' (q @ ''/'') \<and> length q + 1 > length ''/sys/'' \<and>
     fst (usb_link fs (q @ ''/'') quiet_io) \<and> file_check_line fs (q @ ''/uevent'') ''DEVTYPE=usb_device'' = ResultSuccess"

lemma usb_link_io: "fst (usb_link fs f w) = fst (usb_link fs f w')"
  by (auto simp: usb_link_def Let_def split: option.split)

lemma upper_directory_spec:
  assumes "upper_directory (q @ ''/'') = Some f"
  obtains p r where "q = p @ CHR ''/'' # r" "f = p @ ''/''" "CHR ''/'' \<notin> set r"
proof -
  from assms obtain t where t: "strrchr q CHR ''/'' = Some t" "f = take (length q - length t + 1) q"
    by (auto simp: upper_directory_def)
  from strrchr_Some [OF t(1)] obtain p r where "q = p @ t" "t = CHR ''/'' # r" "CHR ''/'' \<notin> set r" by auto
  with t(2) that [of p r] show thesis by simp
qed

text \<open>Directories above \<open>p / r\<close> are \<open>p\<close> or above it.\<close>

lemma directories_above:
  assumes "CHR ''/'' \<notin> set r" and "p @ CHR ''/'' # r @ ''/'' = q @ CHR ''/'' # x"
  shows "q = p @ CHR ''/'' # r \<or> (\<exists>y. p @ ''/'' = q @ CHR ''/'' # y)"
proof -
  from assms(2) consider u where "q = p @ u" "CHR ''/'' # r @ ''/'' = u @ CHR ''/'' # x"
    | u where "p = q @ u" "u @ CHR ''/'' # r @ ''/'' = CHR ''/'' # x"
    by (auto simp: append_eq_append_conv2)
  then show ?thesis
  proof cases
    case 1
    show ?thesis
    proof (cases u)
      case (Cons c v)
      then have "c = CHR ''/'' \<and> r @ ''/'' = v @ CHR ''/'' # x" using 1(2) by auto
      then have "v = r" using assms(1)
        by (auto simp: append_eq_append_conv2 append_eq_Cons_conv Cons_eq_append_conv)
      with 1(1) Cons 1(2) show ?thesis by auto
    qed (use 1 in auto)
  next
    case 2
    then show ?thesis by (cases u) auto
  qed
qed

lemma usb_parent_spec:
  assumes "usb_parent fs (q @ ''/'') w = (Some p, w')"
  shows "usb_device_dir fs p \<and> (\<exists>x. q @ ''/'' = p @ CHR ''/'' # x) \<and>
    (\<forall>d y. q @ ''/'' = d @ CHR ''/'' # y \<and> length d > length p \<longrightarrow> \<not> usb_device_dir fs d)"
  using assms
proof (induction fs "q @ ''/''" w arbitrary: q rule: usb_parent.induct)
  case (1 fs w)
  obtain usb w1 where u: "usb_link fs (q @ ''/'') w = (usb, w1)" by (cases "usb_link fs (q @ ''/'') w")
  have usb: "usb = fst (usb_link fs (q @ ''/'') quiet_io)" using u usb_link_io by (metis fst_conv)
  have sys: "length (q @ ''/'') > length ''/sys/'' \<and> strncmp_eq (q @ ''/'') ''/sys/'' (length ''/sys/'')"
    using "1.prems" by (subst (asm) usb_parent.simps) (auto split: if_splits)
  show ?case
  proof (cases "usb \<and> file_check_line fs ((q @ ''/'') @ ''uevent'') ''DEVTYPE=usb_device'' = ResultSuccess")
    case True
    then have "p = q" using "1.prems" sys u by (subst (asm) usb_parent.simps) (auto split: prod.splits if_splits)
    moreover have "usb_device_dir fs q" using True sys usb by (simp add: usb_device_dir_def has_prefix_def)
    moreover have "length d \<le> length q" if "q @ ''/'' = d @ CHR ''/'' # y" for d y
      using arg_cong [OF that, of length] by simp
    moreover have "\<exists>x. q @ ''/'' = q @ CHR ''/'' # x" by simp
    ultimately show ?thesis using leD by blast
  next
    case no: False
    then have not_q: "\<not> usb_device_dir fs q" using usb by (auto simp: usb_device_dir_def)
    from "1.prems" sys u no obtain f where f: "upper_directory (q @ ''/'') = Some f" "usb_parent fs f w1 = (Some p, w')"
      by (subst (asm) usb_parent.simps) (auto split: option.splits)
    from upper_directory_spec [OF f(1)] obtain b r where b: "q = b @ CHR ''/'' # r" "f = b @ ''/''" "CHR ''/'' \<notin> set r" .
    have ih: "usb_device_dir fs p \<and> (\<exists>x. b @ ''/'' = p @ CHR ''/'' # x) \<and>
        (\<forall>d y. b @ ''/'' = d @ CHR ''/'' # y \<and> length d > length p \<longrightarrow> \<not> usb_device_dir fs d)"
      using "1.hyps" [OF _ u [symmetric] no f(1) [unfolded b(2)] f(2) [unfolded b(2)]] sys by simp
    have "\<not> usb_device_dir fs d" if d: "q @ ''/'' = d @ CHR ''/'' # y" "length p < length d" for d y
      using directories_above [OF b(3), of b d y] d ih not_q b(1) by auto
    moreover from ih obtain x where x: "b @ ''/'' = p @ CHR ''/'' # x" by blast
    have "q @ ''/'' = p @ CHR ''/'' # (x @ r @ ''/'')"
      using arg_cong [OF x, of "\<lambda>s. s @ r @ ''/''"] b(1) by simp
    ultimately show ?thesis using ih by blast
  qed
qed

text \<open>The real path, without a slash at its end.\<close>

definition without_slash :: "string \<Rightarrow> string" where
  "without_slash f = (if last f = CHR ''/'' then butlast f else f)"

text \<open>What is reported as the USB device of a disk is the directory of one, it lies above the directory of
  the disk in \<^verbatim>\<open>/sys\<close>, and there is no other USB device between the two.\<close>

lemma usb_parent_nearest:
  assumes "helper_get_usb_parent_syspath fs path w = (Some p, w')"
  shows "usb_device_dir fs p \<and>
    (\<exists>f. fs_realpath fs path = Some f \<and> (\<exists>x. without_slash f @ ''/'' = p @ CHR ''/'' # x) \<and>
      (\<forall>d y. without_slash f @ ''/'' = d @ CHR ''/'' # y \<and> length d > length p \<longrightarrow> \<not> usb_device_dir fs d))"
proof -
  from assms obtain f where f: "fs_realpath fs path = Some f" "f \<noteq> []"
    by (auto simp: helper_get_usb_parent_syspath_def split: option.splits if_splits)
  have "(if last f \<noteq> CHR ''/'' then f @ ''/'' else f) = without_slash f @ ''/''"
    unfolding without_slash_def by (metis append_butlast_last_id f(2))
  with assms f have "usb_parent fs (without_slash f @ ''/'') w = (Some p, w')"
    by (auto simp: helper_get_usb_parent_syspath_def Let_def split: if_splits)
  from usb_parent_spec [OF this] f(1) show ?thesis by blast
qed

section \<open>The device of an event\<close>

lemma event_contents_state:
  "event_contents fs action t path w = (r, f, l, s, w') \<Longrightarrow> t = media_type_stateful_device \<Longrightarrow> \<not> is_removal action \<Longrightarrow>
     s \<noteq> media_state_unknown"
  by (auto simp: event_contents_def disc_state_known split: prod.splits)

lemma uevent_device_state:
  assumes "uevent_device fs u w = (Inr (a, i), w')"
  shows "a = ue_action u" and "in_path i = Some (''/dev/'' @ the (ue_devname u))"
    and "event_complete i \<Longrightarrow> in_media_type i = media_type_stateful_device \<Longrightarrow> in_state i \<noteq> media_state_unknown"
proof -
  let ?disk = "the (ue_devtype u) = ''disk''" and ?path = "''/dev/'' @ the (ue_devname u)"
  obtain ok w1 where m: "malloc w = (ok, w1)" by (cases "malloc w")
  obtain x w2 where e: "event_device fs (ue_action u) ?disk (the (ue_devpath u)) w1 = (x, w2)" by fastforce
  from assms m e have "ok" "x \<noteq> None" by (auto simp: uevent_device_def Let_def split: if_splits option.splits)
  then obtain t subtype p where x: "x = Some (t, subtype, p)" by auto
  obtain ok2 w3 where m2: "malloc w2 = (ok2, w3)" by (cases "malloc w2")
  obtain r f l s w4 where c: "event_contents fs (ue_action u) t ?path w3 = (r, f, l, s, w4)" by (metis prod_cases5)
  obtain ok3 w5 where m3: "malloc w4 = (ok3, w5)" by (cases "malloc w4")
  from assms have "a = ue_action u \<and> (\<exists>par. i = \<lparr>in_path_parent = Some par, in_path = Some ?path, in_media_type = t,
      in_media_subtype = subtype, in_sysfs_path = p, in_fstype = f, in_label = l, in_state = s\<rparr>)"
    using m e x m2 c m3 by (auto simp: uevent_device_def Let_def split: if_splits option.splits)
  then obtain par where i: "a = ue_action u" "i = \<lparr>in_path_parent = Some par, in_path = Some ?path, in_media_type = t,
      in_media_subtype = subtype, in_sysfs_path = p, in_fstype = f, in_label = l, in_state = s\<rparr>" by blast
  then show "a = ue_action u" "in_path i = Some ?path" by simp_all
  assume "event_complete i" "in_media_type i = media_type_stateful_device"
  then have t: "t = media_type_stateful_device" using i(2) by simp
  have "\<not> is_removal (ue_action u)" using e x t by (auto simp: event_device_def split: if_splits)
  from event_contents_state [OF c t this] show "in_state i \<noteq> media_state_unknown" using i(2) by simp
qed

lemma received_device:
  assumes "fst (device_system_monitor_receive_device fs m w) = Inr (a, i)"
  obtains u v v' where "uevent_device fs u v = (Inr (a, i), v')" "block_event u"
  using assms by (auto simp: device_system_monitor_receive_device_def Let_def split: received.splits if_splits)
     (metis prod.collapse)+

definition unix_reports :: "(string \<Rightarrow> media_type) \<Rightarrow> dtmd_info \<Rightarrow> bool" where
  "unix_reports kind i \<longleftrightarrow> same_kind kind i \<and>
     ((\<exists>ps. found_ok ps i) \<or> (\<exists>fs u w a w'. uevent_device fs u w = (Inr (a, i), w')))"

interpretation unix: device_source "unix_reports kind" kind
  for kind :: "string \<Rightarrow> media_type"
  by unfold_locales (auto simp: unix_reports_def same_kind_def found_ok_def dest: uevent_device_state(3))

lemma listing_ok_found: "listing_ok ps is \<Longrightarrow> i \<in> set is \<Longrightarrow> \<exists>qs. found_ok qs i"
  by (induction "is" arbitrary: ps) auto

text \<open>C23. The module that reads \<^verbatim>\<open>/sys\<close> and the events of the kernel is a source of devices as the daemon needs
  one: after the start and any number of passes of the event loop every line of a listing is one that clients
  accept, as long as the device at a path is never reported with another type.\<close>

theorem unix_devices_accepted:
  assumes "device_system_enumerate_devices_unix fs u = (Some devices, u')" and "list_all (same_kind kind) devices"
    and "start_daemon os devices ResultFail w k = (True, s0)"
    and "list_all (\<lambda>li. case in_device li of Inl _ \<Rightarrow> True | Inr (a, i) \<Rightarrow>
      \<exists>fs m v. fst (device_system_monitor_receive_device fs m v) = Inr (a, i)) inputs"
    and "list_all (reported_input (same_kind kind)) inputs"
    and "main_loop os c ps inputs s0 = (0, s)"
  shows "list_all (\<lambda>n. check_removable_device (node_command n)) (nodes None (removable_media_root (dmn s)))"
proof -
  have "list_all (unix_reports kind) devices"
    using listing_ok_found [OF enumeration_listing_ok [OF assms(1)]] assms(2)
    unfolding list_all_iff unix_reports_def by blast
  moreover have "reported_input (unix_reports kind) li" if li: "li \<in> set inputs" for li
  proof (cases "in_device li")
    case (Inr p)
    obtain a i where p: "p = (a, i)" by (cases p)
    from li assms(4) Inr p obtain fs m v where "fst (device_system_monitor_receive_device fs m v) = Inr (a, i)"
      by (fastforce simp: list_all_iff)
    then have "\<exists>fs u w a w'. uevent_device fs u w = (Inr (a, i), w')" by (blast elim: received_device)
    moreover have "same_kind kind i" using li assms(5) Inr p by (auto simp: list_all_iff reported_input_def)
    ultimately show ?thesis using Inr p by (simp add: reported_input_def unix_reports_def)
  qed (simp add: reported_input_def)
  ultimately show ?thesis
    using unix.devices_accepted [OF _ assms(3) _ assms(6)] by (simp add: list_all_iff)
qed

section \<open>A disc drive on the USB\<close>

lemma find_inserted:
  "p \<notin> paths None ms \<Longrightarrow> find_at None p (insert_media (Media p x ds) ms) = Some (None, Media p x ds)"
proof (induction ms)
  case (Cons n ns)
  obtain q i cs where n: "n = Media q i cs" by (cases n)
  have "find_at (Some q) p cs = None" "p \<noteq> q" "p \<notin> paths None ns"
    using Cons.prems by (auto simp: n find_at_None paths_any [of "Some q"])
  with Cons.IH show ?case by (simp add: n)
qed simp

text \<open>C38. The start and the events do not agree about a disc drive on the USB: the enumeration gives it no
  system path, an event gives it that of the USB device.  So the first change of its medium is taken for a
  bug, and the daemon stops.\<close>

theorem usb_drive_change_stops_daemon:
  assumes "helper_read_device fs name dev cr w = (FoundStateful i, w')"
    and "dtmd_find_media (the (in_path i)) (removable_media_root d) = None"
    and "add_media (event_desc i) (in_sysfs_path i) d = (ResultSuccess, dmn s)"
    and "fst (device_system_monitor_receive_device fs' m v) = Inr (device_action_change, j)"
    and "in_path j = in_path i" and "event_complete j" and "in_sysfs_path j \<noteq> None"
    and "in_device li = fst (device_system_monitor_receive_device fs' m v)"
    and "pollin (in_monitor li)" and "\<not> poll_broken (in_monitor li)"
  shows "fst (device_step li s) = Some StopDevice"
proof -
  note i = read_device_ok(2) [OF assms(1) refl]
  let ?p = "the (in_path i)"
  obtain y w2 where c: "construct_media (event_desc i) None (world d) = (y, w2)" by fastforce
  with assms(3) i obtain x where y: "y = Some x" by (cases y) (auto simp: add_media_def event_desc_def)
  have x: "md_sysfs_path x = None" "removable_media_root (dmn s) = insert_media (Media ?p x []) (removable_media_root d)"
    using construct_media_built [OF c [unfolded y]] assms(3) i c
    by (auto simp: y built_from_def add_media_def event_desc_def dest: arg_cong [of _ _ removable_media_root])
  have "find_at None ?p (removable_media_root (dmn s)) = Some (None, Media ?p x [])"
    using find_inserted [of ?p "removable_media_root d" x "[]"] assms(2)
    unfolding x(2) by (simp add: find_media_None find_at_None)
  then have "fst (change_media (event_desc j) (in_sysfs_path j) (dmn s)) = ResultBug"
    using assms(5,7) x(1) by (auto simp: change_media_def event_desc_def same_string_def)
  then have "fst (device_event device_action_change j (dmn s)) = ResultBug"
    using assms(6) by (cases "change_media (event_desc j) (in_sysfs_path j) (dmn s)") (simp add: device_event_def)
  then show ?thesis
    using assms(4,8-10)
    by (cases "device_event device_action_change j (dmn s)") (simp add: device_step_def)
qed

section \<open>Witnesses\<close>

text \<open>The message about a new disc in the drive.\<close>

definition disc_fields :: "(string \<times> string) list" where
  "disc_fields = [(''ACTION'', ''change''), (''DEVPATH'', ''/devices/usb1/block/sr0''), (''SUBSYSTEM'', ''block''),
     (''DISK_MEDIA_CHANGE'', ''1''), (''DEVNAME'', ''sr0''), (''DEVTYPE'', ''disk'')]"

definition disc_message :: received where
  "disc_message = ReceivedMessage \<lparr>um_trusted = True,
     um_data = uevent_text ''change'' ''/devices/usb1/block/sr0'' disc_fields\<rparr>"

definition disc_info :: dtmd_info where
  "disc_info = \<lparr>in_path_parent = Some ''/'', in_path = Some ''/dev/sr0'', in_media_type = media_type_stateful_device,
     in_media_subtype = media_subtype_cdrom, in_sysfs_path = Some ''/sys/devices/usb1'', in_fstype = None, in_label = None,
     in_state = media_state_empty\<rparr>"

lemma disc_received:
  "fst (device_system_monitor_receive_device demo_sysfs disc_message quiet_io) = Inr (device_action_change, disc_info)"
  by code_simp

lemma usb_found:
  "helper_get_usb_parent_syspath demo_sysfs ''/sys/devices/usb1/block/sr0'' quiet_io = (Some ''/sys/devices/usb1'', quiet_io)"
  by code_simp

theorem uevent_roundtrip_witness:
  "uevent_of (uevent_text ''change'' ''/devices/usb1/block/sr0'' disc_fields) =
    \<lparr>ue_action = device_action_change, ue_subsystem = Some ''block'', ue_devname = Some ''sr0'', ue_devtype = Some ''disk'',
     ue_devpath = Some ''/devices/usb1/block/sr0''\<rparr>"
  using uevent_roundtrip [of disc_fields "''change''" "''/devices/usb1/block/sr0''"]
  by (simp add: disc_fields_def field_ok_def no_nul_def action_named_def kernel_actions_def)

definition event_pass :: loop_input where
  "event_pass = connect_pass\<lparr>in_socket := no_event, in_monitor := some_input,
     in_device := fst (device_system_monitor_receive_device demo_sysfs disc_message quiet_io)\<rparr>"

definition drive_state :: "unit main_state" where
  "drive_state = \<lparr>dmn = snd (add_media (event_desc (demo_found ! 2)) None (no_devices quiet_io)), krn = demo_kernel,
     force_mounts_check = False, pollfds_count = 4\<rparr>"

lemma drive_found:
  "helper_read_device demo_sysfs ''/sys/class/block/sr0/'' ''sr0'' True quiet_io = (FoundStateful (demo_found ! 2), quiet_io)"
  "add_media (event_desc (demo_found ! 2)) (in_sysfs_path (demo_found ! 2)) (no_devices quiet_io) = (ResultSuccess, dmn drive_state)"
  "in_path disc_info = in_path (demo_found ! 2)" "event_complete disc_info" "in_sysfs_path disc_info \<noteq> None"
  "dtmd_find_media (the (in_path (demo_found ! 2))) (removable_media_root (no_devices quiet_io)) = None"
  by code_simp+

theorem usb_drive_change_stops_daemon_witness:
  "fst (device_step event_pass drive_state) = Some StopDevice"
  by (rule usb_drive_change_stops_daemon [OF drive_found(1,6,2) disc_received drive_found(3,4,5)])
     (simp_all add: event_pass_def connect_pass_def some_input_def no_event_def poll_broken_def)

text \<open>The partition goes away.\<close>

definition removed_message :: received where
  "removed_message = ReceivedMessage \<lparr>um_trusted = True,
     um_data = uevent_text ''remove'' ''/devices/usb1/block/sda/sda1''
       [(''ACTION'', ''remove''), (''DEVPATH'', ''/devices/usb1/block/sda/sda1''), (''SUBSYSTEM'', ''block''),
        (''DEVNAME'', ''sda1''), (''DEVTYPE'', ''partition'')]\<rparr>"

definition removed_pass :: loop_input where
  "removed_pass = event_pass\<lparr>in_device := fst (device_system_monitor_receive_device demo_sysfs removed_message quiet_io)\<rparr>"

definition removed_end :: "unit main_state" where
  "removed_end = snd (main_loop demo_os initial_config demo_parser [removed_pass]
     (snd (start_daemon demo_os demo_found ResultFail quiet_io demo_kernel)))"

theorem unix_devices_accepted_witness:
  "list_all (\<lambda>n. check_removable_device (node_command n)) (nodes None (removable_media_root (dmn removed_end)))"
proof -
  let ?kind = "\<lambda>p. if p = ''/dev/sr0'' then media_type_stateful_device
    else if p = ''/dev/sda1'' then media_type_device_partition else media_type_stateless_device"
  have k: "list_all (same_kind ?kind) demo_found" "list_all (reported_input (same_kind ?kind)) [removed_pass]"
    by code_simp+
  have r: "fst (start_daemon demo_os demo_found ResultFail quiet_io demo_kernel) = True"
    "fst (main_loop demo_os initial_config demo_parser [removed_pass]
       (snd (start_daemon demo_os demo_found ResultFail quiet_io demo_kernel))) = 0"
    by code_simp+
  have i: "list_all (\<lambda>li. case in_device li of Inl _ \<Rightarrow> True | Inr (a, i) \<Rightarrow>
      \<exists>fs m v. fst (device_system_monitor_receive_device fs m v) = Inr (a, i)) [removed_pass]"
    unfolding removed_pass_def by (auto split: sum.split)
  have s: "start_daemon demo_os demo_found ResultFail quiet_io demo_kernel =
      (True, snd (start_daemon demo_os demo_found ResultFail quiet_io demo_kernel))"
    "main_loop demo_os initial_config demo_parser [removed_pass]
      (snd (start_daemon demo_os demo_found ResultFail quiet_io demo_kernel)) = (0, removed_end)"
    using r by (simp_all add: prod_eq_iff removed_end_def)
  from unix_devices_accepted [OF demo_sysfs_found k(1) s(1) i k(2) s(2)] show ?thesis .
qed

end
