(* ===== verification/Dtmd_Monitors.thy ===== *)
theory Dtmd_Monitors
  imports Dtmd_Uevent
begin

text \<open>
  How the events get from the worker thread of \<^verbatim>\<open>daemon/modules/unix-userspace/system_module.c\<close> to
  the daemon: the monitors with their queues and pipes, the reference counts of the devices,
  and the mutex.  A step is what a thread does between two points at which it can be made to
  wait; the threads' steps interleave freely.  Devices are numbered as they are allocated.
\<close>

section \<open>The state\<close>

record monitor =
  queue :: "(nat \<times> device_action) list"
  data_pipe :: "nat list"

text \<open>Where the worker is: waiting for an event; adding a device to the monitors, from the one with
  the given number on; about to write the byte for the item it has added; writing the last byte
  to the pipes; ended.  It holds the mutex in the three positions in between.\<close>

datatype unix_worker = WaitingEvent | AddingItem nat device_action nat | WritingByte nat device_action nat |
  ClosingPipes nat nat | EndedWorker

record monitors =
  mons :: "monitor list"
  devices :: "nat \<Rightarrow> (dtmd_info \<times> nat) option"
  next_device :: nat
  unix_worker :: unix_worker
  held :: "nat list"

definition monitors_start :: "nat \<Rightarrow> monitors" where
  "monitors_start n = \<lparr>mons = replicate n \<lparr>queue = [], data_pipe = []\<rparr>, devices = (\<lambda>_. None), next_device = 0,
     unix_worker = WaitingEvent, held = []\<rparr>"

text \<open>\<open>device_system_copy_device\<close> and \<open>device_system_free_device\<close>.\<close>

definition device_system_copy_device :: "nat \<Rightarrow> monitors \<Rightarrow> monitors" where
  "device_system_copy_device n s =
     s\<lparr>devices := (devices s)(n := map_option (\<lambda>(i, c). (i, Suc c)) (devices s n))\<rparr>"

definition device_system_free_device :: "nat \<Rightarrow> monitors \<Rightarrow> monitors" where
  "device_system_free_device n s = s\<lparr>devices := (devices s)(n := (case devices s n of
     Some (i, Suc (Suc c)) \<Rightarrow> Some (i, Suc c) | _ \<Rightarrow> None))\<rparr>"

definition update_monitor :: "nat \<Rightarrow> (monitor \<Rightarrow> monitor) \<Rightarrow> monitors \<Rightarrow> monitors" where
  "update_monitor k f s = s\<lparr>mons := (mons s)[k := f (mons s ! k)]\<rparr>"

text \<open>What \<open>device_system_monitor_get_device\<close> makes of a byte in the pipe: the result, the device and
  the action, and the monitor without them.\<close>

definition monitor_get_device :: "monitor \<Rightarrow> result \<times> (nat \<times> device_action) option \<times> monitor" where
  "monitor_get_device m = (case data_pipe m of
     [] \<Rightarrow> (ResultFatalError, None, m)
   | b # p \<Rightarrow>
       if b = 1 \<and> queue m \<noteq> [] then (ResultSuccess, Some (hd (queue m)), m\<lparr>queue := tl (queue m), data_pipe := p\<rparr>)
       else (if b = 0 then ResultFatalError else ResultFail, None, m\<lparr>data_pipe := p\<rparr>))"

definition mutex_free :: "monitors \<Rightarrow> bool" where
  "mutex_free s \<longleftrightarrow> unix_worker s = WaitingEvent \<or> unix_worker s = EndedWorker"

section \<open>The steps\<close>

text \<open>\<open>cap\<close> is the number of bytes a pipe holds; a write to a full pipe waits.  The daemon asks for a
  device only when \<open>poll\<close> has found a byte in its monitor's pipe.\<close>

inductive monitor_step :: "nat \<Rightarrow> monitors \<Rightarrow> monitors \<Rightarrow> bool" for cap :: nat where
  receive: "unix_worker s = WaitingEvent \<Longrightarrow> a \<noteq> device_action_unknown \<Longrightarrow>
    monitor_step cap s (s\<lparr>devices := (devices s)(next_device s := Some (i, 1)), next_device := Suc (next_device s),
      unix_worker := AddingItem (next_device s) a 0\<rparr>)"
| add_item: "unix_worker s = AddingItem n a k \<Longrightarrow> k < length (mons s) \<Longrightarrow>
    monitor_step cap s ((device_system_copy_device n (update_monitor k (\<lambda>m. m\<lparr>queue := queue m @ [(n, a)]\<rparr>) s))
      \<lparr>unix_worker := WritingByte n a k\<rparr>)"
| write_byte: "unix_worker s = WritingByte n a k \<Longrightarrow> length (data_pipe (mons s ! k)) < cap \<Longrightarrow>
    monitor_step cap s ((update_monitor k (\<lambda>m. m\<lparr>data_pipe := data_pipe m @ [1]\<rparr>) s)
      \<lparr>unix_worker := AddingItem n a (Suc k)\<rparr>)"
| all_added: "unix_worker s = AddingItem n a k \<Longrightarrow> k = length (mons s) \<Longrightarrow>
    monitor_step cap s ((device_system_free_device n s)\<lparr>unix_worker := WaitingEvent\<rparr>)"
| item_fails: "unix_worker s = AddingItem n a k \<Longrightarrow> k < length (mons s) \<Longrightarrow>
    monitor_step cap s ((device_system_free_device n s)\<lparr>unix_worker := ClosingPipes 0 0\<rparr>)"
| worker_ends: "unix_worker s = WaitingEvent \<Longrightarrow> b = 0 \<or> b = 2 \<Longrightarrow>
    monitor_step cap s (s\<lparr>unix_worker := ClosingPipes b 0\<rparr>)"
| close_pipe: "unix_worker s = ClosingPipes b k \<Longrightarrow> k < length (mons s) \<Longrightarrow> length (data_pipe (mons s ! k)) < cap \<Longrightarrow>
    monitor_step cap s ((update_monitor k (\<lambda>m. m\<lparr>data_pipe := data_pipe m @ [b]\<rparr>) s)
      \<lparr>unix_worker := ClosingPipes b (Suc k)\<rparr>)"
| all_closed: "unix_worker s = ClosingPipes b k \<Longrightarrow> k = length (mons s) \<Longrightarrow>
    monitor_step cap s (s\<lparr>unix_worker := EndedWorker\<rparr>)"
| get_device: "mutex_free s \<Longrightarrow> k < length (mons s) \<Longrightarrow> data_pipe (mons s ! k) \<noteq> [] \<Longrightarrow>
    monitor_get_device (mons s ! k) = (r, d, m) \<Longrightarrow>
    monitor_step cap s ((update_monitor k (\<lambda>_. m) s)\<lparr>held := held s @ (case d of None \<Rightarrow> [] | Some (n, a) \<Rightarrow> [n])\<rparr>)"
| free_device: "mutex_free s \<Longrightarrow> n \<in> set (held s) \<Longrightarrow>
    monitor_step cap s ((device_system_free_device n s)\<lparr>held := remove1 n (held s)\<rparr>)"

inductive monitor_reachable :: "nat \<Rightarrow> nat \<Rightarrow> monitors \<Rightarrow> bool" for cap m :: nat where
  start: "monitor_reachable cap m (monitors_start m)"
| step: "monitor_reachable cap m s \<Longrightarrow> monitor_step cap s t \<Longrightarrow> monitor_reachable cap m t"

section \<open>References\<close>

text \<open>How often a device is referred to: by the worker, in the queues, and by the daemon.\<close>

definition worker_refs :: "unix_worker \<Rightarrow> nat \<Rightarrow> nat" where
  "worker_refs x n = (case x of AddingItem m a k \<Rightarrow> if m = n then 1 else 0 | WritingByte m a k \<Rightarrow> if m = n then 1 else 0 | _ \<Rightarrow> 0)"

definition queue_refs :: "monitor list \<Rightarrow> nat \<Rightarrow> nat" where
  "queue_refs ms n = sum_list (map (\<lambda>m. count_list (map fst (queue m)) n) ms)"

definition refs :: "monitors \<Rightarrow> nat \<Rightarrow> nat" where
  "refs s n = worker_refs (unix_worker s) n + queue_refs (mons s) n + count_list (held s) n"

definition agrees :: "(dtmd_info \<times> nat) option \<Rightarrow> nat \<Rightarrow> bool" where
  "agrees v c \<longleftrightarrow> map_option snd v = (if c = 0 then None else Some c)"

definition counted_by :: "(nat \<Rightarrow> nat) \<Rightarrow> (nat \<Rightarrow> (dtmd_info \<times> nat) option) \<Rightarrow> nat \<Rightarrow> bool" where
  "counted_by r d x \<longleftrightarrow> (\<forall>n. agrees (d n) (r n)) \<and> (\<forall>n \<ge> x. d n = None)"

definition counted :: "monitors \<Rightarrow> bool" where
  "counted s \<longleftrightarrow> counted_by (refs s) (devices s) (next_device s)"

lemma counted_by_update:
  "counted_by r d x \<Longrightarrow> x \<le> y \<Longrightarrow> n < y \<Longrightarrow> agrees v c \<Longrightarrow> counted_by (r(n := c)) (d(n := v)) y"
  by (auto simp: counted_by_def)

lemma counted_by_unused: "counted_by r d x \<Longrightarrow> r x = 0"
  by (auto simp: counted_by_def agrees_def dest!: spec [of _ x] split: if_splits)

lemma counted_by_some: "counted_by r d x \<Longrightarrow> 0 < r n \<Longrightarrow> n < x \<and> (\<exists>i. d n = Some (i, r n))"
  by (cases "n < x") (auto simp: counted_by_def agrees_def dest!: spec [of _ n])

lemma counted_by_new: "counted_by r d x \<Longrightarrow> counted_by (r(x := 1)) (d(x := Some (i, 1))) (Suc x)"
  by (rule counted_by_update) (auto simp: agrees_def)

lemma counted_by_copy:
  assumes "counted_by r d x" and "0 < r n"
  shows "counted_by (r(n := Suc (r n))) (d(n := map_option (\<lambda>(i, c). (i, Suc c)) (d n))) x"
  using counted_by_some [OF assms] assms by (intro counted_by_update) (auto simp: agrees_def)

lemma counted_by_free:
  assumes "counted_by r d x" and "0 < r n"
  shows "counted_by (r(n := r n - 1)) (d(n := (case d n of Some (i, Suc (Suc c)) \<Rightarrow> Some (i, Suc c) | _ \<Rightarrow> None))) x"
  using counted_by_some [OF assms] assms
  by (intro counted_by_update) (auto simp: agrees_def split: nat.splits)

lemma queue_refs_le: "k < length ms \<Longrightarrow> count_list (map fst (queue (ms ! k))) n \<le> queue_refs ms n"
  unfolding queue_refs_def by (rule elem_le_sum_list [of k "map (\<lambda>m. count_list (map fst (queue m)) n) ms", simplified])

lemma queue_refs_update:
  "k < length ms \<Longrightarrow> queue_refs (ms[k := m]) n + count_list (map fst (queue (ms ! k))) n =
     queue_refs ms n + count_list (map fst (queue m)) n"
  using queue_refs_le [of k ms n] by (simp add: queue_refs_def map_update sum_list_update)

lemma queue_refs_same: "queue m = queue (ms ! k) \<Longrightarrow> queue_refs (ms[k := m]) n = queue_refs ms n"
  using queue_refs_update [of k ms m n] by (cases "k < length ms") (auto simp: list_update_beyond)

lemma device_functions_simps [simp]:
  "mons (device_system_copy_device n s) = mons s" "unix_worker (device_system_copy_device n s) = unix_worker s"
  "held (device_system_copy_device n s) = held s" "next_device (device_system_copy_device n s) = next_device s"
  "mons (device_system_free_device n s) = mons s" "unix_worker (device_system_free_device n s) = unix_worker s"
  "held (device_system_free_device n s) = held s" "next_device (device_system_free_device n s) = next_device s"
  "mons (update_monitor k f s) = (mons s)[k := f (mons s ! k)]" "unix_worker (update_monitor k f s) = unix_worker s"
  "held (update_monitor k f s) = held s" "next_device (update_monitor k f s) = next_device s"
  "devices (update_monitor k f s) = devices s"
  by (simp_all add: device_system_copy_device_def device_system_free_device_def update_monitor_def)

lemma count_list_remove1 [simp]: "count_list (remove1 x xs) y = (if x = y then count_list xs y - 1 else count_list xs y)"
  by (induction xs) (auto simp: count_list_0_iff)

lemma monitor_get_device_queue:
  "monitor_get_device m = (r, d, t) \<Longrightarrow> queue m = (case d of None \<Rightarrow> [] | Some x \<Rightarrow> [x]) @ queue t"
  by (cases "queue m") (auto simp: monitor_get_device_def split: list.splits if_splits)

text \<open>What a step may do to the references: nothing, add a new device, add one, or drop one.\<close>

lemma counted_same: "counted s \<Longrightarrow> refs t = refs s \<Longrightarrow> devices t = devices s \<Longrightarrow> next_device t = next_device s \<Longrightarrow> counted t"
  by (simp add: counted_def)

lemma counted_new:
  "counted s \<Longrightarrow> refs t = (refs s)(next_device s := 1) \<Longrightarrow> devices t = (devices s)(next_device s := Some (i, 1)) \<Longrightarrow>
     next_device t = Suc (next_device s) \<Longrightarrow> counted t"
  unfolding counted_def by (simp only: counted_by_new)

lemma counted_copy:
  "counted s \<Longrightarrow> 0 < refs s n \<Longrightarrow> refs t = (refs s)(n := Suc (refs s n)) \<Longrightarrow>
     devices t = devices (device_system_copy_device n s) \<Longrightarrow> next_device t = next_device s \<Longrightarrow> counted t"
  unfolding counted_def device_system_copy_device_def by (simp add: counted_by_copy)

lemma counted_free:
  "counted s \<Longrightarrow> 0 < refs s n \<Longrightarrow> refs t = (refs s)(n := refs s n - 1) \<Longrightarrow>
     devices t = devices (device_system_free_device n s) \<Longrightarrow> next_device t = next_device s \<Longrightarrow> counted t"
  unfolding counted_def device_system_free_device_def by (simp add: counted_by_free [simplified])

lemma monitor_step_counted:
  assumes "monitor_step cap s t" and "counted s"
  shows "counted t"
  using assms
proof (induction rule: monitor_step.induct)
  case (receive s a i)
  have "refs s (next_device s) = 0" using receive.prems unfolding counted_def by (rule counted_by_unused)
  with receive.hyps show ?case
    by (intro counted_new [OF receive.prems] ext) (auto simp: refs_def worker_refs_def)
next
  case (add_item s n a k)
  have "queue_refs ((mons s)[k := (mons s ! k)\<lparr>queue := queue (mons s ! k) @ [(n, a)]\<rparr>]) x =
      queue_refs (mons s) x + (if x = n then 1 else 0)" for x
    using queue_refs_update [of k "mons s" "(mons s ! k)\<lparr>queue := queue (mons s ! k) @ [(n, a)]\<rparr>" x] add_item.hyps
    by auto
  with add_item.hyps show ?case
    by (intro counted_copy [OF add_item.prems, of n] ext)
      (auto simp: refs_def worker_refs_def device_system_copy_device_def)
next
  case (write_byte s n a k)
  then show ?case
    by (intro counted_same [OF write_byte.prems] ext) (auto simp: refs_def worker_refs_def queue_refs_same)
next
  case (all_added s n a k)
  then show ?case
    by (intro counted_free [OF all_added.prems, of n] ext)
      (auto simp: refs_def worker_refs_def device_system_free_device_def)
next
  case (item_fails s n a k)
  then show ?case
    by (intro counted_free [OF item_fails.prems, of n] ext)
      (auto simp: refs_def worker_refs_def device_system_free_device_def)
next
  case (worker_ends s b)
  then show ?case by (intro counted_same [OF worker_ends.prems] ext) (auto simp: refs_def worker_refs_def)
next
  case (close_pipe s b k)
  then show ?case
    by (intro counted_same [OF close_pipe.prems] ext) (auto simp: refs_def worker_refs_def queue_refs_same)
next
  case (all_closed s b k)
  then show ?case by (intro counted_same [OF all_closed.prems] ext) (auto simp: refs_def worker_refs_def)
next
  case (get_device s k r d m)
  let ?held = "case d of None \<Rightarrow> [] | Some (n, a) \<Rightarrow> [n]"
  have "map fst (queue (mons s ! k)) = ?held @ map fst (queue m)"
    using monitor_get_device_queue [OF get_device.hyps(4)] by (simp split: option.splits)
  then have "queue_refs ((mons s)[k := m]) x + count_list ?held x = queue_refs (mons s) x" for x
    using queue_refs_update [OF get_device.hyps(2), of m x] by simp
  then have "refs ((update_monitor k (\<lambda>_. m) s)\<lparr>held := held s @ ?held\<rparr>) = refs s"
    by (intro ext) (simp add: refs_def)
  then show ?case by (intro counted_same [OF get_device.prems]) simp_all
next
  case (free_device s n)
  then have "0 < count_list (held s) n"
    using count_list_0_iff [of "held s" n] by auto
  then show ?case
    by (intro counted_free [OF free_device.prems, of n] ext) (auto simp: refs_def device_system_free_device_def)
qed


section \<open>Bytes and queues\<close>

text \<open>A byte 1 stands in the pipe for every item of the queue, but for the item the worker has just
  added; the last byte of a worker is not 1.\<close>

definition byte_missing :: "unix_worker \<Rightarrow> nat \<Rightarrow> nat" where
  "byte_missing x j = (case x of WritingByte n a k \<Rightarrow> if k = j then 1 else 0 | _ \<Rightarrow> 0)"

definition worker_in_range :: "nat \<Rightarrow> unix_worker \<Rightarrow> bool" where
  "worker_in_range l x = (case x of AddingItem n a k \<Rightarrow> k \<le> l | WritingByte n a k \<Rightarrow> k < l |
     ClosingPipes b k \<Rightarrow> k \<le> l \<and> b \<noteq> 1 | _ \<Rightarrow> True)"

definition last_bytes_only :: "unix_worker \<Rightarrow> monitor \<Rightarrow> bool" where
  "last_bytes_only x m \<longleftrightarrow> (set (data_pipe m) \<subseteq> {1} \<or> (\<exists>b k. x = ClosingPipes b k) \<or> x = EndedWorker)"

definition bytes_match :: "nat \<Rightarrow> monitors \<Rightarrow> bool" where
  "bytes_match l s \<longleftrightarrow> length (mons s) = l \<and> worker_in_range l (unix_worker s) \<and>
     (\<forall>j < l. count_list (data_pipe (mons s ! j)) 1 + byte_missing (unix_worker s) j = length (queue (mons s ! j)) \<and>
       last_bytes_only (unix_worker s) (mons s ! j))"

lemmas bytes_match_defs = bytes_match_def byte_missing_def worker_in_range_def last_bytes_only_def

lemma monitor_get_device_bytes:
  assumes "monitor_get_device m = (r, d, t)" and "count_list (data_pipe m) 1 = length (queue m)"
  shows "count_list (data_pipe t) 1 = length (queue t)" and "set (data_pipe t) \<subseteq> set (data_pipe m)"
  using assms by (cases "queue m"; auto simp: monitor_get_device_def split: list.splits if_splits)+

lemma last_bytes_only_mono: "last_bytes_only x m \<Longrightarrow> set (data_pipe t) \<subseteq> set (data_pipe m) \<Longrightarrow> last_bytes_only x t"
  by (auto simp: last_bytes_only_def)

lemma monitor_step_bytes:
  assumes "monitor_step cap s t" and "bytes_match l s"
  shows "bytes_match l t"
  using assms
proof (induction rule: monitor_step.induct)
  case (get_device s k r d m)
  have "\<And>n a i. unix_worker s \<noteq> WritingByte n a i" using get_device.hyps(1) by (auto simp: mutex_free_def)
  then have "byte_missing (unix_worker s) j = 0" for j by (simp add: byte_missing_def split: unix_worker.splits)
  then show ?case
    using get_device.prems get_device.hyps monitor_get_device_bytes [OF get_device.hyps(4)]
    by (auto simp: bytes_match_def nth_list_update intro: last_bytes_only_mono)
qed (auto simp: bytes_match_defs nth_list_update mutex_free_def less_Suc_eq)

lemma monitor_reachable_inv:
  assumes "monitor_reachable cap l s"
  shows "counted s" and "bytes_match l s"
proof -
  have "counted s \<and> bytes_match l s"
    using assms
  proof (induction rule: monitor_reachable.induct)
    case start
    show ?case
      by (simp add: counted_def counted_by_def agrees_def refs_def worker_refs_def queue_refs_def monitors_start_def
          bytes_match_defs map_replicate_const sum_list_replicate)
  next
    case (step s t)
    then show ?case using monitor_step_counted monitor_step_bytes by blast
  qed
  then show "counted s" and "bytes_match l s" by simp_all
qed


section \<open>What the monitors promise\<close>

text \<open>C8. The reference counts of the devices are right at every moment, however the threads interleave:
  a device exists exactly as long as the worker, a queue or the daemon refers to it, and its counter is
  the number of these references.  So no device is used after it has been freed, and none is lost.\<close>

theorem device_counter_exact:
  "monitor_reachable cap l s \<Longrightarrow> (case devices s n of None \<Rightarrow> refs s n = 0 | Some (i, c) \<Rightarrow> c = refs s n \<and> 0 < c)"
  using monitor_reachable_inv(1) [of cap l s] counted_by_some [of "refs s" "devices s" "next_device s" n]
  by (cases "refs s n = 0") (auto simp: counted_def counted_by_def agrees_def dest!: spec [of _ n] split: option.splits)

text \<open>As long as the worker has not begun to end, a byte in the pipe of a monitor brings the daemon a
  device: reading one of them never fails, and never leaves the daemon without the device.\<close>

lemma byte_brings_device:
  assumes "monitor_reachable cap l s" and "k < l" and "data_pipe (mons s ! k) \<noteq> []"
    and "unix_worker s \<noteq> EndedWorker" and "\<forall>b j. unix_worker s \<noteq> ClosingPipes b j"
  shows "\<exists>d t. monitor_get_device (mons s ! k) = (ResultSuccess, Some d, t) \<and>
    queue (mons s ! k) = d # queue t"
proof -
  from monitor_reachable_inv(2) [OF assms(1)] assms
  have "set (data_pipe (mons s ! k)) \<subseteq> {1}" and
    "count_list (data_pipe (mons s ! k)) 1 \<le> length (queue (mons s ! k))"
    by (auto simp: bytes_match_def last_bytes_only_def)
  then show ?thesis using assms(3)
    by (cases "queue (mons s ! k)"; cases "data_pipe (mons s ! k)") (auto simp: monitor_get_device_def)
qed

section \<open>Waiting for each other\<close>

lemma adding_worker_finishes:
  assumes "unix_worker s = AddingItem n a k" and "k \<le> length (mons s)"
    and "\<forall>j < length (mons s). k \<le> j \<longrightarrow> length (data_pipe (mons s ! j)) < cap"
  shows "\<exists>t. (monitor_step cap)\<^sup>*\<^sup>* s t \<and> mutex_free t"
  using assms
proof (induction "length (mons s) - k" arbitrary: s k)
  case 0
  then have "monitor_step cap s ((device_system_free_device n s)\<lparr>unix_worker := WaitingEvent\<rparr>)"
    by (intro monitor_step.all_added) auto
  then show ?case by (auto simp: mutex_free_def)
next
  case (Suc x)
  define u where "u = (device_system_copy_device n (update_monitor k (\<lambda>m. m\<lparr>queue := queue m @ [(n, a)]\<rparr>) s))
      \<lparr>unix_worker := WritingByte n a k\<rparr>"
  define v where "v = (update_monitor k (\<lambda>m. m\<lparr>data_pipe := data_pipe m @ [1]\<rparr>) u)\<lparr>unix_worker := AddingItem n a (Suc k)\<rparr>"
  have "monitor_step cap s u" unfolding u_def using Suc by (intro monitor_step.add_item) auto
  moreover have "monitor_step cap u v" unfolding v_def using Suc by (intro monitor_step.write_byte) (auto simp: u_def)
  moreover have "\<exists>t. (monitor_step cap)\<^sup>*\<^sup>* v t \<and> mutex_free t"
    using Suc.hyps(2) Suc.prems by (intro Suc.hyps(1) [of v "Suc k"]) (auto simp: u_def v_def nth_list_update)
  ultimately show ?case by (meson converse_rtranclp_into_rtranclp)
qed

lemma closing_worker_finishes:
  assumes "unix_worker s = ClosingPipes b k" and "k \<le> length (mons s)"
    and "\<forall>j < length (mons s). k \<le> j \<longrightarrow> length (data_pipe (mons s ! j)) < cap"
  shows "\<exists>t. (monitor_step cap)\<^sup>*\<^sup>* s t \<and> mutex_free t"
  using assms
proof (induction "length (mons s) - k" arbitrary: s k)
  case 0
  then have "monitor_step cap s (s\<lparr>unix_worker := EndedWorker\<rparr>)"
    by (intro monitor_step.all_closed) auto
  then show ?case by (auto simp: mutex_free_def)
next
  case (Suc x)
  define v where "v = (update_monitor k (\<lambda>m. m\<lparr>data_pipe := data_pipe m @ [b]\<rparr>) s)\<lparr>unix_worker := ClosingPipes b (Suc k)\<rparr>"
  have "monitor_step cap s v" unfolding v_def using Suc by (intro monitor_step.close_pipe) auto
  moreover have "\<exists>t. (monitor_step cap)\<^sup>*\<^sup>* v t \<and> mutex_free t"
    using Suc.hyps(2) Suc.prems by (intro Suc.hyps(1) [of v "Suc k"]) (auto simp: v_def nth_list_update)
  ultimately show ?case by (meson converse_rtranclp_into_rtranclp)
qed

text \<open>C31. When every pipe has a free place, the worker can always go on by itself until it has released
  the mutex.\<close>

theorem worker_releases_mutex:
  assumes "monitor_reachable cap l s" and "\<forall>m \<in> set (mons s). length (data_pipe m) < cap"
  shows "\<exists>t. (monitor_step cap)\<^sup>*\<^sup>* s t \<and> mutex_free t"
proof (cases "unix_worker s")
  case (WritingByte n a k)
  define v where "v = (update_monitor k (\<lambda>m. m\<lparr>data_pipe := data_pipe m @ [1]\<rparr>) s)\<lparr>unix_worker := AddingItem n a (Suc k)\<rparr>"
  have k: "k < length (mons s)" using monitor_reachable_inv(2) [OF assms(1)] WritingByte
    by (auto simp: bytes_match_def worker_in_range_def)
  then have "monitor_step cap s v" unfolding v_def using WritingByte assms(2) by (intro monitor_step.write_byte) auto
  moreover have "\<exists>t. (monitor_step cap)\<^sup>*\<^sup>* v t \<and> mutex_free t"
    using k assms(2) by (intro adding_worker_finishes [of v n a "Suc k"]) (auto simp: v_def nth_list_update)
  ultimately show ?thesis by (meson converse_rtranclp_into_rtranclp)
next
  case (AddingItem n a k)
  then show ?thesis using monitor_reachable_inv(2) [OF assms(1)] assms(2)
    by (intro adding_worker_finishes) (auto simp: bytes_match_def worker_in_range_def)
next
  case (ClosingPipes b k)
  then show ?thesis using monitor_reachable_inv(2) [OF assms(1)] assms(2)
    by (intro closing_worker_finishes) (auto simp: bytes_match_def worker_in_range_def)
qed (auto simp: mutex_free_def)

inductive_cases stepE: "monitor_step cap s t"

lemma writing_worker_blocks:
  assumes "unix_worker s = WritingByte n a k" and "cap \<le> length (data_pipe (mons s ! k))"
  shows "\<not> monitor_step cap s t"
  using assms by (auto simp: mutex_free_def elim!: stepE)

lemma unread_events:
  "i \<le> cap \<Longrightarrow> \<exists>s. monitor_reachable cap 1 s \<and> unix_worker s = WaitingEvent \<and> length (mons s) = 1 \<and>
     length (data_pipe (mons s ! 0)) = i"
proof (induction i)
  case 0
  show ?case using monitor_reachable.start [of cap 1]
    by (intro exI [of _ "monitors_start 1"]) (auto simp: monitors_start_def)
next
  case (Suc i)
  then obtain s where s: "monitor_reachable cap 1 s" "unix_worker s = WaitingEvent" "length (mons s) = 1"
    "length (data_pipe (mons s ! 0)) = i" by auto
  let ?a = device_action_add and ?n = "next_device s"
  fix i0
  define t where "t = s\<lparr>devices := (devices s)(?n := Some (i0, 1)), next_device := Suc ?n, unix_worker := AddingItem ?n ?a 0\<rparr>"
  define u where "u = (device_system_copy_device ?n (update_monitor 0 (\<lambda>m. m\<lparr>queue := queue m @ [(?n, ?a)]\<rparr>) t))
      \<lparr>unix_worker := WritingByte ?n ?a 0\<rparr>"
  define v where "v = (update_monitor 0 (\<lambda>m. m\<lparr>data_pipe := data_pipe m @ [1]\<rparr>) u)\<lparr>unix_worker := AddingItem ?n ?a (Suc 0)\<rparr>"
  define w where "w = (device_system_free_device ?n v)\<lparr>unix_worker := WaitingEvent\<rparr>"
  have "monitor_step cap s t" unfolding t_def by (intro monitor_step.receive) (simp_all add: s)
  moreover have "monitor_step cap t u" unfolding u_def by (intro monitor_step.add_item) (simp_all add: t_def s)
  moreover have "monitor_step cap u v" unfolding v_def
    using Suc.prems by (intro monitor_step.write_byte) (simp_all add: u_def t_def s)
  moreover have "monitor_step cap v w" unfolding w_def by (intro monitor_step.all_added) (simp_all add: v_def u_def t_def s)
  ultimately have "monitor_reachable cap 1 w" using s(1) by (blast intro: monitor_reachable.step)
  moreover have "unix_worker w = WaitingEvent \<and> length (mons w) = 1 \<and> length (data_pipe (mons w ! 0)) = Suc i"
    by (simp add: w_def v_def u_def t_def s)
  ultimately show ?case by blast
qed

text \<open>C39. The worker writes to the pipe while it holds the mutex, and the daemon needs the mutex to read
  the pipe.  So when the daemon has left as many events unread as a pipe holds bytes, the next event
  stops both of them for good: no step is possible any more.\<close>

theorem full_pipe_deadlock:
  "\<exists>s n a. monitor_reachable cap 1 s \<and> unix_worker s = WritingByte n a 0 \<and> (\<forall>t. \<not> monitor_step cap s t)"
proof -
  obtain s where s: "monitor_reachable cap 1 s" "unix_worker s = WaitingEvent" "length (mons s) = 1"
    "length (data_pipe (mons s ! 0)) = cap" using unread_events [of cap cap] by auto
  let ?a = device_action_add and ?n = "next_device s"
  fix i0
  define t where "t = s\<lparr>devices := (devices s)(?n := Some (i0, 1)), next_device := Suc ?n, unix_worker := AddingItem ?n ?a 0\<rparr>"
  define u where "u = (device_system_copy_device ?n (update_monitor 0 (\<lambda>m. m\<lparr>queue := queue m @ [(?n, ?a)]\<rparr>) t))
      \<lparr>unix_worker := WritingByte ?n ?a 0\<rparr>"
  have "monitor_step cap s t" unfolding t_def by (intro monitor_step.receive) (simp_all add: s)
  moreover have "monitor_step cap t u" unfolding u_def by (intro monitor_step.add_item) (simp_all add: t_def s)
  ultimately have "monitor_reachable cap 1 u" using s(1) by (blast intro: monitor_reachable.step)
  moreover have u: "unix_worker u = WritingByte ?n ?a 0" by (simp add: u_def)
  moreover have "\<not> monitor_step cap u x" for x
    by (rule writing_worker_blocks [OF u]) (simp add: u_def t_def s)
  ultimately show ?thesis by blast
qed

section \<open>Witnesses\<close>

text \<open>The worker has queued its first event, and still refers to the device.\<close>

definition demo_event :: dtmd_info where
  "demo_event = found_device ''/dev/sdb'' media_subtype_removable_disk None media_type_stateless_device None None
     media_state_unknown"

definition demo_queued :: monitors where
  "demo_queued = \<lparr>mons = [\<lparr>queue = [(0, device_action_add)], data_pipe = [1]\<rparr>],
     devices = (\<lambda>_. None)(0 := Some (demo_event, 2)), next_device = 1,
     unix_worker = AddingItem 0 device_action_add 1, held = []\<rparr>"

lemma demo_queued_reachable: "monitor_reachable 5 1 demo_queued"
proof -
  let ?s = "monitors_start 1" and ?a = device_action_add
  define t where "t = ?s\<lparr>devices := (devices ?s)(next_device ?s := Some (demo_event, 1)),
      next_device := Suc (next_device ?s), unix_worker := AddingItem (next_device ?s) ?a 0\<rparr>"
  define u where "u = (device_system_copy_device 0 (update_monitor 0 (\<lambda>m. m\<lparr>queue := queue m @ [(0, ?a)]\<rparr>) t))
      \<lparr>unix_worker := WritingByte 0 ?a 0\<rparr>"
  have "monitor_step 5 ?s t" unfolding t_def by (intro monitor_step.receive) (simp_all add: monitors_start_def)
  moreover have "monitor_step 5 t u" unfolding u_def by (intro monitor_step.add_item) (simp_all add: t_def monitors_start_def)
  moreover have "monitor_step 5 u ((update_monitor 0 (\<lambda>m. m\<lparr>data_pipe := data_pipe m @ [1]\<rparr>) u)
      \<lparr>unix_worker := AddingItem 0 ?a (Suc 0)\<rparr>)" (is "monitor_step 5 u ?v")
    by (intro monitor_step.write_byte) (simp_all add: u_def t_def monitors_start_def)
  ultimately have "monitor_reachable 5 1 ?v" using monitor_reachable.start [of 5 1] by (blast intro: monitor_reachable.step)
  moreover have "?v = demo_queued"
    by (simp add: u_def t_def monitors_start_def demo_queued_def device_system_copy_device_def update_monitor_def
        numeral_2_eq_2)
  ultimately show ?thesis by simp
qed

theorem device_counter_exact_witness: "refs demo_queued 0 = 2"
  using device_counter_exact [OF demo_queued_reachable, of 0] by (simp add: demo_queued_def)

theorem worker_releases_mutex_witness: "\<exists>t. (monitor_step 5)\<^sup>*\<^sup>* demo_queued t \<and> mutex_free t"
  using worker_releases_mutex [OF demo_queued_reachable] by (simp add: demo_queued_def)

end
