(* ===== verification/Dtmd_Console.thy ===== *)
theory Dtmd_Console
  imports Dtmd_Requests
begin

text \<open>
  \<^verbatim>\<open>client/console/main.c\<close>: the console client.  A command opens a handle, makes one request and prints
  what it returns; \<^verbatim>\<open>monitor\<close> prints the notifications as they come.  What \<open>dtmd_init\<close> returns and how
  the answers arrive are inputs; what is printed is the result, with the exit status.
\<close>

section \<open>One device\<close>

text \<open>A printed field; nothing for a \<open>NULL\<close>.\<close>

definition text_line :: "string \<Rightarrow> string \<Rightarrow> string" where
  "text_line name v = name @ '': '' @ v @ [newline]"

definition optional_line :: "string \<Rightarrow> string option \<Rightarrow> string" where
  "optional_line name v = (case v of None \<Rightarrow> '''' | Some s \<Rightarrow> text_line name s)"

definition contents_lines :: "media_info \<Rightarrow> string" where
  "contents_lines i = optional_line ''Filesystem type'' (md_fstype i) @ optional_line ''Label'' (md_label i) @
     optional_line ''Mount point'' (md_mnt_point i) @ optional_line ''Mount options'' (md_mnt_opts i)"

definition helper_print_device :: "string \<Rightarrow> media_info \<Rightarrow> string" where
  "helper_print_device path i = (case md_type i of
     media_type_unknown_or_persistent \<Rightarrow> ''''
   | media_type_stateless_device \<Rightarrow> text_line ''Path'' path @ text_line ''Type'' (device_type_to_string (md_type i)) @
       text_line ''Subtype'' (device_subtype_to_string (md_subtype i))
   | media_type_stateful_device \<Rightarrow> text_line ''Path'' path @ text_line ''Type'' (device_type_to_string (md_type i)) @
       text_line ''Subtype'' (device_subtype_to_string (md_subtype i)) @
       text_line ''State'' (device_state_to_string (md_state i)) @ contents_lines i
   | media_type_device_partition \<Rightarrow> text_line ''Path'' path @ text_line ''Type'' (device_type_to_string (md_type i)) @
       contents_lines i)"

section \<open>A tree of devices\<close>

text \<open>\<open>print_device_recursive\<close> on each of a list of siblings.  \<open>print_first\<close> puts an empty line before
  every device but the first; the flag says whether there has been none yet.\<close>

definition print_first :: "bool \<Rightarrow> string" where
  "print_first first = (if first then '''' else [newline])"

fun print_device_recursive :: "media list \<Rightarrow> bool \<Rightarrow> string \<times> bool" where
  "print_device_recursive [] first = ('''', first)"
| "print_device_recursive (Media q i cs # ms) first =
     (let (below, f1) = print_device_recursive cs False; (rest, f2) = print_device_recursive ms f1
      in (print_first first @ helper_print_device q i @ below @ rest, f2))"

fun count_devices :: "media list \<Rightarrow> nat" where
  "count_devices [] = 0"
| "count_devices (Media q i cs # ms) =
     (case md_type i of
        media_type_stateless_device \<Rightarrow> 1 | media_type_stateful_device \<Rightarrow> 1
      | media_type_device_partition \<Rightarrow> 0 | media_type_unknown_or_persistent \<Rightarrow> 0) + count_devices cs + count_devices ms"

section \<open>The commands\<close>

text \<open>What a command leaves: its exit status, its output and what it wrote to the error output.  When the
  connection to the daemon comes or goes while a command other than \<^verbatim>\<open>monitor\<close> runs, the worker thread
  of the library prints a line of \<open>client_state_callback\<close> between those of the command; these lines are
  not part of \<open>stdout\<close>.\<close>

record console_end =
  status :: int
  stdout :: string
  stderr :: string

fun result_number :: "dtmd_result \<Rightarrow> int" where
  "result_number dtmd_ok = 0"
| "result_number dt_command_failed = -1"
| "result_number dtmd_timeout = -2"
| "result_number dtmd_not_connected = -3"
| "result_number dtmd_io_error = -4"
| "result_number dtmd_invalid_state = -5"
| "result_number dtmd_fatal_io_error = -6"
| "result_number dtmd_library_not_initialized = -7"
| "result_number dtmd_input_error = -8"
| "result_number dtmd_time_error = -9"
| "result_number dtmd_memory_error = -10"
| "result_number dtmd_internal_initialization_error = -11"
| "result_number dtmd_daemon_not_responding_error = -12"
| "result_number dtmd_label_decoding_error = -13"

definition print_number :: "int \<Rightarrow> string" where
  "print_number n = (if n < 0 then ''-'' @ decimal (nat (- n)) else decimal (nat n))"

text \<open>The result of \<open>dtmd_init\<close>, with the callbacks of the client.\<close>

type_synonym opened = "dtmd_result + handle"

definition with_handle :: "opened \<Rightarrow> (handle \<Rightarrow> console_end option) \<Rightarrow> console_end option" where
  "with_handle lib f = (case lib of
     Inl r \<Rightarrow> Some \<lparr>status = -1, stdout = '''',
       stderr = ''Couldn't initialize dtmd-library, error code: '' @ print_number (result_number r) @ [newline]\<rparr>
   | Inr h \<Rightarrow> f h)"

definition details :: "dtmd_result \<Rightarrow> handle \<Rightarrow> string" where
  "details r h = print_number (result_number r) @ '', details: '' @ error_code_to_string (handle_error_code h) @ [newline]"

definition client_list_all_removable_devices ::
  "command_parser \<Rightarrow> opened \<Rightarrow> dtmd_result \<Rightarrow> client_input list \<Rightarrow> console_end option" where
  "client_list_all_removable_devices ps lib captured is = with_handle lib (\<lambda>h.
     map_option (\<lambda>(r, h', devices).
       if r \<noteq> dtmd_ok
       then \<lparr>status = -1, stdout = '''', stderr = ''Couldn't enumerate devices, error code '' @ details r h'\<rparr>
       else \<lparr>status = 0, stdout = ''Found '' @ decimal (count_devices devices) @ '' devices'' @ [newline, newline] @
              fst (print_device_recursive devices True), stderr = ''''\<rparr>)
     (dtmd_list_all_removable_devices ps captured is h))"

definition client_list_removable_device ::
  "command_parser \<Rightarrow> string \<Rightarrow> opened \<Rightarrow> dtmd_result \<Rightarrow> client_input list \<Rightarrow> console_end option" where
  "client_list_removable_device ps path lib captured is = with_handle lib (\<lambda>h.
     map_option (\<lambda>(r, h', devices).
       if r \<noteq> dtmd_ok
       then \<lparr>status = -1, stdout = '''', stderr = ''Couldn't list device, error code '' @ details r h'\<rparr>
       else \<lparr>status = 0, stdout = fst (print_device_recursive devices True), stderr = ''''\<rparr>)
     (dtmd_list_removable_device ps (Some path) captured is h))"

text \<open>The commands that act on a device report the failure on the standard output.\<close>

definition print_action :: "string \<Rightarrow> dtmd_result \<times> handle \<Rightarrow> console_end" where
  "print_action name res = (case res of (r, h') \<Rightarrow>
     if r = dtmd_ok then \<lparr>status = 0, stdout = name @ '' successful!'' @ [newline], stderr = ''''\<rparr>
     else \<lparr>status = -1, stdout = name @ '' failed, error code '' @ details r h', stderr = ''''\<rparr>)"

definition client_mount ::
  "command_parser \<Rightarrow> string \<Rightarrow> string option \<Rightarrow> opened \<Rightarrow> dtmd_result \<Rightarrow> client_input list \<Rightarrow> console_end option" where
  "client_mount ps device mount_opts lib captured is = with_handle lib (\<lambda>h.
     map_option (print_action ''Mount'') (dtmd_mount ps (Some device) mount_opts captured is h))"

definition client_unmount ::
  "command_parser \<Rightarrow> string \<Rightarrow> opened \<Rightarrow> dtmd_result \<Rightarrow> client_input list \<Rightarrow> console_end option" where
  "client_unmount ps device lib captured is = with_handle lib (\<lambda>h.
     map_option (print_action ''Unmount'') (dtmd_unmount ps (Some device) captured is h))"

definition client_poweroff ::
  "command_parser \<Rightarrow> string \<Rightarrow> opened \<Rightarrow> dtmd_result \<Rightarrow> client_input list \<Rightarrow> console_end option" where
  "client_poweroff ps device lib captured is = with_handle lib (\<lambda>h.
     map_option (print_action ''Poweroff'') (dtmd_poweroff ps (Some device) captured is h))"

text \<open>The names of a list; the library has no \<open>NULL\<close> among them.\<close>

definition name_lines :: "string option list \<Rightarrow> string" where
  "name_lines names = concat (map (\<lambda>n. CHR 0x09 # the n @ [newline]) names)"

definition client_list_supported_filesystems ::
  "command_parser \<Rightarrow> opened \<Rightarrow> dtmd_result \<Rightarrow> client_input list \<Rightarrow> console_end option" where
  "client_list_supported_filesystems ps lib captured is = with_handle lib (\<lambda>h.
     map_option (\<lambda>(r, h', names).
       if r \<noteq> dtmd_ok
       then \<lparr>status = -1, stdout = '''', stderr = ''Couldn't list supported filesystems, error code '' @ details r h'\<rparr>
       else \<lparr>status = 0, stdout = ''Got '' @ decimal (length names) @ '' supported filesystems:'' @ [newline] @ name_lines names,
              stderr = ''''\<rparr>)
     (dtmd_list_supported_filesystems ps captured is h))"

definition client_list_supported_filesystem_options ::
  "command_parser \<Rightarrow> string \<Rightarrow> opened \<Rightarrow> dtmd_result \<Rightarrow> client_input list \<Rightarrow> console_end option" where
  "client_list_supported_filesystem_options ps filesystem lib captured is = with_handle lib (\<lambda>h.
     map_option (\<lambda>(r, h', names).
       if r \<noteq> dtmd_ok
       then \<lparr>status = -1, stdout = '''', stderr = ''Couldn't list supported filesystems, error code '' @ details r h'\<rparr>
       else \<lparr>status = 0, stdout = ''Got '' @ decimal (length names) @ '' supported filesystem options for '' @ filesystem @
              '':'' @ [newline] @ name_lines names, stderr = ''''\<rparr>)
     (dtmd_list_supported_filesystem_options ps (Some filesystem) captured is h))"

section \<open>Monitoring\<close>

text \<open>What the worker thread of the library calls while the client waits: the callback with a
  notification, or the one for the state of the connection; or a signal ends the waiting.\<close>

datatype monitor_event = Notified dt_command | StateIs connection_state | Signalled

record console_monitor =
  first :: bool
  run :: bool
  printed :: string

definition helper_callback_print_device :: "dt_command \<Rightarrow> handle \<Rightarrow> string" where
  "helper_callback_print_device c h = (case dtmd_fill_removable_device_from_notification False c h of
     (r, device, h') \<Rightarrow> (case device of
       Some (Media q i cs) \<Rightarrow> if r = dtmd_ok then helper_print_device q i else '''' | None \<Rightarrow> ''''))"

definition notice :: "string \<Rightarrow> console_monitor \<Rightarrow> console_monitor" where
  "notice t m = m\<lparr>first := False, printed := printed m @ print_first (first m) @ t\<rparr>"

text \<open>\<open>n\<close> arguments, none of them \<open>NULL\<close>.\<close>

definition with_args :: "dt_command \<Rightarrow> nat \<Rightarrow> bool" where
  "with_args c n \<longleftrightarrow> length (args c) = n \<and> list_all (\<lambda>a. a \<noteq> None) (args c)"

definition client_callback :: "handle \<Rightarrow> dt_command \<Rightarrow> console_monitor \<Rightarrow> console_monitor" where
  "client_callback h c m =
     (if strcmp (cmd c) ''removable_device_added'' = 0 \<and> is_notification_valid_removable_device c
      then notice (''Device added'' @ [newline] @ helper_callback_print_device c h) m
      else if strcmp (cmd c) ''removable_device_removed'' = 0 \<and> with_args c 1
      then notice (''Device removed'' @ [newline] @ text_line ''Path'' (the (args c ! 0))) m
      else if strcmp (cmd c) ''removable_device_changed'' = 0 \<and> is_notification_valid_removable_device c
      then notice (''Device changed'' @ [newline] @ helper_callback_print_device c h) m
      else if strcmp (cmd c) ''removable_device_mounted'' = 0 \<and> with_args c 3
      then notice (''Device mounted'' @ [newline] @ text_line ''Path'' (the (args c ! 0)) @
             text_line ''Mount point'' (the (args c ! 1)) @ text_line ''Mount options'' (the (args c ! 2))) m
      else if strcmp (cmd c) ''removable_device_unmounted'' = 0 \<and> with_args c 2
      then notice (''Device unmounted'' @ [newline] @ text_line ''Path'' (the (args c ! 0)) @
             text_line ''Mount point'' (the (args c ! 1))) m
      else m)"

definition client_state_callback :: "connection_state \<Rightarrow> console_monitor \<Rightarrow> console_monitor" where
  "client_state_callback s m = (case s of
     state_connected \<Rightarrow> m\<lparr>printed := printed m @ ''Connected to dtmd daemon'' @ [newline]\<rparr>
   | state_disconnected \<Rightarrow> m\<lparr>printed := printed m @ ''Disconnected from dtmd daemon'' @ [newline]\<rparr>
   | state_failure \<Rightarrow> m\<lparr>run := False, printed := printed m @ ''Got exit signal from daemon'' @ [newline]\<rparr>)"

definition monitor_event :: "handle \<Rightarrow> monitor_event \<Rightarrow> console_monitor \<Rightarrow> console_monitor" where
  "monitor_event h e m = (case e of
     Notified c \<Rightarrow> client_callback h c m
   | StateIs s \<Rightarrow> client_state_callback s m
   | Signalled \<Rightarrow> m\<lparr>run := False\<rparr>)"

text \<open>The events up to the end of the waiting; \<open>None\<close>: the client still waits.\<close>

fun monitor_loop :: "handle \<Rightarrow> monitor_event list \<Rightarrow> console_monitor \<Rightarrow> console_monitor option" where
  "monitor_loop h [] m = (if run m then None else Some m)"
| "monitor_loop h (e # es) m = (if run m then monitor_loop h es (monitor_event h e m) else Some m)"

definition client_monitor :: "bool \<Rightarrow> opened \<Rightarrow> monitor_event list \<Rightarrow> console_end option" where
  "client_monitor sigaction_ok lib es =
     (if \<not> sigaction_ok then Some \<lparr>status = -1, stdout = '''', stderr = ''Couldn't set signal handler'' @ [newline]\<rparr>
      else with_handle lib (\<lambda>h. map_option (\<lambda>m. \<lparr>status = 0, stdout = printed m, stderr = ''''\<rparr>)
        (monitor_loop h es \<lparr>first = True, run = True, printed = ''''\<rparr>)))"

section \<open>The command line\<close>

definition printUsage :: "string \<Rightarrow> string" where
  "printUsage app = ''USAGE: '' @ app @ '' command'' @ [newline] @
     concat (map (\<lambda>t. CHR 0x09 # t @ [newline]) (''where command is one of following:'' # map (\<lambda>t. CHR 0x09 # t)
       [''list_all'', ''list path'', ''mount device [ mount_options ]'', ''unmount device'', ''ls_fs'',
        ''ls_fs_opts filesystem'', ''poweroff device'', ''monitor'']))"

text \<open>\<open>None\<close> as well when the library waits for more than has arrived.\<close>

definition console_main ::
  "command_parser \<Rightarrow> string list \<Rightarrow> opened \<Rightarrow> dtmd_result \<Rightarrow> client_input list \<Rightarrow> bool \<Rightarrow> monitor_event list \<Rightarrow>
   console_end option" where
  "console_main ps argv lib captured is sigaction_ok es =
     (let argc = length argv; is_command = (\<lambda>name. strcmp (argv ! 1) name = 0) in
      if argc = 2 \<and> is_command ''list_all'' then client_list_all_removable_devices ps lib captured is
      else if argc = 3 \<and> is_command ''list'' then client_list_removable_device ps (argv ! 2) lib captured is
      else if (argc = 3 \<or> argc = 4) \<and> is_command ''mount''
      then client_mount ps (argv ! 2) (if argc = 4 then Some (argv ! 3) else None) lib captured is
      else if argc = 3 \<and> is_command ''unmount'' then client_unmount ps (argv ! 2) lib captured is
      else if argc = 2 \<and> is_command ''ls_fs'' then client_list_supported_filesystems ps lib captured is
      else if argc = 3 \<and> is_command ''ls_fs_opts''
      then client_list_supported_filesystem_options ps (argv ! 2) lib captured is
      else if argc = 3 \<and> is_command ''poweroff'' then client_poweroff ps (argv ! 2) lib captured is
      else if argc = 2 \<and> is_command ''monitor'' then client_monitor sigaction_ok lib es
      else Some \<lparr>status = -1, stdout = '''', stderr = printUsage (argv ! 0)\<rparr>)"

end
