(* ===== verification/Dtmd_Console_Spec.thy ===== *)
theory Dtmd_Console_Spec
  imports Dtmd_Session_Spec Dtmd_Console
begin

text \<open>
  What the console client prints, with the daemon at the other end of the connection: the listing of
  all devices shows the daemon's tree, and the commands tell what the daemon's operation did.
\<close>

section \<open>Printing a tree\<close>

definition print_node :: "node \<Rightarrow> string" where
  "print_node n = helper_print_device (node_path n) (snd (snd n))"

definition separated :: "string list \<Rightarrow> string" where
  "separated bs = (case bs of [] \<Rightarrow> '''' | b # cs \<Rightarrow> b @ concat (map (Cons newline) cs))"

lemma print_device_recursive_rest:
  "print_device_recursive ms False = (concat (map (\<lambda>n. newline # print_node n) (nodes par ms)), False)"
proof (induction ms arbitrary: par rule: media_induct)
  case (Cons q i cs ms)
  show ?case
    using Cons.IH(1) [of "Some q"] Cons.IH(2) [of par] by (simp add: print_first_def print_node_def)
qed simp

lemma print_device_recursive_all: "fst (print_device_recursive ms True) = separated (map print_node (nodes None ms))"
proof (cases ms)
  case (Cons m ns)
  obtain q i cs where m: "m = Media q i cs" by (cases m)
  show ?thesis
    using print_device_recursive_rest [of cs "Some q"] print_device_recursive_rest [of ns None]
    by (simp add: Cons m separated_def print_first_def print_node_def comp_def)
qed (simp add: separated_def)

definition counted_device :: "node \<Rightarrow> bool" where
  "counted_device n \<longleftrightarrow> md_type (snd (snd n)) \<in> {media_type_stateless_device, media_type_stateful_device}"

lemma count_devices_nodes: "count_devices ms = length (filter counted_device (nodes par ms))"
  by (induction ms arbitrary: par rule: media_induct) (auto simp: counted_device_def split: media_type.split)

text \<open>What the protocol does not carry of a device is not printed.\<close>

lemma print_client_view: "helper_print_device q (client_view i) = helper_print_device q i"
  by (cases "md_type i") (simp_all add: helper_print_device_def client_view_def contents_lines_def)

lemma type_client_view [simp]: "md_type (client_view i) = md_type i"
  by (simp add: client_view_def Let_def)

lemma print_client_tree: "map print_node (nodes None (client_tree ms)) = map print_node (nodes None ms)"
  by (simp add: client_tree_def nodes_map_tree print_node_def case_prod_unfold node_path_def print_client_view)

lemma count_client_tree: "count_devices (client_tree ms) = count_devices ms"
  by (induction ms rule: media_induct) (simp_all)

section \<open>Properties\<close>

text \<open>C3. The console client prints the daemon's devices: for \<^verbatim>\<open>list_all\<close> it exits with status 0 after
  printing the number of the disks and drives in the daemon's tree and then every device of the
  tree once, in the order of the tree, with an empty line between two of them.\<close>

theorem console_prints_devices:
  assumes "protocol_parser ps" and "dt_parse_command ps (rq_text list_all_request) = Some command"
    and "invoke_command os c fd command d k = (r, d', k')"
    and "sent (world d') = sent (world d) @ map (Pair fd) ms"
    and "writes (world d) = []" and "listable (removable_media_root d)" and "connected h ms is"
  shows "console_main ps [app, ''list_all''] (Inr h) dtmd_ok is sig es = Some \<lparr>status = 0,
    stdout = ''Found '' @ decimal (length (filter counted_device (nodes None (removable_media_root d)))) @ '' devices'' @
      [newline, newline] @ separated (map print_node (nodes None (removable_media_root d))), stderr = ''''\<rparr>"
proof -
  from listing_rebuilds_tree [OF assms] obtain h' where
    "dtmd_list_all_removable_devices ps dtmd_ok is h = Some (dtmd_ok, h', client_tree (removable_media_root d))" by blast
  then show ?thesis
    by (simp add: console_main_def client_list_all_removable_devices_def with_handle_def print_device_recursive_all
        print_client_tree count_client_tree count_devices_nodes [of "removable_media_root d" None])
qed

text \<open>The command line for an action.\<close>

definition console_words :: "dt_command \<Rightarrow> string list" where
  "console_words c = (if cmd c = command_mount then ''mount'' # the (args c ! 0) # (case args c ! 1 of None \<Rightarrow> [] | Some o' \<Rightarrow> [o'])
     else if cmd c = command_unmount then [''unmount'', the (args c ! 0)] else [''poweroff'', the (args c ! 0)])"

definition action_title :: "dt_command \<Rightarrow> string" where
  "action_title c = (if cmd c = command_mount then ''Mount'' else if cmd c = command_unmount then ''Unmount'' else ''Poweroff'')"

lemma console_action:
  assumes "action_command c" and "wire_command c"
  shows "console_main ps (app # console_words c) (Inr h) captured is sig es =
    map_option (print_action (action_title c)) (call_action ps c captured is h)"
  using assms
proof (cases rule: action_cases)
  case (mount p o')
  then show ?thesis
    by (cases o') (simp_all add: console_main_def console_words_def action_title_def call_action_def client_mount_def
        with_handle_def)
next
  case (unmount p)
  then show ?thesis
    by (simp add: console_main_def console_words_def action_title_def call_action_def client_unmount_def with_handle_def
        command_names)
next
  case (poweroff p)
  then show ?thesis
    by (simp add: console_main_def console_words_def action_title_def call_action_def client_poweroff_def with_handle_def
        command_names)
qed

text \<open>C7. The console client tells the truth about an action: \<^verbatim>\<open>mount\<close>, \<^verbatim>\<open>unmount\<close> and \<^verbatim>\<open>poweroff\<close> exit with
  status 0 and report success exactly when the daemon's operation succeeded; otherwise the status
  is -1 and the message ends with the text for the daemon's error code.\<close>

theorem console_reports_action:
  assumes "protocol_parser ps" and "action_command command" and "wire_command command"
    and "dt_parse_command ps (rq_text (action_request_of command)) = Some command'"
    and "invoke_command os c fd command' d k = (r2, d', k')" and "run_action os c fd command d k = (r, e, w1, k1)"
    and "sent (world d') = sent (world d) @ map (Pair fd) ms"
    and "writes (world d) = []" and "fits (action_answer command e)"
    and "list_all notification ns" and "list_all fits ns" and "connected h (map wire_message ns @ ms) is"
  shows "console_main ps (app # console_words command) (Inr h) dtmd_ok is sig es = Some (
    if r = ResultSuccess then \<lparr>status = 0, stdout = action_title command @ '' successful!'' @ [newline], stderr = ''''\<rparr>
    else \<lparr>status = -1, stdout = action_title command @ '' failed, error code -1, details: '' @
      error_code_to_string (the e) @ [newline], stderr = ''''\<rparr>)"
proof -
  from action_reported [OF assms] obtain h' where h': "call_action ps command dtmd_ok is h =
      Some (if r = ResultSuccess then dtmd_ok else dt_command_failed, h')"
    "r \<noteq> ResultSuccess \<longrightarrow> e = Some (handle_error_code h')" by blast
  have "print_number (-1) = ''-1''" by code_simp
  with h' show ?thesis
    by (simp add: console_action [OF assms(2,3)] print_action_def details_def del: error_code_to_string.simps)
qed

section \<open>Witnesses\<close>

theorem console_prints_devices_witness:
  "console_main wire_parser [''dtmd-console'', ''list_all''] (Inr (demo_client disk_answer)) dtmd_ok (demo_reads disk_answer)
      True [] = Some \<lparr>status = 0,
    stdout = ''Found '' @ decimal (length (filter counted_device (nodes None (removable_media_root disk_daemon)))) @ '' devices'' @
      [newline, newline] @ separated (map print_node (nodes None (removable_media_root disk_daemon))), stderr = ''''\<rparr>"
proof -
  obtain r d' k' where i: "invoke_command demo_os initial_config 5 \<lparr>cmd = command_list_all, args = []\<rparr> disk_daemon demo_kernel = (r, d', k')"
    by (metis prod_cases3)
  have s: "sent (world d') = sent (world disk_daemon) @ map (Pair 5) (map wire_message disk_answer)"
    using daemon_lists_all [OF disk_find(3) listable_known [OF disk_listable] i] by (simp add: disk_answer_def)
  show ?thesis
    by (rule console_prints_devices [OF wire_parser_protocol all_request_parsed [OF wire_parser_protocol] i s disk_find(3)
        disk_listable demo_connected])
qed

theorem console_reports_action_witness:
  "console_main wire_parser [''dtmd-console'', ''poweroff'', ''/dev/sdc''] (Inr (demo_client poweroff_messages)) dtmd_ok
     (demo_reads poweroff_messages) True [] =
   Some \<lparr>status = 0, stdout = ''Poweroff successful!'' @ [newline], stderr = ''''\<rparr>"
proof -
  obtain r d' k' where i: "invoke_command demo_os initial_config 7 poweroff_command stateless_daemon demo_kernel = (r, d', k')"
    and s: "sent (world d') = sent (world stateless_daemon) @ map (Pair 7) [wire_message (action_answer poweroff_command None)]"
    by (rule poweroff_session)
  have w: "console_words poweroff_command = [''poweroff'', ''/dev/sdc'']" "action_title poweroff_command = ''Poweroff''"
    by code_simp+
  from console_reports_action [OF wire_parser_protocol poweroff_facts(1,2) poweroff_parsed i poweroff_runs(1) s poweroff_runs(2)
      poweroff_facts(3) gone_notified poweroff_facts(4) poweroff_connected, of "''dtmd-console''" True "[]"]
  show ?thesis by (simp add: w)
qed

end
