(* ===== verification/Dtmd_Start.thy ===== *)
theory Dtmd_Start
  imports Dtmd_Prelude
begin

text \<open>
  How daemons that are started beside each other settle which of them runs: the lock file and
  the socket in the file system (\<^verbatim>\<open>main\<close> in \<^verbatim>\<open>daemon/daemon-main.c\<close>, from the opening of the lock
  file to \<open>listen\<close>, and its exit labels).  A step is one system call of one of the processes; the
  steps interleave freely.  A process stands for the chain of processes \<open>fork\<close> makes of it, which share
  the lock.
\<close>

section \<open>The state\<close>

text \<open>Where a process is, with the file it has open as the lock file: files are numbered as they are
  created.  \<open>GivingUp\<close> is the label \<open>exit_3\<close>, \<open>Ending\<close> the label \<open>exit_4\<close>.\<close>

datatype start_pos = Outside | Opened nat | LockHeld nat | SocketCleared nat | Serving nat | GivingUp nat | Ending nat | LastClose nat

record lock_files =
  lock_file :: "nat option"
  next_file :: nat
  flocked :: "nat \<Rightarrow> nat option"
  socket_file :: "nat option"
  start_pos :: "nat \<Rightarrow> start_pos"

definition files_start :: lock_files where
  "files_start = \<lparr>lock_file = None, next_file = 0, flocked = (\<lambda>_. None), socket_file = None, start_pos = (\<lambda>_. Outside)\<rparr>"

definition goes :: "nat \<Rightarrow> start_pos \<Rightarrow> lock_files \<Rightarrow> lock_files" where
  "goes p x s = s\<lparr>start_pos := (start_pos s)(p := x)\<rparr>"

text \<open>The end of a process, by itself or by a signal, gives its lock back.\<close>

definition unlock :: "nat \<Rightarrow> lock_files \<Rightarrow> lock_files" where
  "unlock p s = s\<lparr>flocked := (\<lambda>i. if flocked s i = Some p then None else flocked s i)\<rparr>"

section \<open>The steps\<close>

text \<open>\<open>removing\<close>: the processes get as far as removing the lock file.  A signal can kill a process
  anywhere; its files stay.\<close>

inductive start_step :: "bool \<Rightarrow> lock_files \<Rightarrow> lock_files \<Rightarrow> bool" for removing :: bool where
  open_lock: "start_pos s p = Outside \<Longrightarrow> lock_file s = Some i \<Longrightarrow> start_step removing s (goes p (Opened i) s)"
| create_lock: "start_pos s p = Outside \<Longrightarrow> lock_file s = None \<Longrightarrow>
    start_step removing s (goes p (Opened (next_file s)) (s\<lparr>lock_file := Some (next_file s), next_file := Suc (next_file s)\<rparr>))"
| flock: "start_pos s p = Opened i \<Longrightarrow> flocked s i = None \<Longrightarrow>
    start_step removing s (goes p (LockHeld i) (s\<lparr>flocked := (flocked s)(i := Some p)\<rparr>))"
| flock_failed: "start_pos s p = Opened i \<Longrightarrow> start_step removing s (goes p (GivingUp i) s)"
| unlink_socket: "start_pos s p = LockHeld i \<Longrightarrow> start_step removing s (goes p (SocketCleared i) (s\<lparr>socket_file := None\<rparr>))"
| bind_listen: "start_pos s p = SocketCleared i \<Longrightarrow> socket_file s = None \<Longrightarrow>
    start_step removing s (goes p (Serving i) (s\<lparr>socket_file := Some p\<rparr>))"
| bind_failed: "start_pos s p = SocketCleared i \<Longrightarrow> start_step removing s (goes p (GivingUp i) s)"
| finish: "start_pos s p = Serving i \<Longrightarrow> start_step removing s (goes p (Ending i) (s\<lparr>socket_file := None\<rparr>))"
| unlink_lock: "removing \<Longrightarrow> start_pos s p = Ending i \<or> start_pos s p = GivingUp i \<Longrightarrow>
    start_step removing s (goes p (LastClose i) (s\<lparr>lock_file := None\<rparr>))"
| close_lock: "start_pos s p = LastClose i \<Longrightarrow> start_step removing s (goes p Outside (unlock p s))"
| killed: "start_step removing s (goes p Outside (unlock p s))"

inductive start_reachable :: "bool \<Rightarrow> lock_files \<Rightarrow> bool" for removing :: bool where
  start: "start_reachable removing files_start"
| step: "start_reachable removing s \<Longrightarrow> start_step removing s t \<Longrightarrow> start_reachable removing t"

section \<open>While the lock file stays\<close>

fun opened_file :: "start_pos \<Rightarrow> nat option" where
  "opened_file Outside = None"
| "opened_file (Opened i) = Some i"
| "opened_file (LockHeld i) = Some i"
| "opened_file (SocketCleared i) = Some i"
| "opened_file (Serving i) = Some i"
| "opened_file (GivingUp i) = Some i"
| "opened_file (Ending i) = Some i"
| "opened_file (LastClose i) = Some i"

fun past_lock :: "start_pos \<Rightarrow> nat option" where
  "past_lock (LockHeld i) = Some i"
| "past_lock (SocketCleared i) = Some i"
| "past_lock (Serving i) = Some i"
| "past_lock (Ending i) = Some i"
| "past_lock _ = None"

text \<open>A process past the lock holds it; and as long as no file is removed there is one file.\<close>

definition process_ok :: "bool \<Rightarrow> lock_files \<Rightarrow> nat \<Rightarrow> bool" where
  "process_ok removing s q \<longleftrightarrow>
     (\<forall>i. past_lock (start_pos s q) = Some i \<longrightarrow> flocked s i = Some q) \<and>
     (\<forall>i. flocked s i = Some q \<longrightarrow> opened_file (start_pos s q) = Some i) \<and>
     (\<forall>i. opened_file (start_pos s q) = Some i \<longrightarrow> i < next_file s \<and> (\<not> removing \<longrightarrow> lock_file s = Some i)) \<and>
     (\<not> removing \<longrightarrow> (\<forall>i. start_pos s q = Serving i \<longrightarrow> socket_file s = Some q))"

definition files_ok :: "bool \<Rightarrow> lock_files \<Rightarrow> bool" where
  "files_ok removing s \<longleftrightarrow> (\<forall>q. process_ok removing s q) \<and> (\<forall>i. lock_file s = Some i \<longrightarrow> i < next_file s)"

lemma goes_simps [simp]:
  "start_pos (goes p x s) q = (if q = p then x else start_pos s q)" "lock_file (goes p x s) = lock_file s"
  "next_file (goes p x s) = next_file s" "flocked (goes p x s) = flocked s" "socket_file (goes p x s) = socket_file s"
  "start_pos (unlock p s) = start_pos s" "lock_file (unlock p s) = lock_file s" "next_file (unlock p s) = next_file s"
  "flocked (unlock p s) i = (if flocked s i = Some p then None else flocked s i)" "socket_file (unlock p s) = socket_file s"
  by (auto simp: goes_def unlock_def)

lemma files_okD: "files_ok removing s \<Longrightarrow> process_ok removing s q"
  by (simp add: files_ok_def)

text \<open>Who is past the lock is alone there.\<close>

lemma past_lock_unique:
  assumes "files_ok False s" and "past_lock (start_pos s p) = Some i" and "past_lock (start_pos s q) = Some j"
  shows "p = q \<and> i = j"
proof -
  have o: "past_lock x = Some k \<Longrightarrow> opened_file x = Some k" for x k by (cases x) simp_all
  have "lock_file s = Some i" "lock_file s = Some j" "flocked s i = Some p" "flocked s j = Some q"
    using files_okD [OF assms(1), of p] files_okD [OF assms(1), of q] assms(2,3) o by (auto simp: process_ok_def)
  then show ?thesis by simp
qed

lemma start_step_ok:
  assumes "start_step removing s t" and ok: "files_ok removing s"
  shows "files_ok removing t"
proof -
  have alone: "start_pos s q \<noteq> Serving j" if "\<not> removing" "past_lock (start_pos s p) = Some i" "q \<noteq> p" for p q i j
    using past_lock_unique [of s p i q j] ok that by auto
  have bound: "lock_file t = Some i \<Longrightarrow> i < next_file t" for i
    using assms(1) ok by cases (auto simp: files_ok_def less_Suc_eq)
  have "process_ok removing t q" for q
    using assms(1)
  proof cases
    case (unlink_socket p i)
    then show ?thesis
      using files_okD [OF ok, of q] alone [of p i q] by (cases "q = p") (auto simp: process_ok_def)
  next
    case (bind_listen p i)
    then show ?thesis
      using files_okD [OF ok, of q] alone [of p i q] by (cases "q = p") (auto simp: process_ok_def)
  next
    case (finish p i)
    then show ?thesis
      using files_okD [OF ok, of q] alone [of p i q] by (cases "q = p") (auto simp: process_ok_def)
  next
    case (open_lock p i)
    then show ?thesis
      using files_okD [OF ok, of q] ok by (cases "q = p") (auto simp: process_ok_def files_ok_def)
  next
    case (create_lock p)
    then show ?thesis
      using files_okD [OF ok, of q] by (cases "q = p") (auto simp: process_ok_def less_Suc_eq)
  next
    case (flock p i)
    then show ?thesis
      using files_okD [OF ok, of q] by (cases "q = p") (auto simp: process_ok_def)
  next
    case (flock_failed p i)
    then show ?thesis
      using files_okD [OF ok, of q] by (cases "q = p") (simp_all add: process_ok_def)
  next
    case (bind_failed p i)
    then show ?thesis
      using files_okD [OF ok, of q] by (cases "q = p") (auto simp: process_ok_def)
  next
    case (unlink_lock p i)
    then have "opened_file (start_pos s p) = Some i" by auto
    then show ?thesis
      using files_okD [OF ok, of q] unlink_lock(1,2) by (cases "q = p") (auto simp: process_ok_def)
  next
    case (close_lock p i)
    then show ?thesis
      using files_okD [OF ok, of q] by (cases "q = p") (auto simp: process_ok_def)
  next
    case (killed p)
    then show ?thesis
      using files_okD [OF ok, of q] by (cases "q = p") (auto simp: process_ok_def)
  qed
  with bound show ?thesis by (simp add: files_ok_def)
qed

lemma start_reachable_ok: "start_reachable removing s \<Longrightarrow> files_ok removing s"
  by (induction rule: start_reachable.induct)
    (simp add: files_ok_def process_ok_def files_start_def, blast intro: start_step_ok)

section \<open>Properties\<close>

text \<open>C9. Until a lock file is removed for the first time at most one daemon runs, and the socket in the
  file system is its own.\<close>

theorem single_daemon:
  assumes "start_reachable False s" and "start_pos s p = Serving i"
  shows "(\<forall>q j. start_pos s q = Serving j \<longrightarrow> q = p) \<and> socket_file s = Some p \<and> lock_file s = Some i \<and> flocked s i = Some p"
proof -
  note ok = start_reachable_ok [OF assms(1)]
  have "q = p" if "start_pos s q = Serving j" for q j
    using past_lock_unique [OF ok, of q j p i] that assms(2) by simp
  moreover have "socket_file s = Some p \<and> lock_file s = Some i \<and> flocked s i = Some p"
    using files_okD [OF ok, of p] assms(2) by (simp add: process_ok_def)
  ultimately show ?thesis by blast
qed

text \<open>A start that finds the lock taken removes the lock file, and the next start makes a new one.\<close>

inductive start_steps :: "bool \<Rightarrow> lock_files \<Rightarrow> lock_files \<Rightarrow> bool" for removing :: bool where
  start_none: "start_steps removing s s"
| start_more: "start_step removing s t \<Longrightarrow> start_steps removing t u \<Longrightarrow> start_steps removing s u"

lemma start_steps_reachable: "start_steps removing s t \<Longrightarrow> start_reachable removing s \<Longrightarrow> start_reachable removing t"
  by (induction rule: start_steps.induct) (auto intro: start_reachable.step)

lemma refused_start:
  assumes "start_pos s q = Outside" and "lock_file s = Some i" and "flocked s i = Some p" and "p \<noteq> q"
  shows "start_steps True s (s\<lparr>lock_file := None, flocked := (\<lambda>j. if flocked s j = Some q then None else flocked s j),
    start_pos := (start_pos s)(q := Outside)\<rparr>)"
proof -
  let ?s1 = "goes q (Opened i) s"
  let ?s2 = "goes q (GivingUp i) ?s1"
  let ?s3 = "goes q (LastClose i) (?s2\<lparr>lock_file := None\<rparr>)"
  have "start_step True s ?s1" using assms by (intro start_step.open_lock)
  moreover have "start_step True ?s1 ?s2" by (rule start_step.flock_failed) simp
  moreover have "start_step True ?s2 ?s3" by (rule start_step.unlink_lock) simp_all
  moreover have "start_step True ?s3 (goes q Outside (unlock q ?s3))" by (rule start_step.close_lock) simp
  ultimately have "start_steps True s (goes q Outside (unlock q ?s3))" by (blast intro: start_steps.intros)
  then show ?thesis by (simp add: goes_def unlock_def cong: if_cong)
qed

lemma fresh_start:
  assumes "start_pos s r = Outside" and "lock_file s = None" and "flocked s (next_file s) = None"
  shows "start_steps removing s (s\<lparr>lock_file := Some (next_file s), next_file := Suc (next_file s),
    flocked := (flocked s)(next_file s := Some r), socket_file := Some r, start_pos := (start_pos s)(r := Serving (next_file s))\<rparr>)"
proof -
  let ?i = "next_file s"
  let ?s1 = "goes r (Opened ?i) (s\<lparr>lock_file := Some ?i, next_file := Suc ?i\<rparr>)"
  let ?s2 = "goes r (LockHeld ?i) (?s1\<lparr>flocked := (flocked ?s1)(?i := Some r)\<rparr>)"
  let ?s3 = "goes r (SocketCleared ?i) (?s2\<lparr>socket_file := None\<rparr>)"
  let ?s4 = "goes r (Serving ?i) (?s3\<lparr>socket_file := Some r\<rparr>)"
  have "start_step removing s ?s1" using assms by (intro start_step.create_lock)
  moreover have "start_step removing ?s1 ?s2" by (rule start_step.flock) (simp_all add: assms)
  moreover have "start_step removing ?s2 ?s3" by (rule start_step.unlink_socket) simp
  moreover have "start_step removing ?s3 ?s4" by (rule start_step.bind_listen) simp_all
  ultimately have "start_steps removing s ?s4" by (blast intro: start_steps.intros)
  then show ?thesis by (simp add: goes_def)
qed

lemma start_steps_trans: "start_steps True s t \<Longrightarrow> start_steps True t u \<Longrightarrow> start_steps True s u"
  by (induction rule: start_steps.induct) (auto intro: start_steps.intros)

text \<open>C40. Beside a running daemon one start is refused, but the next one succeeds: the refused one has
  removed the lock file of the running daemon, so that the next one locks a new file.  Then two
  daemons run, and new clients reach the second.\<close>

theorem refused_start_unlocks:
  assumes "start_reachable True s" and "start_pos s p = Serving i" and "lock_file s = Some i"
    and "start_pos s q = Outside" and "start_pos s r = Outside" and "q \<noteq> r"
  shows "\<exists>t j. start_steps True s t \<and> start_pos t p = Serving i \<and> start_pos t q = Outside \<and> start_pos t r = Serving j \<and>
    j \<noteq> i \<and> lock_file t = Some j \<and> socket_file t = Some r"
proof -
  note ok = start_reachable_ok [OF assms(1)]
  have locked: "flocked s i = Some p" "i < next_file s"
    using files_okD [OF ok, of p] assms(2) by (auto simp: process_ok_def)
  have ne: "p \<noteq> q" "p \<noteq> r" using assms by auto
  let ?t = "s\<lparr>lock_file := None, flocked := (\<lambda>j. if flocked s j = Some q then None else flocked s j),
    start_pos := (start_pos s)(q := Outside)\<rparr>"
  have fresh: "flocked ?t (next_file ?t) = None"
  proof (cases "flocked s (next_file s)")
    case (Some x)
    then have "next_file s < next_file s" using files_okD [OF ok, of x] by (auto simp: process_ok_def)
    then show ?thesis by simp
  qed simp
  have "start_steps True s ?t" using refused_start [OF assms(4,3) locked(1) ne(1)] .
  from start_steps_trans [OF this fresh_start [of ?t r True]] fresh
  have "start_steps True s (?t\<lparr>lock_file := Some (next_file s), next_file := Suc (next_file s),
    flocked := (flocked ?t)(next_file s := Some r), socket_file := Some r, start_pos := (start_pos ?t)(r := Serving (next_file s))\<rparr>)"
    using assms by simp
  then show ?thesis using assms locked ne by (intro exI conjI) (assumption | simp)+
qed

section \<open>Witnesses\<close>

definition one_daemon :: lock_files where
  "one_daemon = \<lparr>lock_file = Some 0, next_file = 1, flocked = [0 \<mapsto> 0], socket_file = Some 0,
     start_pos = (\<lambda>_. Outside)(0 := Serving 0)\<rparr>"

lemma one_daemon_reachable: "start_reachable removing one_daemon"
  using start_steps_reachable [OF fresh_start [of files_start 0] start_reachable.start]
  by (simp add: files_start_def one_daemon_def)

theorem single_daemon_witness: "socket_file one_daemon = Some 0"
  using single_daemon [OF one_daemon_reachable, of 0 0] by (simp add: one_daemon_def)

theorem refused_start_unlocks_witness:
  "\<exists>t j. start_steps True one_daemon t \<and> start_pos t 0 = Serving 0 \<and> start_pos t 2 = Serving j \<and> j \<noteq> 0"
  using refused_start_unlocks [OF one_daemon_reachable, of 0 0 1 2] by (auto simp: one_daemon_def)

end
