(* ===== verification/Dtmd_Lifecycle.thy ===== *)
theory Dtmd_Lifecycle
  imports Dtmd_Session_Spec
begin

text \<open>
  Setting up and tearing down: \<open>dtmd_init\<close> and \<open>dtmd_deinit\<close> of \<^verbatim>\<open>library/dtmd-library.c\<close>, and the device system
  with its monitors and enumerations in \<^verbatim>\<open>daemon/modules/unix-userspace/system_module.c\<close>.  The operations
  return, beside their result, what they acquire and release in their order.
\<close>

section \<open>What is held\<close>

datatype 'r resource_op = Acquire 'r | Release 'r

text \<open>What is held after the operations; \<open>None\<close> when something is released that is not held, or
  acquired twice.\<close>

fun held_after :: "'r resource_op list \<Rightarrow> 'r set \<Rightarrow> 'r set option" where
  "held_after [] R = Some R"
| "held_after (Acquire r # ops) R = (if r \<in> R then None else held_after ops (insert r R))"
| "held_after (Release r # ops) R = (if r \<in> R then held_after ops (R - {r}) else None)"

lemma held_after_append: "held_after (xs @ ys) R = Option.bind (held_after xs R) (held_after ys)"
  by (induction xs R rule: held_after.induct) auto

section \<open>A handle of the library\<close>

datatype client_resource = HandleMemory | WatchDirName | WatchFd | DirWatch | CallerSemaphore | FeedbackPipe |
  RequestPipe | SocketFd | WorkerThread

text \<open>Which of the calls succeed, in their order; \<open>connecting\<close> is what \<open>dtmd_try_connecting\<close> finds.\<close>

record client_setup =
  handle_allocated :: bool
  name_copied :: bool
  inotify_opened :: bool
  watch_added :: bool
  semaphore_made :: bool
  feedback_made :: bool
  pipes_made :: bool
  connecting :: connect_outcome
  thread_started :: bool

definition new_handle :: "string \<Rightarrow> io \<Rightarrow> handle" where
  "new_handle inc w = \<lparr>socket_fd = -1, result_state = dtmd_ok, handle_error_code = error_code_unknown,
     library_state = state_default, h_buffer = '''', incoming = inc, callbacks = [], state_callbacks = [],
     to_worker = [], feedback = [], h_world = w\<rparr>"

text \<open>The error labels, each of which runs into the next one.  Closing the socket without a connection
  is a call on the descriptor -1, which does nothing.\<close>

fun init_released :: "int \<Rightarrow> nat \<Rightarrow> client_resource list" where
  "init_released fd n = (
     if n = 9 then (if fd \<ge> 0 then [SocketFd] else [])
     else if n = 8 then [RequestPipe]
     else if n = 7 then [FeedbackPipe]
     else if n = 6 then [CallerSemaphore]
     else if n = 5 then [DirWatch]
     else if n = 4 then [WatchFd]
     else if n = 3 then [WatchDirName]
     else if n = 2 then [HandleMemory]
     else [])"

fun dtmd_init_error :: "int \<Rightarrow> nat \<Rightarrow> client_resource resource_op list" where
  "dtmd_init_error fd 0 = []"
| "dtmd_init_error fd (Suc n) = map Release (init_released fd (Suc n)) @ dtmd_init_error fd n"

definition client_resources :: "client_resource list" where
  "client_resources = [HandleMemory, WatchDirName, WatchFd, DirWatch, CallerSemaphore, FeedbackPipe, RequestPipe]"

definition init_failed ::
  "dtmd_result \<Rightarrow> nat \<Rightarrow> nat \<Rightarrow> (dtmd_result + handle) \<times> client_resource resource_op list" where
  "init_failed e label n = (Inl e, map Acquire (take n client_resources) @ dtmd_init_error (-1) label)"

definition dtmd_init ::
  "bool \<Rightarrow> string \<Rightarrow> client_setup \<Rightarrow> string \<Rightarrow> io \<Rightarrow> (dtmd_result + handle) \<times> client_resource resource_op list" where
  "dtmd_init callbacks_given address s inc w =
     (if \<not> callbacks_given then init_failed dtmd_input_error 1 0
      else if \<not> handle_allocated s then init_failed dtmd_memory_error 1 0
      else if \<not> name_copied s then init_failed dtmd_memory_error 2 1
      else if strrchr address CHR ''/'' = None then init_failed dtmd_internal_initialization_error 3 2
      else if \<not> inotify_opened s then init_failed dtmd_internal_initialization_error 3 2
      else if \<not> watch_added s then init_failed dtmd_internal_initialization_error 4 3
      else if \<not> semaphore_made s then init_failed dtmd_internal_initialization_error 5 4
      else if \<not> feedback_made s then init_failed dtmd_internal_initialization_error 6 5
      else if \<not> pipes_made s then init_failed dtmd_internal_initialization_error 7 6
      else (case try_connecting (connecting s) (new_handle inc w) of (rc, h) \<Rightarrow>
        if rc < 0 then init_failed dtmd_internal_initialization_error 8 7
        else let got = map Acquire (client_resources @ (if rc > 0 then [SocketFd] else [])) in
          if \<not> thread_started s then (Inl dtmd_internal_initialization_error, got @ dtmd_init_error (socket_fd h) 9)
          else (Inr h, got @ [Acquire WorkerThread])))"

text \<open>\<open>dtmd_deinit\<close> tells the worker to stop and waits for its end before it releases what they share.\<close>

definition dtmd_deinit :: "handle \<Rightarrow> client_resource resource_op list" where
  "dtmd_deinit h = Release WorkerThread # map Release ((if socket_fd h \<ge> 0 then [SocketFd] else []) @
     [RequestPipe, FeedbackPipe, CallerSemaphore, DirWatch, WatchFd, WatchDirName, HandleMemory])"

definition handle_resources :: "handle \<Rightarrow> client_resource set" where
  "handle_resources h = set client_resources \<union> {WorkerThread} \<union> (if socket_fd h \<ge> 0 then {SocketFd} else {})"

lemma held_after_acquire:
  "distinct xs \<Longrightarrow> set xs \<inter> R = {} \<Longrightarrow> held_after (map Acquire xs) R = Some (set xs \<union> R)"
  by (induction xs arbitrary: R) auto

lemma held_after_release:
  "distinct xs \<Longrightarrow> set xs \<subseteq> R \<Longrightarrow> held_after (map Release xs) R = Some (R - set xs)"
proof (induction xs arbitrary: R)
  case (Cons x xs)
  then show ?case by (simp add: subset_Diff_insert Diff_insert2 [symmetric])
qed simp

lemma client_resources_distinct: "distinct client_resources" "SocketFd \<notin> set client_resources" "WorkerThread \<notin> set client_resources"
  by (simp_all add: client_resources_def)

text \<open>Each label releases what had been acquired before the call that failed.\<close>

lemma init_error_released:
  "dtmd_init_error fd 8 = map Release (rev (take 7 client_resources))"
  "dtmd_init_error fd 7 = map Release (rev (take 6 client_resources))"
  "dtmd_init_error fd 6 = map Release (rev (take 5 client_resources))"
  "dtmd_init_error fd 5 = map Release (rev (take 4 client_resources))"
  "dtmd_init_error fd 4 = map Release (rev (take 3 client_resources))"
  "dtmd_init_error fd 3 = map Release (rev (take 2 client_resources))"
  "dtmd_init_error fd 2 = map Release (rev (take 1 client_resources))"
  "dtmd_init_error fd 1 = map Release (rev (take 0 client_resources))"
  by (simp_all add: client_resources_def eval_nat_numeral)

lemma init_error_9: "dtmd_init_error fd 9 = map Release (if fd \<ge> 0 then [SocketFd] else []) @ dtmd_init_error fd 8"
  by (simp add: eval_nat_numeral)

lemma acquired_released: "held_after (map Acquire (take n client_resources) @ map Release (rev (take n client_resources))) {} = Some {}"
  using client_resources_distinct(1) by (simp add: held_after_append held_after_acquire held_after_release)

text \<open>A failure leaves nothing behind; a handle comes with what it needs.\<close>

fun init_clean :: "(dtmd_result + handle) \<times> client_resource resource_op list \<Rightarrow> bool" where
  "init_clean (Inl e, ops) \<longleftrightarrow> held_after ops {} = Some {}"
| "init_clean (Inr h, ops) \<longleftrightarrow> held_after ops {} = Some (handle_resources h)"

lemma init_failed_clean:
  "init_clean (init_failed e 1 0)" "init_clean (init_failed e 2 1)" "init_clean (init_failed e 3 2)"
  "init_clean (init_failed e 4 3)" "init_clean (init_failed e 5 4)" "init_clean (init_failed e 6 5)"
  "init_clean (init_failed e 7 6)" "init_clean (init_failed e 8 7)"
  by (simp_all only: init_failed_def init_clean.simps init_error_released acquired_released)

text \<open>A descriptor is not negative.\<close>

definition setup_sane :: "client_setup \<Rightarrow> bool" where
  "setup_sane s \<longleftrightarrow> (case connecting s of Connected fd \<Rightarrow> fd \<ge> 0 | _ \<Rightarrow> True)"

lemma no_thread_clean:
  "init_clean (Inl e, map Acquire (client_resources @ (if fd \<ge> 0 then [SocketFd] else [])) @ dtmd_init_error fd 9)"
  by (simp add: init_error_9 init_error_released client_resources_def)

lemma opened_clean:
  "init_clean (Inr h, map Acquire (client_resources @ (if socket_fd h \<ge> 0 then [SocketFd] else [])) @ [Acquire WorkerThread])"
  by (auto simp: client_resources_def handle_resources_def)

lemma connecting_clean:
  assumes "setup_sane s"
  shows "init_clean (case try_connecting (connecting s) (new_handle inc w) of (rc, h) \<Rightarrow>
        if rc < 0 then init_failed e 8 7
        else let got = map Acquire (client_resources @ (if rc > 0 then [SocketFd] else [])) in
          if \<not> thread_started s then (Inl e', got @ dtmd_init_error (socket_fd h) 9)
          else (Inr h, got @ [Acquire WorkerThread]))"
proof (cases "connecting s")
  case NoSocket
  then show ?thesis by (simp add: try_connecting_def init_failed_clean)
next
  case Refused
  then show ?thesis
    using no_thread_clean [of e' "-1"] opened_clean [of "(new_handle inc w)\<lparr>socket_fd := -1\<rparr>"]
    by (simp add: try_connecting_def Let_def)
next
  case (Connected fd)
  then show ?thesis
    using no_thread_clean [of e' fd] opened_clean [of "(new_handle inc w)\<lparr>socket_fd := fd\<rparr>"] assms
    by (simp add: try_connecting_def setup_sane_def Let_def)
qed

lemma init_clean: "setup_sane s \<Longrightarrow> init_clean (dtmd_init callbacks_given address s inc w)"
  unfolding dtmd_init_def by (simp add: init_failed_clean init_failed_clean [unfolded One_nat_def] connecting_clean)

lemma deinit_clean: "held_after (dtmd_deinit h) (handle_resources h) = Some {}"
  by (auto simp: dtmd_deinit_def handle_resources_def client_resources_def)

text \<open>A handle as \<open>dtmd_init\<close> makes it, with a connection, is ready for a request.\<close>

lemma init_connected:
  assumes "dtmd_init callbacks_given address s (concat ms) w = (Inr h, ops)" and "setup_sane s" and "allocs w = []" and "writes w = []"
    and "connecting s = Connected fd" and "arriving is" and "length (concat ms) \<le> length is"
  shows "connected h ms is"
proof -
  have "h = (new_handle (concat ms) w)\<lparr>socket_fd := fd\<rparr>"
    using assms(1,5) by (simp add: dtmd_init_def init_failed_def try_connecting_def Let_def split: if_splits)
  then show ?thesis
    using assms by (simp add: connected_def new_handle_def ready_def dtmd_is_state_invalid_def setup_sane_def)
qed

section \<open>The device system\<close>

datatype system_resource = SystemMemory | EventsFd | MutexAttr | ControlMutex | ControlPipe | SystemThread |
  MonitorMemory nat | MonitorPipe nat | EnumerationMemory nat

record system_setup =
  system_allocated :: bool
  socket_opened :: bool
  passcred_set :: bool
  socket_bound :: bool
  attr_made :: bool
  attr_typed :: bool
  mutex_made :: bool
  control_pipe_made :: bool
  system_thread_started :: bool

text \<open>The lists of monitors and enumerations, which are numbered as they are made, from the first
  to the last; \<open>corrupted\<close> is set when memory was overwritten through a pointer that leads astray.\<close>

record dev_system =
  monitor_list :: "nat list"
  enumeration_list :: "nat list"
  next_number :: nat
  corrupted :: bool

definition open_netlink_socket :: "system_setup \<Rightarrow> bool \<times> system_resource resource_op list" where
  "open_netlink_socket s =
     (if \<not> socket_opened s then (False, [])
      else if \<not> passcred_set s then (False, [Acquire EventsFd, Release EventsFd])
      else if \<not> socket_bound s then (False, [Acquire EventsFd, Release EventsFd])
      else (True, [Acquire EventsFd]))"

fun system_init_released :: "nat \<Rightarrow> system_resource list" where
  "system_init_released n = (
     if n = 6 then [ControlPipe]
     else if n = 5 then [ControlMutex]
     else if n = 4 then [MutexAttr]
     else if n = 3 then [EventsFd]
     else if n = 2 then [SystemMemory]
     else [])"

fun device_system_init_error :: "nat \<Rightarrow> system_resource resource_op list" where
  "device_system_init_error 0 = []"
| "device_system_init_error (Suc n) = map Release (system_init_released (Suc n)) @ device_system_init_error n"

definition device_system_init :: "system_setup \<Rightarrow> dev_system option \<times> system_resource resource_op list" where
  "device_system_init s =
     (if \<not> system_allocated s then (None, device_system_init_error 1)
      else (case open_netlink_socket s of (ok, ops) \<Rightarrow>
        let a = Acquire SystemMemory # ops; b = a @ [Acquire MutexAttr]; c = b @ [Acquire ControlMutex];
            e = c @ [Acquire ControlPipe] in
        if \<not> ok then (None, a @ device_system_init_error 2)
        else if \<not> attr_made s then (None, a @ device_system_init_error 3)
        else if \<not> attr_typed s then (None, b @ device_system_init_error 4)
        else if \<not> mutex_made s then (None, b @ device_system_init_error 4)
        else if \<not> control_pipe_made s then (None, c @ device_system_init_error 5)
        else if \<not> system_thread_started s then (None, e @ device_system_init_error 6)
        else (Some \<lparr>monitor_list = [], enumeration_list = [], next_number = 0, corrupted = False\<rparr>,
              e @ [Acquire SystemThread, Release MutexAttr])))"

text \<open>\<open>wild\<close> tells whether the pointer to the enumeration before this one leads astray: it is followed, and
  what it leads to is overwritten.\<close>

definition helper_free_enumeration :: "bool \<Rightarrow> nat \<Rightarrow> dev_system \<Rightarrow> dev_system \<times> system_resource resource_op list" where
  "helper_free_enumeration wild n st =
     (st\<lparr>enumeration_list := remove1 n (enumeration_list st), corrupted := corrupted st \<or> wild\<rparr>,
      [Release (EnumerationMemory n)])"

definition helper_free_monitor :: "nat \<Rightarrow> dev_system \<Rightarrow> dev_system \<times> system_resource resource_op list" where
  "helper_free_monitor n st =
     (st\<lparr>monitor_list := remove1 n (monitor_list st)\<rparr>, [Release (MonitorPipe n), Release (MonitorMemory n)])"

definition monitoring_start :: "bool \<Rightarrow> bool \<Rightarrow> bool \<Rightarrow> dev_system \<Rightarrow> nat option \<times> dev_system \<times> system_resource resource_op list" where
  "monitoring_start allocated pipe_made locked st =
     (let n = next_number st; st1 = st\<lparr>next_number := Suc n\<rparr> in
      if \<not> allocated then (None, st, [])
      else if \<not> pipe_made then (None, st1, [Acquire (MonitorMemory n), Release (MonitorMemory n)])
      else if \<not> locked then (None, st1, [Acquire (MonitorMemory n), Acquire (MonitorPipe n),
        Release (MonitorPipe n), Release (MonitorMemory n)])
      else (Some n, st1\<lparr>monitor_list := monitor_list st @ [n]\<rparr>, [Acquire (MonitorMemory n), Acquire (MonitorPipe n)]))"

text \<open>\<open>found\<close> tells whether the devices could be enumerated, \<open>locked\<close> whether the mutex could be had.  When
  either fails, the enumeration is freed before its pointer to the one before it has been set; \<open>wild\<close>
  tells whether the memory that \<open>malloc\<close> returned holds something other than a null pointer there.\<close>

definition enumeration_start :: "bool \<Rightarrow> bool \<Rightarrow> bool \<Rightarrow> bool \<Rightarrow> dev_system \<Rightarrow>
    nat option \<times> dev_system \<times> system_resource resource_op list" where
  "enumeration_start allocated found locked wild st =
     (let n = next_number st; st1 = st\<lparr>next_number := Suc n\<rparr> in
      if \<not> allocated then (None, st, [])
      else if \<not> found \<or> \<not> locked then
        (case helper_free_enumeration wild n st1 of (st2, ops) \<Rightarrow> (None, st2, Acquire (EnumerationMemory n) # ops))
      else (Some n, st1\<lparr>enumeration_list := enumeration_list st @ [n]\<rparr>, [Acquire (EnumerationMemory n)]))"

text \<open>What is made of a system between its start and its end.  A monitor or an enumeration is
  given back once, while it is there.\<close>

datatype system_call = StartMonitoring bool bool bool | StopMonitoring nat |
  Enumerate bool bool bool bool | FinishEnumerate nat

definition system_call :: "system_call \<Rightarrow> dev_system \<Rightarrow> dev_system \<times> system_resource resource_op list" where
  "system_call c st = (case c of
       StartMonitoring a p l \<Rightarrow> snd (monitoring_start a p l st)
     | StopMonitoring n \<Rightarrow> if n \<in> set (monitor_list st) then helper_free_monitor n st else (st, [])
     | Enumerate a f l w \<Rightarrow> snd (enumeration_start a f l w st)
     | FinishEnumerate n \<Rightarrow> if n \<in> set (enumeration_list st) then helper_free_enumeration False n st else (st, []))"

fun system_calls :: "system_call list \<Rightarrow> dev_system \<Rightarrow> dev_system \<times> system_resource resource_op list" where
  "system_calls [] st = (st, [])"
| "system_calls (c # cs) st = (case system_call c st of
     (st1, ops) \<Rightarrow> (case system_calls cs st1 of (st2, ops') \<Rightarrow> (st2, ops @ ops')))"

text \<open>All monitors are freed; of the enumerations only the first is.\<close>

fun free_monitors :: "nat list \<Rightarrow> dev_system \<Rightarrow> dev_system \<times> system_resource resource_op list" where
  "free_monitors [] st = (st, [])"
| "free_monitors (n # ns) st = (case helper_free_monitor n st of (st1, ops) \<Rightarrow>
     case free_monitors ns st1 of (st2, ops') \<Rightarrow> (st2, ops @ ops'))"

definition device_system_deinit :: "dev_system \<Rightarrow> system_resource resource_op list" where
  "device_system_deinit st =
     (let (st1, enums) = (case enumeration_list st of [] \<Rightarrow> (st, []) | n # _ \<Rightarrow> helper_free_enumeration False n st) in
      [Release SystemThread, Release EventsFd] @ enums @ snd (free_monitors (monitor_list st1) st1) @
      [Release ControlPipe, Release ControlMutex, Release SystemMemory])"

section \<open>What the device system holds\<close>

definition basic_resources :: "system_resource set" where
  "basic_resources = {SystemMemory, EventsFd, ControlMutex, ControlPipe, SystemThread}"

definition system_resources :: "dev_system \<Rightarrow> system_resource set" where
  "system_resources st = basic_resources \<union> MonitorMemory ` set (monitor_list st) \<union> MonitorPipe ` set (monitor_list st) \<union>
     EnumerationMemory ` set (enumeration_list st)"

definition numbers_ok :: "dev_system \<Rightarrow> bool" where
  "numbers_ok st \<longleftrightarrow> distinct (monitor_list st) \<and> distinct (enumeration_list st) \<and>
     (\<forall>n \<in> set (monitor_list st) \<union> set (enumeration_list st). n < next_number st)"

lemma system_init_clean:
  "case device_system_init s of
     (None, ops) \<Rightarrow> held_after ops {} = Some {}
   | (Some st, ops) \<Rightarrow> numbers_ok st \<and> \<not> corrupted st \<and> held_after ops {} = Some (system_resources st)"
  by (auto simp: device_system_init_def open_netlink_socket_def Let_def numbers_ok_def system_resources_def
      basic_resources_def eval_nat_numeral split: if_splits)

lemma fresh_resources:
  "numbers_ok st \<Longrightarrow> MonitorMemory (next_number st) \<notin> system_resources st"
  "numbers_ok st \<Longrightarrow> MonitorPipe (next_number st) \<notin> system_resources st"
  "numbers_ok st \<Longrightarrow> EnumerationMemory (next_number st) \<notin> system_resources st"
  by (auto simp: numbers_ok_def system_resources_def basic_resources_def)

lemma free_monitor_held:
  assumes "numbers_ok st" and "n \<in> set (monitor_list st)" and "helper_free_monitor n st = (st', ops)"
  shows "numbers_ok st' \<and> held_after ops (system_resources st) = Some (system_resources st')"
proof -
  have "set (remove1 n (monitor_list st)) = set (monitor_list st) - {n}"
    using assms(1) by (simp add: numbers_ok_def)
  then show ?thesis
    using assms by (auto simp: helper_free_monitor_def numbers_ok_def system_resources_def basic_resources_def)
qed

lemma free_enumeration_held:
  assumes "numbers_ok st" and "n \<in> set (enumeration_list st)" and "helper_free_enumeration w n st = (st', ops)"
  shows "numbers_ok st' \<and> held_after ops (system_resources st) = Some (system_resources st')"
proof -
  have "set (remove1 n (enumeration_list st)) = set (enumeration_list st) - {n}"
    using assms(1) by (simp add: numbers_ok_def)
  then show ?thesis
    using assms by (auto simp: helper_free_enumeration_def numbers_ok_def system_resources_def basic_resources_def)
qed

lemma monitoring_start_held:
  assumes "numbers_ok st" and "monitoring_start a p l st = (r, st', ops)"
  shows "numbers_ok st' \<and> held_after ops (system_resources st) = Some (system_resources st')"
proof -
  let ?n = "next_number st"
  have bound: "numbers_ok (st\<lparr>next_number := Suc ?n\<rparr>)" "system_resources (st\<lparr>next_number := Suc ?n\<rparr>) = system_resources st"
    using assms(1) by (auto simp: numbers_ok_def system_resources_def less_SucI)
  have "numbers_ok (st\<lparr>next_number := Suc ?n, monitor_list := monitor_list st @ [?n]\<rparr>)"
    using assms(1) by (auto simp: numbers_ok_def less_SucI)
  moreover have "system_resources (st\<lparr>next_number := Suc ?n, monitor_list := monitor_list st @ [?n]\<rparr>) =
      insert (MonitorPipe ?n) (insert (MonitorMemory ?n) (system_resources st))"
    by (auto simp: system_resources_def)
  ultimately show ?thesis
    using assms(2) bound fresh_resources [OF assms(1)] assms(1)
    by (cases a; cases p; cases l; simp add: monitoring_start_def Let_def insert_Diff_if; clarsimp)
qed

lemma enumeration_start_held:
  assumes "numbers_ok st" and "enumeration_start a f l w st = (r, st', ops)"
  shows "numbers_ok st' \<and> held_after ops (system_resources st) = Some (system_resources st')"
proof -
  let ?n = "next_number st"
  let ?st = "st\<lparr>next_number := Suc ?n, enumeration_list := enumeration_list st @ [?n]\<rparr>"
  let ?gone = "st\<lparr>next_number := Suc ?n, corrupted := corrupted st \<or> w\<rparr>"
  have keep: "remove1 ?n (enumeration_list st) = enumeration_list st"
    using assms(1) by (intro remove1_idem) (auto simp: numbers_ok_def)
  have "numbers_ok ?st" "numbers_ok ?gone" using assms(1) by (auto simp: numbers_ok_def less_SucI)
  moreover have "system_resources ?st = insert (EnumerationMemory ?n) (system_resources st)"
    "system_resources ?gone = system_resources st"
    by (auto simp: system_resources_def)
  ultimately show ?thesis
    using assms(2) fresh_resources [OF assms(1)] assms(1) keep
    by (cases a; cases f; cases l; simp add: enumeration_start_def helper_free_enumeration_def Let_def; clarsimp)
qed

text \<open>The calls after which the memory of the device system cannot be trusted.\<close>

fun wild_free :: "system_call \<Rightarrow> bool" where
  "wild_free (Enumerate a f l w) \<longleftrightarrow> a \<and> \<not> (f \<and> l) \<and> w"
| "wild_free _ \<longleftrightarrow> False"

lemma system_call_corrupts: "system_call c st = (st', ops) \<Longrightarrow> corrupted st' \<longleftrightarrow> corrupted st \<or> wild_free c"
  by (cases c) (auto simp: system_call_def monitoring_start_def enumeration_start_def helper_free_monitor_def
      helper_free_enumeration_def Let_def split: if_splits)

lemma system_calls_corrupt:
  "system_calls cs st = (st', ops) \<Longrightarrow> corrupted st' \<longleftrightarrow> corrupted st \<or> list_ex wild_free cs"
  by (induction cs arbitrary: st st' ops) (auto dest: system_call_corrupts split: prod.splits)

lemma system_call_held:
  assumes "numbers_ok st" and "system_call c st = (st', ops)"
  shows "numbers_ok st' \<and> held_after ops (system_resources st) = Some (system_resources st')"
proof (cases c)
  case (StartMonitoring a p l)
  then show ?thesis
    using assms monitoring_start_held [OF assms(1)] by (cases "monitoring_start a p l st") (simp add: system_call_def)
next
  case (StopMonitoring n)
  then show ?thesis
    using assms free_monitor_held [OF assms(1)] by (auto simp: system_call_def split: if_splits)
next
  case (Enumerate a f l w)
  then show ?thesis
    using assms enumeration_start_held [OF assms(1)] by (cases "enumeration_start a f l w st") (simp add: system_call_def)
next
  case (FinishEnumerate n)
  then show ?thesis
    using assms free_enumeration_held [OF assms(1)] by (auto simp: system_call_def split: if_splits)
qed

lemma system_calls_held:
  "numbers_ok st \<Longrightarrow> system_calls cs st = (st', ops) \<Longrightarrow>
     numbers_ok st' \<and> held_after ops (system_resources st) = Some (system_resources st')"
proof (induction cs arbitrary: st st' ops)
  case (Cons c cs)
  obtain st1 o1 where 1: "system_call c st = (st1, o1)" by fastforce
  obtain st2 o2 where 2: "system_calls cs st1 = (st2, o2)" by fastforce
  from system_call_held [OF Cons.prems(1) 1] Cons.IH [OF _ 2] Cons.prems(2) show ?case
    by (auto simp: 1 2 held_after_append)
qed simp

lemma free_monitors_released:
  "snd (free_monitors ns st) = map Release (concat (map (\<lambda>n. [MonitorPipe n, MonitorMemory n]) ns))"
  by (induction ns arbitrary: st) (simp_all add: helper_free_monitor_def case_prod_unfold)

lemma system_deinit_released:
  "device_system_deinit st = map Release ([SystemThread, EventsFd] @ map EnumerationMemory (take 1 (enumeration_list st)) @
     concat (map (\<lambda>n. [MonitorPipe n, MonitorMemory n]) (monitor_list st)) @ [ControlPipe, ControlMutex, SystemMemory])"
  by (cases "enumeration_list st")
    (simp_all add: device_system_deinit_def helper_free_enumeration_def free_monitors_released)

lemma distinct_monitors: "distinct ns \<Longrightarrow> distinct (concat (map (\<lambda>n. [MonitorPipe n, MonitorMemory n]) ns))"
  by (induction ns) auto

text \<open>Everything is given back but the memory of all enumerations after the first.\<close>

lemma system_deinit_held:
  assumes "numbers_ok st"
  shows "held_after (device_system_deinit st) (system_resources st) = Some (EnumerationMemory ` set (tl (enumeration_list st)))"
proof (cases "enumeration_list st")
  case Nil
  then show ?thesis
    using assms unfolding system_deinit_released
    by (subst held_after_release) (auto simp: numbers_ok_def system_resources_def basic_resources_def distinct_monitors)
next
  case (Cons e es)
  then show ?thesis
    using assms unfolding system_deinit_released
    by (subst held_after_release) (auto simp: numbers_ok_def system_resources_def basic_resources_def distinct_monitors)
qed

section \<open>Properties\<close>

text \<open>C22. Whatever fails in \<open>dtmd_init\<close>, it gives back exactly what it had acquired; when it succeeds,
  \<open>dtmd_deinit\<close> gives back exactly what the handle has then, whether it is connected or not.\<close>

theorem init_deinit_balanced:
  assumes "setup_sane s" and "dtmd_init callbacks_given address s inc w = (res, ops)"
  shows "case res of
     Inl e \<Rightarrow> held_after ops {} = Some {}
   | Inr h \<Rightarrow> held_after ops {} = Some (handle_resources h) \<and> held_after (ops @ dtmd_deinit h) {} = Some {} \<and>
       (\<forall>h'. held_after (dtmd_deinit h') (handle_resources h') = Some {})"
  using init_clean [OF assms(1), of callbacks_given address inc w] assms(2)
  by (cases res) (simp_all add: held_after_append deinit_clean)

text \<open>C21. The device system holds what its monitors and its enumerations need, through every sequence of
  calls; a failed start leaves nothing, and the end gives everything back, but the memory of all
  enumerations except the first.  The exception is a sequence with an enumeration that fails, for
  its devices or for the mutex, and whose memory happened not to be null where the pointer to the
  enumeration before it is: then, and only then, an unset pointer is written through, and nothing is
  said of what is held.\<close>

theorem device_system_balanced:
  assumes "device_system_init s = (res, ops)"
  shows "case res of
     None \<Rightarrow> held_after ops {} = Some {}
   | Some st \<Rightarrow> (case system_calls cs st of (st', ops') \<Rightarrow>
       (corrupted st' \<longleftrightarrow> list_ex wild_free cs) \<and>
       (\<not> corrupted st' \<longrightarrow>
          held_after (ops @ ops') {} = Some (system_resources st') \<and>
          held_after (ops @ ops' @ device_system_deinit st') {} = Some (EnumerationMemory ` set (tl (enumeration_list st')))))"
proof (cases res)
  case None
  then show ?thesis using system_init_clean [of s] assms by simp
next
  case (Some st)
  obtain st' ops' where c: "system_calls cs st = (st', ops')" by fastforce
  have i: "numbers_ok st" "\<not> corrupted st" "held_after ops {} = Some (system_resources st)"
    using system_init_clean [of s] assms Some by simp_all
  with system_calls_held [OF _ c] system_deinit_held [of st'] system_calls_corrupt [OF c] show ?thesis
    by (simp add: Some c held_after_append)
qed

section \<open>Witnesses\<close>

definition good_setup :: client_setup where
  "good_setup = \<lparr>handle_allocated = True, name_copied = True, inotify_opened = True, watch_added = True,
     semaphore_made = True, feedback_made = True, pipes_made = True, connecting = Connected 3, thread_started = True\<rparr>"

theorem init_deinit_balanced_witness:
  "\<exists>h ops. dtmd_init True ''/run/dtmd.socket'' good_setup '''' quiet_io = (Inr h, ops) \<and>
     held_after (ops @ dtmd_deinit h) {} = Some {}"
proof -
  let ?i = "dtmd_init True ''/run/dtmd.socket'' good_setup '''' quiet_io"
  have sane: "setup_sane good_setup" by (simp add: setup_sane_def good_setup_def)
  have "\<not> isl (fst ?i)" by code_simp
  then obtain h where h: "fst ?i = Inr h" by (cases "fst ?i") simp_all
  from init_deinit_balanced [OF sane, of True "''/run/dtmd.socket''" "''''" quiet_io "fst ?i" "snd ?i"] h
  show ?thesis by (cases ?i) auto
qed

definition good_system :: system_setup where
  "good_system = \<lparr>system_allocated = True, socket_opened = True, passcred_set = True, socket_bound = True, attr_made = True,
     attr_typed = True, mutex_made = True, control_pipe_made = True, system_thread_started = True\<rparr>"

definition demo_calls :: "system_call list" where
  "demo_calls = [StartMonitoring True True True, Enumerate True False True False, Enumerate True True True False, FinishEnumerate 2]"

theorem device_system_balanced_witness:
  "\<exists>st. fst (device_system_init good_system) = Some st \<and>
     (case system_calls demo_calls st of (st', ops') \<Rightarrow>
       monitor_list st' = [0] \<and>
       held_after (snd (device_system_init good_system) @ ops' @ device_system_deinit st') {} = Some {})"
proof -
  let ?st = "\<lparr>monitor_list = [], enumeration_list = [], next_number = 0, corrupted = False\<rparr>"
  have i: "device_system_init good_system = (Some ?st, snd (device_system_init good_system))"
    by (simp add: device_system_init_def good_system_def open_netlink_socket_def)
  have c: "enumeration_list (fst (system_calls demo_calls ?st)) = []" "monitor_list (fst (system_calls demo_calls ?st)) = [0]"
    by code_simp+
  have w: "\<not> list_ex wild_free demo_calls" by (simp add: demo_calls_def)
  show ?thesis
    using device_system_balanced [OF i, of demo_calls] c w
    by (subst i) (auto split: prod.splits)
qed

end
