(* ===== verification/Dtmd_Cpp.thy ===== *)
theory Dtmd_Cpp
  imports Dtmd_Requests
begin

text \<open>
  \<^verbatim>\<open>library/dtmd-library++.cpp\<close>: the C++ interface of the client library.  It turns the structures of the
  C library into objects: a \<open>NULL\<close> string becomes an empty one, a list of devices a set ordered by
  their paths.  The parent a device points to is the device in whose children it is.  Exceptions
  for lack of memory are not modelled.
\<close>

section \<open>Commands\<close>

record cpp_command =
  cpp_cmd :: string
  cpp_args :: "string list"

definition no_null :: "string option \<Rightarrow> string" where
  "no_null s = (case s of None \<Rightarrow> '''' | Some t \<Rightarrow> t)"

definition fillFromCmd :: "dt_command \<Rightarrow> cpp_command" where
  "fillFromCmd c = \<lparr>cpp_cmd = cmd c, cpp_args = map no_null (args c)\<rparr>"

text \<open>The way back: an empty string becomes \<open>NULL\<close>.  The name of a command is never \<open>NULL\<close> in \<open>dt_command\<close>; the
  C function refuses a command without a name as it refuses one with an empty name.\<close>

definition or_null :: "string \<Rightarrow> string option" where
  "or_null s = (if s = '''' then None else Some s)"

definition reconstructed_command :: "cpp_command \<Rightarrow> dt_command" where
  "reconstructed_command c = \<lparr>cmd = cpp_cmd c, args = map or_null (cpp_args c)\<rparr>"

section \<open>Devices\<close>

record cpp_info =
  cpp_type :: media_type
  cpp_subtype :: media_subtype
  cpp_state :: media_state
  cpp_fstype :: string
  cpp_label :: string
  cpp_mnt_point :: string
  cpp_mnt_opts :: string

datatype removable_media = RemovableMedia (cpp_path: string) (cpp_info: cpp_info) (cpp_children: "removable_media list")

definition info_of :: "media_info \<Rightarrow> cpp_info" where
  "info_of i = \<lparr>cpp_type = md_type i, cpp_subtype = md_subtype i, cpp_state = md_state i, cpp_fstype = no_null (md_fstype i),
     cpp_label = no_null (md_label i), cpp_mnt_point = no_null (md_mnt_point i), cpp_mnt_opts = no_null (md_mnt_opts i)\<rparr>"

text \<open>\<open>insert\<close> of a \<open>std::set\<close> of devices: in the order of the paths, and not at all when there is a device
  with the path.\<close>

fun set_insert :: "removable_media \<Rightarrow> removable_media list \<Rightarrow> removable_media list" where
  "set_insert x [] = [x]"
| "set_insert x (y # ys) =
     (if cpp_path x < cpp_path y then x # y # ys
      else if cpp_path y < cpp_path x then y # set_insert x ys
      else y # ys)"

text \<open>The devices of a list, each with its children, inserted one after the other.\<close>

fun fillFromRemovableMedia :: "media list \<Rightarrow> removable_media list \<Rightarrow> removable_media list" where
  "fillFromRemovableMedia [] found = found"
| "fillFromRemovableMedia (Media q i cs # ms) found =
     fillFromRemovableMedia ms (set_insert (RemovableMedia q (info_of i) (fillFromRemovableMedia cs [])) found)"

definition createFromRemovableMedia :: "media \<Rightarrow> removable_media" where
  "createFromRemovableMedia m =
     RemovableMedia (m_path m) (info_of (m_info m)) (fillFromRemovableMedia (m_children m) [])"

text \<open>\<open>getValidType\<close>: the type of a device whose fields fit its type.\<close>

definition getValidType :: "removable_media \<Rightarrow> media_type" where
  "getValidType m = (let i = cpp_info m in
     if cpp_path m = '''' then media_type_unknown_or_persistent
     else case cpp_type i of
       media_type_device_partition \<Rightarrow>
         if cpp_subtype i = media_subtype_unknown_or_persistent \<and> cpp_state i = media_state_unknown
         then media_type_device_partition else media_type_unknown_or_persistent
     | media_type_stateless_device \<Rightarrow>
         if cpp_subtype i \<noteq> media_subtype_unknown_or_persistent \<and> cpp_state i = media_state_unknown \<and>
           cpp_fstype i = '''' \<and> cpp_label i = '''' \<and> cpp_mnt_point i = '''' \<and> cpp_mnt_opts i = ''''
         then media_type_stateless_device else media_type_unknown_or_persistent
     | media_type_stateful_device \<Rightarrow>
         if cpp_subtype i \<noteq> media_subtype_unknown_or_persistent \<and> cpp_state i \<noteq> media_state_unknown
         then media_type_stateful_device else media_type_unknown_or_persistent
     | media_type_unknown_or_persistent \<Rightarrow> media_type_unknown_or_persistent)"

text \<open>\<open>find_removable_media\<close>: a device before its children, and these before the next device.\<close>

fun find_removable_media :: "string \<Rightarrow> removable_media list \<Rightarrow> removable_media option" where
  "find_removable_media path [] = None"
| "find_removable_media path (RemovableMedia q i cs # ms) =
     (if q = path then Some (RemovableMedia q i cs)
      else case find_removable_media path cs of
        Some m \<Rightarrow> Some m | None \<Rightarrow> find_removable_media path ms)"

section \<open>The requests\<close>

text \<open>What was in the container before is replaced when the request succeeds and kept otherwise.\<close>

definition list_all_removable_devices ::
  "command_parser \<Rightarrow> dtmd_result \<Rightarrow> client_input list \<Rightarrow> handle \<Rightarrow> removable_media list \<Rightarrow>
   (dtmd_result \<times> handle \<times> removable_media list) option" where
  "list_all_removable_devices ps captured is h container =
     map_option (\<lambda>(r, h', devices). (r, h', if r = dtmd_ok then fillFromRemovableMedia devices [] else container))
       (dtmd_list_all_removable_devices ps captured is h)"

definition list_removable_device ::
  "command_parser \<Rightarrow> string \<Rightarrow> dtmd_result \<Rightarrow> client_input list \<Rightarrow> handle \<Rightarrow> removable_media list \<Rightarrow>
   (dtmd_result \<times> handle \<times> removable_media list) option" where
  "list_removable_device ps path captured is h container =
     map_option (\<lambda>(r, h', devices). (r, h', if r = dtmd_ok then fillFromRemovableMedia devices [] else container))
       (dtmd_list_removable_device ps (Some path) captured is h)"

text \<open>The two lists of names are added to what the vector had before.\<close>

definition push_names :: "dtmd_result \<times> handle \<times> string option list \<Rightarrow> string list \<Rightarrow> dtmd_result \<times> handle \<times> string list" where
  "push_names res names = (case res of (r, h', found) \<Rightarrow>
     (r, h', if r = dtmd_ok then names @ map the (filter (\<lambda>n. n \<noteq> None) found) else names))"

definition list_supported_filesystems ::
  "command_parser \<Rightarrow> dtmd_result \<Rightarrow> client_input list \<Rightarrow> handle \<Rightarrow> string list \<Rightarrow> (dtmd_result \<times> handle \<times> string list) option" where
  "list_supported_filesystems ps captured is h names =
     map_option (\<lambda>res. push_names res names) (dtmd_list_supported_filesystems ps captured is h)"

definition list_supported_filesystem_options ::
  "command_parser \<Rightarrow> string \<Rightarrow> dtmd_result \<Rightarrow> client_input list \<Rightarrow> handle \<Rightarrow> string list \<Rightarrow>
   (dtmd_result \<times> handle \<times> string list) option" where
  "list_supported_filesystem_options ps filesystem captured is h names =
     map_option (\<lambda>res. push_names res names) (dtmd_list_supported_filesystem_options ps (Some filesystem) captured is h)"

definition library_mount ::
  "command_parser \<Rightarrow> string \<Rightarrow> string option \<Rightarrow> dtmd_result \<Rightarrow> client_input list \<Rightarrow> handle \<Rightarrow> (dtmd_result \<times> handle) option" where
  "library_mount ps path mount_options captured is h = dtmd_mount ps (Some path) mount_options captured is h"

definition library_unmount ::
  "command_parser \<Rightarrow> string \<Rightarrow> dtmd_result \<Rightarrow> client_input list \<Rightarrow> handle \<Rightarrow> (dtmd_result \<times> handle) option" where
  "library_unmount ps path captured is h = dtmd_unmount ps (Some path) captured is h"

definition library_poweroff ::
  "command_parser \<Rightarrow> string \<Rightarrow> dtmd_result \<Rightarrow> client_input list \<Rightarrow> handle \<Rightarrow> (dtmd_result \<times> handle) option" where
  "library_poweroff ps path captured is h = dtmd_poweroff ps (Some path) captured is h"

section \<open>Notifications\<close>

definition isNotificationValidRemovableDevice :: "cpp_command \<Rightarrow> bool" where
  "isNotificationValidRemovableDevice c \<longleftrightarrow> is_notification_valid_removable_device (reconstructed_command c)"

definition cpp_fill_removable_device_from_notification ::
  "cpp_command \<Rightarrow> handle \<Rightarrow> dtmd_result \<times> removable_media option \<times> handle" where
  "cpp_fill_removable_device_from_notification c h =
     (case dtmd_fill_removable_device_from_notification False (reconstructed_command c) h of
        (r, device, h') \<Rightarrow> (r, if r = dtmd_ok then map_option createFromRemovableMedia device else None, h'))"

text \<open>What the callbacks of the user are called with.  A callback may throw; then it is told of a failure,
  and what it throws at that is dropped.\<close>

datatype user_call = UserCallback cpp_command | UserStateCallback connection_state

definition local_callback :: "(user_call \<Rightarrow> bool) \<Rightarrow> dt_command \<Rightarrow> user_call list" where
  "local_callback throws c =
     UserCallback (fillFromCmd c) # (if throws (UserCallback (fillFromCmd c)) then [UserStateCallback state_failure] else [])"

definition local_state_callback :: "(user_call \<Rightarrow> bool) \<Rightarrow> connection_state \<Rightarrow> user_call list" where
  "local_state_callback throws s =
     UserStateCallback s # (if throws (UserStateCallback s) then [UserStateCallback state_failure] else [])"

end
