(* ===== verification/Dtmd_Cpp_Spec.thy ===== *)
theory Dtmd_Cpp_Spec
  imports Dtmd_Worker_Spec Dtmd_Cpp "HOL-Library.Multiset"
begin

text \<open>
  The C++ interface hands on what the C library gives: the devices of a listing, each with its parent,
  in sets ordered by path, and the devices of the notifications.
\<close>

section \<open>The nodes of a set of devices\<close>

type_synonym cpp_node = "string option \<times> string \<times> cpp_info"

fun cpp_nodes :: "string option \<Rightarrow> removable_media list \<Rightarrow> cpp_node list" where
  "cpp_nodes par [] = []"
| "cpp_nodes par (RemovableMedia q i cs # ms) = (par, q, i) # cpp_nodes (Some q) cs @ cpp_nodes par ms"

definition path_ordered :: "removable_media list \<Rightarrow> bool" where
  "path_ordered xs \<longleftrightarrow> sorted_wrt (<) (map cpp_path xs)"

fun all_ordered :: "removable_media list \<Rightarrow> bool" where
  "all_ordered [] \<longleftrightarrow> True"
| "all_ordered (RemovableMedia q i cs # ms) \<longleftrightarrow> path_ordered cs \<and> all_ordered cs \<and> all_ordered ms"

lemma set_insert_paths: "cpp_path ` set (set_insert x xs) = insert (cpp_path x) (cpp_path ` set xs)"
  by (induction xs) (auto simp: not_less_iff_gr_or_eq)

lemma set_insert_ordered: "path_ordered xs \<Longrightarrow> path_ordered (set_insert x xs)"
proof (induction xs)
  case (Cons y ys)
  have "\<forall>z \<in> set (set_insert x ys). cpp_path z \<in> insert (cpp_path x) (cpp_path ` set ys)"
    using set_insert_paths [of x ys] by auto
  with Cons show ?case by (fastforce simp: path_ordered_def)
qed (simp add: path_ordered_def)

lemma all_ordered_append: "all_ordered (xs @ ys) \<longleftrightarrow> all_ordered xs \<and> all_ordered ys"
  by (induction xs rule: all_ordered.induct) auto

lemma set_insert_all_ordered: "all_ordered [x] \<Longrightarrow> all_ordered xs \<Longrightarrow> all_ordered (set_insert x xs)"
proof (induction xs)
  case (Cons y ys)
  then show ?case by (cases x; cases y) auto
qed simp

lemma fill_ordered:
  "path_ordered found \<Longrightarrow> all_ordered found \<Longrightarrow>
     path_ordered (fillFromRemovableMedia ms found) \<and> all_ordered (fillFromRemovableMedia ms found)"
proof (induction ms found rule: fillFromRemovableMedia.induct)
  case (2 q i cs ms found)
  then show ?case by (simp add: path_ordered_def set_insert_ordered [unfolded path_ordered_def] set_insert_all_ordered)
qed simp

text \<open>Nothing is dropped as long as no two siblings have the same path.\<close>

lemma set_insert_nodes:
  "cpp_path x \<notin> cpp_path ` set xs \<Longrightarrow> mset (cpp_nodes par (set_insert x xs)) = mset (cpp_nodes par (x # xs))"
proof (induction xs)
  case (Cons y ys)
  then show ?case by (cases x; cases y) (auto simp: not_less_iff_gr_or_eq)
qed simp

fun siblings_differ :: "media list \<Rightarrow> bool" where
  "siblings_differ [] \<longleftrightarrow> True"
| "siblings_differ (Media q i cs # ms) \<longleftrightarrow> q \<notin> m_path ` set ms \<and> siblings_differ cs \<and> siblings_differ ms"

lemma fill_nodes:
  "siblings_differ ms \<Longrightarrow> m_path ` set ms \<inter> cpp_path ` set found = {} \<Longrightarrow>
     mset (cpp_nodes par (fillFromRemovableMedia ms found)) =
       mset (cpp_nodes par found) + mset (map (\<lambda>(pp, q, i). (pp, q, info_of i)) (nodes par ms))"
proof (induction ms found arbitrary: par rule: fillFromRemovableMedia.induct)
  case (2 q i cs ms found)
  let ?x = "RemovableMedia q (info_of i) (fillFromRemovableMedia cs [])"
  have "m_path ` set ms \<inter> cpp_path ` set (set_insert ?x found) = {}"
    using 2(3,4) by (auto simp: set_insert_paths)
  moreover have "mset (cpp_nodes par (set_insert ?x found)) = mset (cpp_nodes par (?x # found))"
    using 2(4) by (intro set_insert_nodes) auto
  ultimately show ?case
    using 2(1) [of "Some q"] 2(2) [of par] 2(3) by simp
qed simp

lemma siblings_ok_differ: "siblings_ok ms \<Longrightarrow> siblings_differ ms"
proof (induction ms rule: media_induct)
  case (Cons q i cs ms)
  have "m_path ` set ms \<subseteq> paths None ms"
    by (induction ms rule: media_induct) auto
  with Cons show ?case by (auto simp: siblings_ok_Cons)
qed simp

section \<open>Finding a device\<close>

lemma find_removable_None: "find_removable_media p xs = None \<longleftrightarrow> p \<notin> (\<lambda>n. fst (snd n)) ` set (cpp_nodes par xs)"
proof (induction par xs rule: cpp_nodes.induct)
  case (2 par q i cs ms)
  then show ?case by (auto split: option.splits)
qed simp

lemma find_removable_Some:
  "find_removable_media p xs = Some m \<Longrightarrow> cpp_path m = p \<and> (\<exists>par'. (par', p, cpp_info m) \<in> set (cpp_nodes par xs))"
proof (induction par xs arbitrary: m rule: cpp_nodes.induct)
  case (2 par q i cs ms)
  then show ?case by (fastforce split: if_splits option.splits)
qed simp

lemma node_of_path:
  assumes "distinct (map node_path (nodes None ms))" and "(p1, q, i) \<in> set (nodes None ms)" and "(p2, q, j) \<in> set (nodes None ms)"
  shows "p1 = p2 \<and> i = j"
proof -
  have "inj_on node_path (set (nodes None ms))" using assms(1) by (simp add: distinct_map)
  from inj_onD [OF this _ assms(2,3)] show ?thesis by simp
qed

lemma valid_type:
  "described i \<Longrightarrow> q \<noteq> '''' \<Longrightarrow> getValidType (RemovableMedia q (info_of (client_view i)) cs) = md_type i"
  by (cases "md_type i") (auto simp: getValidType_def info_of_def client_view_def described_def no_null_def)

lemma listed_path: "listable ms \<Longrightarrow> (par, q, i) \<in> set (nodes None ms) \<Longrightarrow> described i \<and> q \<noteq> ''''"
proof -
  assume l: "listable ms" and n: "(par, q, i) \<in> set (nodes None ms)"
  have d: "described i" using every_info_nodes [OF _ n, of described] l by (simp add: listable_def siblings_ok_def)
  have "wire_command (node_command (par, q, i))" using l n by (auto simp: listable_def fits_def list_all_iff)
  moreover have "Some q \<in> set (args (node_command (par, q, i)))"
    using node_command_args(1,3) [OF d, of par q]
    by (metis check_removable_device_common_def check_removable_device_def nth_mem order_less_le_trans one_less_numeral_iff semiring_norm(77))
  ultimately show ?thesis using d by (auto simp: wire_command_def list_all_iff wire_text_def)
qed

lemma client_siblings_differ: "siblings_differ ms \<Longrightarrow> siblings_differ (client_tree ms)"
proof (induction ms rule: media_induct)
  case (Cons q i cs ms)
  have "m_path ` set (client_tree ms) = m_path ` set ms"
    by (induction ms rule: media_induct) auto
  with Cons show ?case by simp
qed (simp add: client_tree_def)

lemma found_as_daemon:
  assumes "listable ms" and "mset (cpp_nodes None found) = mset (map (\<lambda>(par, q, i). (par, q, info_of (client_view i))) (nodes None ms))"
  shows "case find_removable_media p found of
       None \<Rightarrow> dtmd_find_media p ms = None
     | Some m \<Rightarrow> \<exists>n. dtmd_find_media p ms = Some n \<and> cpp_path m = p \<and>
         cpp_info m = info_of (client_view (m_info n)) \<and> getValidType m = md_type (m_info n)"
proof -
  have nodes: "set (cpp_nodes None found) = (\<lambda>(par, q, i). (par, q, info_of (client_view i))) ` set (nodes None ms)"
    using arg_cong [OF assms(2), of set_mset] by simp
  show ?thesis
  proof (cases "find_removable_media p found")
    case None
    then have "p \<notin> paths None ms"
      using find_removable_None [of p found None] nodes by (force simp: paths_def node_path_def)
    then show ?thesis using None by (simp add: find_media_None find_at_None)
  next
    case (Some m)
    then obtain par i where m: "cpp_path m = p" "(par, p, i) \<in> set (nodes None ms)" "cpp_info m = info_of (client_view i)"
      using find_removable_Some [OF Some, of None] nodes by auto
    then have "find_at None p ms \<noteq> None" using find_at_None [of None p ms] by (force simp: paths_def node_path_def)
    then obtain pp n where n: "find_at None p ms = Some (pp, n)" by auto
    have "(pp, p, m_info n) \<in> set (nodes None ms)" using find_at_Some [OF n] by simp
    moreover have "distinct (map node_path (nodes None ms))" using assms(1) by (simp add: listable_def siblings_ok_def)
    ultimately have "m_info n = i" using node_of_path m(2) by blast
    moreover have "getValidType m = md_type i"
      using valid_type listed_path [OF assms(1) m(2)] m by (cases m) simp
    ultimately show ?thesis using Some m n by (simp add: dtmd_find_media_def)
  qed
qed

text \<open>A notification gives through the C++ interface what it gives through the C one, as the daemon sends
  no empty string.\<close>

lemma reconstructed_filled: "Some '''' \<notin> set (args c) \<Longrightarrow> reconstructed_command (fillFromCmd c) = c"
  by (cases c) (auto simp: reconstructed_command_def fillFromCmd_def or_null_def no_null_def intro!: map_idI split: option.splits)

lemma cpp_notification:
  assumes "wire_command c"
  shows "isNotificationValidRemovableDevice (fillFromCmd c) = is_notification_valid_removable_device c"
    and "cpp_fill_removable_device_from_notification (fillFromCmd c) h =
      (case dtmd_fill_removable_device_from_notification False c h of (r, device, h') \<Rightarrow>
        (r, if r = dtmd_ok then map_option createFromRemovableMedia device else None, h'))"
proof -
  have "Some '''' \<notin> set (args c)" using assms by (auto simp: wire_command_def list_all_iff wire_text_def)
  then have "reconstructed_command (fillFromCmd c) = c" by (rule reconstructed_filled)
  then show "isNotificationValidRemovableDevice (fillFromCmd c) = is_notification_valid_removable_device c"
    and "cpp_fill_removable_device_from_notification (fillFromCmd c) h =
      (case dtmd_fill_removable_device_from_notification False c h of (r, device, h') \<Rightarrow>
        (r, if r = dtmd_ok then map_option createFromRemovableMedia device else None, h'))"
    by (simp_all add: isNotificationValidRemovableDevice_def cpp_fill_removable_device_from_notification_def)
qed

text \<open>Asking twice for the names gives them twice.\<close>

lemma names_repeated:
  assumes "list_supported_filesystems ps captured is h names = Some (dtmd_ok, h', names')"
  shows "\<exists>found. names' = names @ found"
  using assms by (auto simp: list_supported_filesystems_def push_names_def split: prod.splits)

section \<open>Properties\<close>

text \<open>The C++ interface lists the daemon's devices: the container has every device of the daemon's tree
  exactly once, under its parent and ordered by path, and \<open>find_removable_media\<close> finds in it exactly
  the devices the daemon finds in its tree, with what the protocol carries of them and with their
  type as valid type.\<close>

lemma cpp_lists_devices:
  assumes "protocol_parser ps" and "dt_parse_command ps (rq_text list_all_request) = Some command"
    and "invoke_command os c fd command d k = (r, d', k')"
    and "sent (world d') = sent (world d) @ map (Pair fd) ms"
    and "writes (world d) = []" and "listable (removable_media_root d)" and "connected h ms is"
  shows "\<exists>h' found. list_all_removable_devices ps dtmd_ok is h old = Some (dtmd_ok, h', found) \<and>
    path_ordered found \<and> all_ordered found \<and>
    mset (cpp_nodes None found) =
      mset (map (\<lambda>(par, q, i). (par, q, info_of (client_view i))) (nodes None (removable_media_root d))) \<and>
    (\<forall>p. case find_removable_media p found of
       None \<Rightarrow> dtmd_find_media p (removable_media_root d) = None
     | Some m \<Rightarrow> \<exists>n. dtmd_find_media p (removable_media_root d) = Some n \<and> cpp_path m = p \<and>
         cpp_info m = info_of (client_view (m_info n)) \<and> getValidType m = md_type (m_info n))"
proof -
  let ?root = "removable_media_root d" and ?found = "fillFromRemovableMedia (client_tree (removable_media_root d)) []"
  have root: "siblings_ok ?root" using assms(6) by (simp add: listable_def)
  from listing_rebuilds_tree [OF assms] obtain h' where
    "dtmd_list_all_removable_devices ps dtmd_ok is h = Some (dtmd_ok, h', client_tree ?root)" by blast
  then have l: "list_all_removable_devices ps dtmd_ok is h old = Some (dtmd_ok, h', ?found)"
    by (simp add: list_all_removable_devices_def)
  have o: "path_ordered ?found" "all_ordered ?found" using fill_ordered [of "[]"] by (simp_all add: path_ordered_def)
  have differ: "siblings_differ (client_tree ?root)"
    using siblings_ok_differ [OF root] by (rule client_siblings_differ)
  have n: "mset (cpp_nodes None ?found) = mset (map (\<lambda>(par, q, i). (par, q, info_of (client_view i))) (nodes None ?root))"
    using fill_nodes [OF differ, of "[]" None] by (simp add: client_tree_def nodes_map_tree case_prod_unfold comp_def)
  show ?thesis
    using found_as_daemon [OF assms(6) n] l o n by blast
qed

end
