(* ===== verification/Dtmd_Qt.thy ===== *)
theory Dtmd_Qt
  imports Dtmd_Cpp
begin

text \<open>
  \<^verbatim>\<open>client/qt/control.cpp\<close>: the state of the graphical client and what the notifications do to it.  The
  client keeps a copy of the daemon's tree, from which it builds its menu.  Qt itself is left out: a
  menu is the list of its entries, a text is a string in the untranslated form, and what is shown is
  the result of the functions.  A \<open>shared_ptr\<close> to a device of the copy is the path it was found by.
\<close>

section \<open>Changing the copy\<close>

text \<open>The device found by a path is replaced by the devices \<open>f\<close> gives for it.\<close>

fun edit_found :: "string \<Rightarrow> (removable_media \<Rightarrow> removable_media list) \<Rightarrow> removable_media list \<Rightarrow> removable_media list" where
  "edit_found path f [] = []"
| "edit_found path f (RemovableMedia q i cs # ms) =
     (if q = path then f (RemovableMedia q i cs) @ ms
      else if find_removable_media path cs \<noteq> None then RemovableMedia q i (edit_found path f cs) # ms
      else RemovableMedia q i cs # edit_found path f ms)"

definition insert_below :: "removable_media \<Rightarrow> removable_media \<Rightarrow> removable_media list" where
  "insert_below x m = [RemovableMedia (cpp_path m) (cpp_info m) (set_insert x (cpp_children m))]"

definition copyFromRemovableMedia :: "removable_media \<Rightarrow> removable_media \<Rightarrow> removable_media list" where
  "copyFromRemovableMedia other m = [RemovableMedia (cpp_path other) (cpp_info other) (cpp_children m)]"

definition set_mounted :: "string \<Rightarrow> string \<Rightarrow> removable_media \<Rightarrow> removable_media list" where
  "set_mounted mp opts m =
     [RemovableMedia (cpp_path m) ((cpp_info m)\<lparr>cpp_mnt_point := mp, cpp_mnt_opts := opts\<rparr>) (cpp_children m)]"

section \<open>Notifications\<close>

definition display_name :: "removable_media \<Rightarrow> string" where
  "display_name m = (if cpp_label (cpp_info m) = '''' then cpp_path m else cpp_label (cpp_info m))"

definition attached_note :: "removable_media \<Rightarrow> string \<times> string" where
  "attached_note m = (case cpp_type (cpp_info m) of
     media_type_device_partition \<Rightarrow> (''Device attached'', display_name m)
   | media_type_stateful_device \<Rightarrow>
       (if cpp_state (cpp_info m) = media_state_ok then ''Device attached, state: available''
        else ''Device attached, state: unavailable'', display_name m)
   | media_type_stateless_device \<Rightarrow> ('''', '''')
   | media_type_unknown_or_persistent \<Rightarrow> ('''', ''''))"

definition removed_note :: "removable_media \<Rightarrow> string \<times> string" where
  "removed_note m = (if cpp_type (cpp_info m) = media_type_device_partition \<or> cpp_type (cpp_info m) = media_type_stateful_device
     then (''Device removed'', display_name m) else ('''', ''''))"

definition changed_note :: "removable_media \<Rightarrow> removable_media \<Rightarrow> string \<times> string" where
  "changed_note old m = (case cpp_type (cpp_info m) of
     media_type_device_partition \<Rightarrow> (''Device changed'', display_name m)
   | media_type_stateful_device \<Rightarrow>
       (if cpp_state (cpp_info old) \<noteq> media_state_ok \<and> cpp_state (cpp_info m) = media_state_ok
        then (''Device changed to state: available'', display_name m)
        else if cpp_state (cpp_info old) = media_state_ok \<and> cpp_state (cpp_info m) \<noteq> media_state_ok
        then (''Device changed to state: unavailable'', display_name old)
        else ('''', ''''))
   | media_type_stateless_device \<Rightarrow> ('''', '''')
   | media_type_unknown_or_persistent \<Rightarrow> ('''', ''''))"

text \<open>The result tells whether the copy was modified, with the title and the text to show; then come
  the copy and the handle.\<close>

type_synonym processed = "(bool \<times> string \<times> string) \<times> removable_media list \<times> handle"

definition unmodified :: "removable_media list \<Rightarrow> handle \<Rightarrow> processed" where
  "unmodified devices h = ((False, '''', ''''), devices, h)"

definition process_added :: "cpp_command \<Rightarrow> removable_media list \<Rightarrow> handle \<Rightarrow> processed" where
  "process_added c devices h =
     (if find_removable_media (cpp_args c ! 1) devices \<noteq> None then unmodified devices h
      else case cpp_fill_removable_device_from_notification c h of
        (r, Some x, h1) \<Rightarrow>
          if cpp_args c ! 0 = dtmd_root_device_path then ((True, attached_note x), set_insert x devices, h1)
          else if find_removable_media (cpp_args c ! 0) devices \<noteq> None
          then ((True, attached_note x), edit_found (cpp_args c ! 0) (insert_below x) devices, h1)
          else unmodified devices h1
      | (r, None, h1) \<Rightarrow> unmodified devices h1)"

definition process_removed :: "cpp_command \<Rightarrow> removable_media list \<Rightarrow> handle \<Rightarrow> processed" where
  "process_removed c devices h = (case find_removable_media (cpp_args c ! 0) devices of
     None \<Rightarrow> unmodified devices h
   | Some m \<Rightarrow> ((True, removed_note m), edit_found (cpp_args c ! 0) (\<lambda>_. []) devices, h))"

definition process_changed :: "cpp_command \<Rightarrow> removable_media list \<Rightarrow> handle \<Rightarrow> processed" where
  "process_changed c devices h = (case find_removable_media (cpp_args c ! 1) devices of
     None \<Rightarrow> unmodified devices h
   | Some old \<Rightarrow> (case cpp_fill_removable_device_from_notification c h of
       (r, Some x, h1) \<Rightarrow>
         ((True, changed_note old x), edit_found (cpp_args c ! 1) (copyFromRemovableMedia x) devices, h1)
     | (r, None, h1) \<Rightarrow> unmodified devices h1))"

definition process_mounted :: "string \<Rightarrow> string \<Rightarrow> string \<Rightarrow> string \<Rightarrow> removable_media list \<Rightarrow> handle \<Rightarrow> processed" where
  "process_mounted title path mp opts devices h = (case find_removable_media path devices of
     None \<Rightarrow> unmodified devices h
   | Some m \<Rightarrow> ((True, title, display_name m), edit_found path (set_mounted mp opts) devices, h))"

definition processCommand :: "cpp_command \<Rightarrow> removable_media list \<Rightarrow> handle \<Rightarrow> processed" where
  "processCommand c devices h =
     (if cpp_cmd c = ''removable_device_added'' \<and> isNotificationValidRemovableDevice c then process_added c devices h
      else if cpp_cmd c = ''removable_device_removed'' \<and> length (cpp_args c) = 1 \<and> cpp_args c ! 0 \<noteq> ''''
      then process_removed c devices h
      else if cpp_cmd c = ''removable_device_changed'' \<and> isNotificationValidRemovableDevice c
      then process_changed c devices h
      else if cpp_cmd c = ''removable_device_mounted'' \<and> length (cpp_args c) = 3 \<and> cpp_args c ! 0 \<noteq> '''' \<and>
        cpp_args c ! 1 \<noteq> '''' \<and> cpp_args c ! 2 \<noteq> ''''
      then process_mounted ''Device mounted'' (cpp_args c ! 0) (cpp_args c ! 1) (cpp_args c ! 2) devices h
      else if cpp_cmd c = ''removable_device_unmounted'' \<and> length (cpp_args c) = 2 \<and> cpp_args c ! 0 \<noteq> '''' \<and>
        cpp_args c ! 1 \<noteq> ''''
      then process_mounted ''Device unmounted'' (cpp_args c ! 0) '''' '''' devices h
      else unmodified devices h)"

section \<open>The state of the client\<close>

text \<open>The notifications that arrive before the first listing are saved for after it.\<close>

record control =
  m_devices :: "removable_media list"
  m_devices_initialized :: bool
  m_saved_commands :: "cpp_command list"
  m_lib :: handle

definition process_in :: "control \<Rightarrow> cpp_command \<Rightarrow> (bool \<times> string \<times> string) \<times> control" where
  "process_in s c = (case processCommand c (m_devices s) (m_lib s) of (res, ds, h) \<Rightarrow>
     (res, s\<lparr>m_devices := ds, m_lib := h\<rparr>))"

text \<open>\<open>dtmd_callback\<close>: whether the menu is built again, the message to show, and the state.\<close>

definition dtmd_callback :: "cpp_command \<Rightarrow> control \<Rightarrow> (bool \<times> (string \<times> string) option) \<times> control" where
  "dtmd_callback c s =
     (if m_devices_initialized s
      then (case process_in s c of ((modified, title, text), s') \<Rightarrow>
        ((modified, if modified \<and> (title \<noteq> '''' \<or> text \<noteq> '''') then Some (title, text) else None), s'))
      else ((False, None), s\<lparr>m_saved_commands := m_saved_commands s @ [c]\<rparr>))"

text \<open>\<open>populate_devices\<close>: \<open>None\<close> when it throws.\<close>

definition populate_devices :: "command_parser \<Rightarrow> dtmd_result \<Rightarrow> client_input list \<Rightarrow> control \<Rightarrow> control option option" where
  "populate_devices ps captured is s =
     map_option (\<lambda>(r, h, devices).
       if r \<noteq> dtmd_ok then (if dtmd_is_state_invalid h then None else Some (s\<lparr>m_lib := h\<rparr>))
       else Some ((foldl (\<lambda>s c. snd (process_in s c))
         (s\<lparr>m_devices := devices, m_devices_initialized := True, m_lib := h\<rparr>) (m_saved_commands s))\<lparr>m_saved_commands := []\<rparr>))
     (list_all_removable_devices ps captured is (m_lib s) [])"

definition slotDtmdDisconnected :: "control \<Rightarrow> control" where
  "slotDtmdDisconnected s = s\<lparr>m_devices := [], m_devices_initialized := False\<rparr>"

section \<open>The menu\<close>

datatype menu_action = OpenDevice | UnmountDevice | MountDevice | PoweroffDevice

record menu_entry =
  entry_subtype :: media_subtype
  entry_mounted :: bool
  entry_name :: string
  entry_path :: string
  entry_actions :: "menu_action list"

definition device_is_ok :: "cpp_info \<Rightarrow> bool" where
  "device_is_ok i = (case cpp_type i of
     media_type_device_partition \<Rightarrow> cpp_fstype i \<noteq> ''''
   | media_type_stateful_device \<Rightarrow> cpp_state i = media_state_ok \<and> cpp_fstype i \<noteq> ''''
   | media_type_stateless_device \<Rightarrow> False
   | media_type_unknown_or_persistent \<Rightarrow> False)"

definition device_entry :: "removable_media \<Rightarrow> menu_entry" where
  "device_entry m = (let mounted = cpp_mnt_point (cpp_info m) \<noteq> '''' in
     \<lparr>entry_subtype = cpp_subtype (cpp_info m), entry_mounted = mounted, entry_name = display_name m, entry_path = cpp_path m,
      entry_actions = OpenDevice # (if mounted then [UnmountDevice] else [MountDevice, PoweroffDevice])\<rparr>)"

fun buildMenuRecursive :: "removable_media list \<Rightarrow> menu_entry list" where
  "buildMenuRecursive [] = []"
| "buildMenuRecursive (RemovableMedia q i cs # ms) =
     (if device_is_ok i then [device_entry (RemovableMedia q i cs)] else []) @ buildMenuRecursive cs @ buildMenuRecursive ms"

text \<open>What the actions of an entry do.  The icon shows that the client works and then how it went;
  opening a device, which mounts it first, is not modelled.\<close>

datatype app_state = app_notify | app_working | app_success | app_fail

definition shown_result :: "dtmd_result \<times> handle \<Rightarrow> app_state list \<times> handle" where
  "shown_result res = ([app_working, if fst res = dtmd_ok then app_success else app_fail], snd res)"

definition triggeredMount ::
  "command_parser \<Rightarrow> string \<Rightarrow> dtmd_result \<Rightarrow> client_input list \<Rightarrow> control \<Rightarrow> (app_state list \<times> handle) option" where
  "triggeredMount ps device_name captured is s = (case find_removable_media device_name (m_devices s) of
     None \<Rightarrow> Some ([], m_lib s)
   | Some m \<Rightarrow> map_option shown_result (library_mount ps (cpp_path m) None captured is (m_lib s)))"

definition triggeredUnmount ::
  "command_parser \<Rightarrow> string \<Rightarrow> dtmd_result \<Rightarrow> client_input list \<Rightarrow> control \<Rightarrow> (app_state list \<times> handle) option" where
  "triggeredUnmount ps device_name captured is s = (case find_removable_media device_name (m_devices s) of
     None \<Rightarrow> Some ([], m_lib s)
   | Some m \<Rightarrow> map_option shown_result (library_unmount ps (cpp_path m) captured is (m_lib s)))"

text \<open>The devices from the one with the path up to the root.\<close>

fun upwards :: "string \<Rightarrow> removable_media list \<Rightarrow> removable_media list" where
  "upwards path [] = []"
| "upwards path (RemovableMedia q i cs # ms) =
     (if q = path then [RemovableMedia q i cs]
      else if find_removable_media path cs \<noteq> None then upwards path cs @ [RemovableMedia q i cs]
      else upwards path ms)"

definition triggeredPoweroff ::
  "command_parser \<Rightarrow> string \<Rightarrow> dtmd_result \<Rightarrow> client_input list \<Rightarrow> control \<Rightarrow> (app_state list \<times> handle) option" where
  "triggeredPoweroff ps device_name captured is s =
     (if find_removable_media device_name (m_devices s) = None then Some ([], m_lib s)
      else case find (\<lambda>m. cpp_type (cpp_info m) = media_type_stateless_device) (upwards device_name (m_devices s)) of
        None \<Rightarrow> Some ([app_fail], m_lib s)
      | Some m \<Rightarrow> map_option shown_result (library_poweroff ps (cpp_path m) captured is (m_lib s)))"

text \<open>The queue of states behind the icon: a result is not followed by anything until it has been
  shown for its time.\<close>

definition setIconState :: "app_state \<Rightarrow> app_state list \<Rightarrow> app_state list" where
  "setIconState state queue =
     (if queue = [] \<or> last queue \<noteq> app_success \<and> last queue \<noteq> app_fail then queue @ [state] else queue)"

definition change_state_icon :: "app_state list \<Rightarrow> app_state list" where
  "change_state_icon queue = tl queue"

end
