(* ===== verification/Dtmd_Mirror.thy ===== *)
theory Dtmd_Mirror
  imports Dtmd_Cpp_Spec Dtmd_Qt
begin

text \<open>
  The copy of the daemon's tree that the graphical client keeps: when the notifications of an operation
  of the daemon have been processed, it is again a copy of the daemon's tree.
\<close>

section \<open>The copy\<close>

text \<open>What the client has of a device; the mount point of a device without a state is in no listing,
  and its notifications are stored but not shown.\<close>

definition seen_info :: "cpp_info \<Rightarrow> cpp_info" where
  "seen_info i = (if cpp_type i = media_type_stateless_device then i\<lparr>cpp_mnt_point := '''', cpp_mnt_opts := ''''\<rparr> else i)"

fun seen :: "removable_media list \<Rightarrow> removable_media list" where
  "seen [] = []"
| "seen (RemovableMedia q i cs # ms) = RemovableMedia q (seen_info i) (seen cs) # seen ms"

definition view_info :: "media_info \<Rightarrow> cpp_info" where
  "view_info i = info_of (client_view i)"

fun cpp_tree :: "media list \<Rightarrow> removable_media list" where
  "cpp_tree [] = []"
| "cpp_tree (Media q i cs # ms) = RemovableMedia q (view_info i) (cpp_tree cs) # cpp_tree ms"

definition mirrors :: "removable_media list \<Rightarrow> media list \<Rightarrow> bool" where
  "mirrors ds ms \<longleftrightarrow> seen ds = cpp_tree ms"

section \<open>Paths\<close>

definition copy_paths :: "removable_media list \<Rightarrow> string list" where
  "copy_paths ds = map (\<lambda>n. fst (snd n)) (cpp_nodes None ds)"

lemma copy_paths_par: "map (\<lambda>n. fst (snd n)) (cpp_nodes par ds) = copy_paths ds"
proof -
  have "map (\<lambda>n. fst (snd n)) (cpp_nodes par ds) = map (\<lambda>n. fst (snd n)) (cpp_nodes par' ds)" for par par'
    by (induction par ds arbitrary: par' rule: cpp_nodes.induct) auto
  then show ?thesis by (simp add: copy_paths_def)
qed

lemma copy_paths_simps [simp]:
  "copy_paths [] = []"
  "copy_paths (RemovableMedia q i cs # ms) = q # copy_paths cs @ copy_paths ms"
  using copy_paths_par [of "Some q" cs] by (simp_all add: copy_paths_def)

lemma found_iff: "find_removable_media p ds = None \<longleftrightarrow> p \<notin> set (copy_paths ds)"
  using find_removable_None [of p ds None] by (simp add: copy_paths_def)

lemma seen_paths [simp]: "copy_paths (seen ds) = copy_paths ds"
  by (induction ds rule: seen.induct) auto

lemma cpp_tree_paths: "copy_paths (cpp_tree ms) = map node_path (nodes par ms)"
  by (induction ms arbitrary: par rule: media_induct) auto

lemma mirror_paths: "mirrors ds ms \<Longrightarrow> copy_paths ds = map node_path (nodes None ms)"
  using seen_paths [of ds] cpp_tree_paths [of ms None] by (simp add: mirrors_def)

lemma mirror_found: "mirrors ds ms \<Longrightarrow> find_removable_media p ds = None \<longleftrightarrow> find_at None p ms = None"
  by (simp add: found_iff mirror_paths find_at_None paths_def)

section \<open>Edits of the copy and of the tree\<close>

lemma seen_append: "seen (xs @ ys) = seen xs @ seen ys"
  by (induction xs rule: seen.induct) auto

text \<open>An edit that only looks at what is seen.\<close>

lemma seen_edit:
  assumes "\<And>q i cs. seen (f (RemovableMedia q i cs)) = g (RemovableMedia q (seen_info i) (seen cs))"
  shows "seen (edit_found p f ds) = edit_found p g (seen ds)"
  using assms
proof (induction p f ds rule: edit_found.induct)
  case (2 path f q i cs ms)
  then show ?case by (auto simp: seen_append found_iff)
qed simp

lemma cpp_tree_append: "cpp_tree (xs @ ys) = cpp_tree xs @ cpp_tree ys"
  by (induction xs rule: cpp_tree.induct) auto

lemma cpp_found: "find_removable_media p (cpp_tree ms) = None \<longleftrightarrow> find_at par p ms = None"
  by (simp add: found_iff cpp_tree_paths [of ms par] find_at_None paths_def)

lemma edit_cpp_tree:
  assumes "find_at par p ms = Some (pp, m)"
    and "f (RemovableMedia p (view_info (m_info m)) (cpp_tree (m_children m))) = cpp_tree (g m)"
  shows "edit_found p f (cpp_tree ms) = cpp_tree (edit_media p g ms)"
  using assms
proof (induction par p ms rule: find_at.induct)
  case (2 par p q i cs ms)
  then show ?case
    by (auto simp: cpp_tree_append cpp_found [of p cs "Some q"] split: option.splits if_splits)
qed simp

text \<open>The step: an edit of the copy that does to what is seen what the daemon does to its tree.\<close>

lemma mirror_edit:
  assumes "mirrors ds ms" and "find_at None p ms = Some (pp, m)"
    and "\<And>q i cs. seen (f (RemovableMedia q i cs)) = g (RemovableMedia q (seen_info i) (seen cs))"
    and "g (RemovableMedia p (view_info (m_info m)) (cpp_tree (m_children m))) = cpp_tree (e m)"
  shows "mirrors (edit_found p f ds) (edit_media p e ms)"
  using assms(1) seen_edit [of f g p ds, OF assms(3)] edit_cpp_tree [OF assms(2), of g e, OF assms(4)]
  by (simp add: mirrors_def)

lemma seen_set_insert: "seen (set_insert (RemovableMedia q i cs) ds) = set_insert (RemovableMedia q (seen_info i) (seen cs)) (seen ds)"
  by (induction ds rule: seen.induct) auto

lemma cpp_tree_insert:
  "m_path m \<notin> m_path ` set ms \<Longrightarrow>
     set_insert (RemovableMedia (m_path m) (view_info (m_info m)) (cpp_tree (m_children m))) (cpp_tree ms) = cpp_tree (insert_media m ms)"
proof (induction ms rule: cpp_tree.induct)
  case 1
  then show ?case by (cases m) simp
next
  case (2 q i cs ms)
  then show ?case by (cases m) (auto simp: strcmp_less_0 not_less_iff_gr_or_eq)
qed

section \<open>Giving up devices\<close>

fun prune :: "string set \<Rightarrow> removable_media list \<Rightarrow> removable_media list" where
  "prune S [] = []"
| "prune S (RemovableMedia q i cs # ms) =
     (if q \<in> S then prune S ms else RemovableMedia q i (prune S cs) # prune S ms)"

lemma prune_prune: "prune S (prune T ds) = prune (S \<union> T) ds"
  by (induction T ds rule: prune.induct) auto

lemma prune_none: "S \<inter> set (copy_paths ds) = {} \<Longrightarrow> prune S ds = ds"
  by (induction S ds rule: prune.induct) (auto simp: disjoint_iff)

lemma prune_empty [simp]: "prune {} ds = ds"
  by (rule prune_none) simp

lemma prune_paths: "set (copy_paths (prune S ds)) \<subseteq> set (copy_paths ds)"
  by (induction S ds rule: prune.induct) auto

lemma prune_distinct: "distinct (copy_paths ds) \<Longrightarrow> distinct (copy_paths (prune S ds))"
proof (induction S ds rule: prune.induct)
  case (2 S q i cs ms)
  then show ?case using prune_paths [of S cs] prune_paths [of S ms] by auto
qed simp

lemma erase_prune: "distinct (copy_paths ds) \<Longrightarrow> edit_found p (\<lambda>_. []) ds = prune {p} ds"
proof (induction p "\<lambda>_ :: removable_media. [] :: removable_media list" ds rule: edit_found.induct)
  case (2 path q i cs ms)
  then show ?case
    by (auto simp: found_iff prune_none disjoint_iff)
qed simp

lemma seen_prune: "seen (prune S ds) = prune S (seen ds)"
  by (induction S ds rule: prune.induct) auto

text \<open>An edit of a device that is given up.\<close>

lemma prune_edit:
  assumes "\<And>q i cs. \<exists>j. f (RemovableMedia q i cs) = [RemovableMedia q j cs]" and "p \<in> S"
  shows "prune S (edit_found p f ds) = prune S ds"
  using assms
proof (induction p f ds rule: edit_found.induct)
  case (2 path f q i cs ms)
  obtain j where "f (RemovableMedia q i cs) = [RemovableMedia q j cs]" using 2(3) by blast
  with 2 show ?case by (auto simp: found_iff)
qed simp

lemma edit_distinct:
  assumes "\<And>q i cs. \<exists>j. f (RemovableMedia q i cs) = [RemovableMedia q j cs]"
  shows "copy_paths (edit_found p f ds) = copy_paths ds"
  using assms
proof (induction p f ds rule: edit_found.induct)
  case (2 path f q i cs ms)
  obtain j where "f (RemovableMedia q i cs) = [RemovableMedia q j cs]" using 2(3) by blast
  with 2 show ?case by (auto simp: found_iff)
qed simp

lemma found_paths: "find_at par p ms = Some (pp, m) \<Longrightarrow> paths None [m] \<subseteq> paths None ms"
proof (induction par p ms rule: find_at.induct)
  case (2 par p q i cs ms)
  then show ?case
    by (auto simp: paths_any [of "Some q"] paths_any [of par] split: if_splits option.splits)
qed simp

lemma prune_subtree:
  "distinct (map node_path (nodes par ms)) \<Longrightarrow> find_at par p ms = Some (pp, m) \<Longrightarrow>
     prune (paths None [m]) (cpp_tree ms) = cpp_tree (edit_media p (\<lambda>_. []) ms)"
proof (induction par p ms rule: find_at.induct)
  case (2 par p q i cs ms)
  have d: "distinct (map node_path (nodes (Some q) cs))" "distinct (map node_path (nodes par ms))"
      "q \<notin> paths None cs" "q \<notin> paths None ms" "paths None cs \<inter> paths None ms = {}"
    using 2(3) by (auto simp: paths_def distinct_any [of "Some q" cs] distinct_any [of par ms] image_iff
        paths_any [of "Some q" cs, unfolded paths_def] paths_any [of par ms, unfolded paths_def])
  have keep: "prune S (cpp_tree ks) = cpp_tree ks" if "S \<inter> paths None ks = {}" for S ks
    using that by (intro prune_none) (simp add: cpp_tree_paths [of ks None] paths_def)
  consider (here) "p = q" | (below) "p \<noteq> q" "find_at (Some q) p cs = Some (pp, m)"
    | (later) "p \<noteq> q" "find_at (Some q) p cs = None" "find_at par p ms = Some (pp, m)"
    using 2(4) by (auto split: option.splits if_splits)
  then show ?case
  proof cases
    case here
    then have "m = Media q i cs" using 2(4) by simp
    then show ?thesis using d here keep [of "insert q (paths None cs)" ms] by (simp add: paths_any [of "Some q"])
  next
    case below
    from found_paths [OF below(2)] d keep [of "paths None [m]" ms] 2(1) [OF _ d(1) below(2)] below show ?thesis by auto
  next
    case later
    from found_paths [OF later(3)] d keep [of "paths None [m]" cs] 2(2) [OF _ later(2) d(2) later(3)] later show ?thesis by auto
  qed
qed simp

section \<open>The notifications\<close>

definition copy_step :: "removable_media list \<times> handle \<Rightarrow> dt_command \<Rightarrow> removable_media list \<times> handle" where
  "copy_step s c = snd (processCommand (fillFromCmd c) (fst s) (snd s))"

definition note_removed :: "string \<Rightarrow> dt_command" where
  "note_removed q = \<lparr>cmd = ''removable_device_removed'', args = [Some q]\<rparr>"

definition note_mounted :: "string \<Rightarrow> string \<Rightarrow> string \<Rightarrow> dt_command" where
  "note_mounted q mp opts = \<lparr>cmd = ''removable_device_mounted'', args = [Some q, Some mp, Some opts]\<rparr>"

definition note_unmounted :: "string \<Rightarrow> string \<Rightarrow> dt_command" where
  "note_unmounted q mp = \<lparr>cmd = ''removable_device_unmounted'', args = [Some q, Some mp]\<rparr>"

text \<open>Of a device that was added or changed.\<close>

definition note_device :: "string \<Rightarrow> string option \<Rightarrow> string \<Rightarrow> media_info \<Rightarrow> dt_command" where
  "note_device x par q i = \<lparr>cmd = x, args = args (node_command (par, q, i))\<rparr>"

lemmas note_defs = note_removed_def note_mounted_def note_unmounted_def

lemma edit_not_found: "find_removable_media p ds = None \<Longrightarrow> edit_found p f ds = ds"
proof (induction p f ds rule: edit_found.induct)
  case (2 path f q i cs ms)
  then show ?case by (auto split: if_splits option.splits)
qed simp

lemma step_removed:
  assumes "q \<noteq> ''''" and "distinct (copy_paths ds)"
  shows "copy_step (ds, h) (note_removed q) = (prune {q} ds, h)"
proof (cases "find_removable_media q ds")
  case None
  then have "q \<notin> set (copy_paths ds)" by (simp add: found_iff)
  with None assms show ?thesis
    by (simp add: copy_step_def note_defs processCommand_def fillFromCmd_def no_null_def process_removed_def unmodified_def prune_none)
next
  case (Some m)
  with assms show ?thesis
    by (simp add: copy_step_def note_defs processCommand_def fillFromCmd_def no_null_def process_removed_def erase_prune)
qed

lemma step_mounted:
  assumes "q \<noteq> ''''" and "mp \<noteq> ''''" and "opts \<noteq> ''''"
  shows "copy_step (ds, h) (note_mounted q mp opts) = (edit_found q (set_mounted mp opts) ds, h)"
  using assms
  by (cases "find_removable_media q ds")
    (simp_all add: copy_step_def note_defs processCommand_def fillFromCmd_def no_null_def process_mounted_def unmodified_def edit_not_found)

lemma step_unmounted:
  assumes "q \<noteq> ''''" and "mp \<noteq> ''''"
  shows "copy_step (ds, h) (note_unmounted q mp) = (edit_found q (set_mounted '''' '''') ds, h)"
  using assms
  by (cases "find_removable_media q ds")
    (simp_all add: copy_step_def note_defs processCommand_def fillFromCmd_def no_null_def process_mounted_def unmodified_def edit_not_found)

lemma note_device_args:
  assumes "described i" and "wire_command (note_device x par q i)"
  shows "cpp_args (fillFromCmd (note_device x par q i)) ! 0 = parent_path par"
    and "cpp_args (fillFromCmd (note_device x par q i)) ! 1 = q"
    and "2 \<le> length (args (note_device x par q i))"
proof -
  have "check_removable_device_common (node_command (par, q, i))"
    using node_command_args(1) [OF assms(1)] by (simp add: check_removable_device_def)
  then have l: "2 \<le> length (args (note_device x par q i))"
    by (simp add: check_removable_device_common_def note_device_def)
  then show "2 \<le> length (args (note_device x par q i))" .
  have l0: "args (node_command (par, q, i)) \<noteq> []" using l by (auto simp: note_device_def)
  show "cpp_args (fillFromCmd (note_device x par q i)) ! 0 = parent_path par"
    "cpp_args (fillFromCmd (note_device x par q i)) ! 1 = q"
    using l l0 nth_map [of 0 "args (node_command (par, q, i))" no_null] nth_map [of 1 "args (node_command (par, q, i))" no_null]
      node_command_args(2,3) [OF assms(1), of par q]
    by (simp_all add: fillFromCmd_def note_device_def no_null_def)
qed

lemma note_device_filled:
  assumes "described i" and "wire_command (note_device x par q i)" and "allocs (h_world h) = []"
    and "x = ''removable_device_added'' \<or> x = ''removable_device_changed''"
  shows "isNotificationValidRemovableDevice (fillFromCmd (note_device x par q i))"
    and "cpp_fill_removable_device_from_notification (fillFromCmd (note_device x par q i)) h =
      (dtmd_ok, Some (RemovableMedia q (view_info i) []), h)"
proof -
  let ?c = "note_device x par q i"
  have t: "md_type i \<noteq> media_type_unknown_or_persistent" using assms(1) by (simp add: described_def)
  have chk: "check_removable_device_common ?c" using node_command_check [OF t, of x par q] assms(1) by (simp add: note_device_def)
  then have v: "is_notification_valid_removable_device ?c"
    using assms(4) by (auto simp: is_notification_valid_removable_device_def note_device_def)
  have f: "fill_removable_device False ?c h = (Some (Media q (client_view i) []), h)"
    using node_command_args(3,4) [OF assms(1)] malloc_all_no_failure [OF assms(3)]
    by (simp add: fill_removable_device_def note_device_def del: malloc_all.simps)
  show "isNotificationValidRemovableDevice (fillFromCmd ?c)" using cpp_notification(1) [OF assms(2)] v by simp
  show "cpp_fill_removable_device_from_notification (fillFromCmd ?c) h = (dtmd_ok, Some (RemovableMedia q (view_info i) []), h)"
    using cpp_notification(2) [OF assms(2)] v f
    by (simp add: dtmd_fill_removable_device_from_notification_def createFromRemovableMedia_def view_info_def)
qed

lemma step_added:
  assumes "described i" and "wire_command (note_device ''removable_device_added'' par q i)" and "allocs (h_world h) = []"
    and "find_removable_media q ds = None"
    and "parent_path par \<noteq> dtmd_root_device_path \<longrightarrow> find_removable_media (parent_path par) ds \<noteq> None"
  shows "copy_step (ds, h) (note_device ''removable_device_added'' par q i) =
    (if parent_path par = dtmd_root_device_path then set_insert (RemovableMedia q (view_info i) []) ds
     else edit_found (parent_path par) (insert_below (RemovableMedia q (view_info i) [])) ds, h)"
  using assms note_device_filled [OF assms(1-3)] note_device_args(1,2) [OF assms(1,2)]
  by (simp add: copy_step_def processCommand_def process_added_def)
    (simp add: fillFromCmd_def note_device_def)

lemma step_changed:
  assumes "described i" and "wire_command (note_device ''removable_device_changed'' par q i)" and "allocs (h_world h) = []"
  shows "copy_step (ds, h) (note_device ''removable_device_changed'' par q i) =
    (edit_found q (copyFromRemovableMedia (RemovableMedia q (view_info i) [])) ds, h)"
proof -
  have n: "cpp_cmd (fillFromCmd (note_device ''removable_device_changed'' par q i)) = ''removable_device_changed''"
    by (simp add: fillFromCmd_def note_device_def)
  show ?thesis
    using note_device_filled [OF assms] note_device_args(1,2) [OF assms(1,2)] n
    by (cases "find_removable_media q ds")
      (simp_all add: copy_step_def processCommand_def process_changed_def unmodified_def edit_not_found)
qed

section \<open>What the daemon sends\<close>

text \<open>\<open>told\<close>: the messages sent to the clients are those of the commands.  \<open>follows\<close>: the commands take a copy
  of the one tree to a copy of the other.\<close>

definition told :: "client list \<Rightarrow> io \<Rightarrow> io \<Rightarrow> dt_command list \<Rightarrow> bool" where
  "told cl w w' cs \<longleftrightarrow> (writes w = [] \<longrightarrow> writes w' = [] \<and>
     sent w' = sent w @ concat (map (\<lambda>c. to_all cl (wire_message c)) cs))"

definition follows :: "media list \<Rightarrow> media list \<Rightarrow> dt_command list \<Rightarrow> bool" where
  "follows ms ms' cs \<longleftrightarrow> list_all wire_command cs \<and>
     (\<forall>ds h. mirrors ds ms \<longrightarrow> allocs (h_world h) = [] \<longrightarrow>
       (\<exists>ds'. foldl copy_step (ds, h) cs = (ds', h) \<and> mirrors ds' ms'))"

definition informs :: "client list \<Rightarrow> media list \<Rightarrow> io \<Rightarrow> media list \<Rightarrow> io \<Rightarrow> bool" where
  "informs cl ms w ms' w' \<longleftrightarrow> (\<exists>cs. told cl w w' cs \<and> follows ms ms' cs)"

lemma told_append: "told cl w w1 cs \<Longrightarrow> told cl w1 w2 ds \<Longrightarrow> told cl w w2 (cs @ ds)"
  by (simp add: told_def)

lemma told_nothing: "sent w' = sent w \<Longrightarrow> writes w' = writes w \<Longrightarrow> told cl w w' []"
  by (simp add: told_def)

lemma follows_append:
  assumes "follows ms ms1 cs" and "follows ms1 ms2 ds"
  shows "follows ms ms2 (cs @ ds)"
proof -
  have "\<exists>d2. foldl copy_step (d, h) (cs @ ds) = (d2, h) \<and> mirrors d2 ms2"
    if d: "mirrors d ms" and h: "allocs (h_world h) = []" for d h
  proof -
    obtain d1 where "foldl copy_step (d, h) cs = (d1, h)" "mirrors d1 ms1"
      using assms(1) d h unfolding follows_def by blast
    moreover from this(2) obtain d2 where "foldl copy_step (d1, h) ds = (d2, h)" "mirrors d2 ms2"
      using assms(2) h unfolding follows_def by blast
    ultimately show ?thesis by simp
  qed
  with assms show ?thesis by (simp add: follows_def)
qed

lemma follows_nothing: "cpp_tree ms' = cpp_tree ms \<Longrightarrow> follows ms ms' []"
  by (simp add: follows_def mirrors_def)

lemma informs_trans: "informs cl ms w ms1 w1 \<Longrightarrow> informs cl ms1 w1 ms2 w2 \<Longrightarrow> informs cl ms w ms2 w2"
  unfolding informs_def by (blast intro: told_append follows_append)

lemma informs_nothing: "sent w' = sent w \<Longrightarrow> writes w' = writes w \<Longrightarrow> cpp_tree ms' = cpp_tree ms \<Longrightarrow> informs cl ms w ms' w'"
  unfolding informs_def by (blast intro: told_nothing follows_nothing)

lemma plain_arg: "wire_text (Some s) \<Longrightarrow> print_plain s = print_arg (Some s)"
  by (cases s) (simp_all add: wire_text_def print_plain_def print_arg_def)

lemma notes_told:
  "wire_text (Some q) \<Longrightarrow> told cl w (notify_removable_device_removed q cl w) [note_removed q]"
  "wire_text (Some q) \<Longrightarrow> wire_text (Some mp) \<Longrightarrow> told cl w (notify_removable_device_unmounted q mp cl w) [note_unmounted q mp]"
  "wire_text (Some q) \<Longrightarrow> wire_text (Some mp) \<Longrightarrow>
     told cl w (notify_removable_device_mounted q mp (Some opts) cl w) [note_mounted q mp opts]"
  by (simp_all add: told_def notify_defs notify_each_print note_defs wire_message_def plain_arg)

lemma note_names:
  "wire_name ''removable_device_removed''" "wire_name ''removable_device_mounted''" "wire_name ''removable_device_unmounted''"
  "wire_name ''removable_device_added''" "wire_name ''removable_device_changed''"
  by code_simp+

lemma notes_wire:
  "wire_text (Some q) \<Longrightarrow> wire_command (note_removed q)"
  "wire_text (Some q) \<Longrightarrow> wire_text (Some mp) \<Longrightarrow> wire_command (note_unmounted q mp)"
  "wire_text (Some q) \<Longrightarrow> wire_text (Some mp) \<Longrightarrow> wire_text (Some opts) \<Longrightarrow> wire_command (note_mounted q mp opts)"
  by (simp_all add: wire_command_def note_defs note_names)

lemma wire_nonempty: "wire_text (Some q) \<Longrightarrow> q \<noteq> ''''"
  by (simp add: wire_text_def)

text \<open>What is known of the devices of the daemon's tree.\<close>

definition sound_info :: "media_info \<Rightarrow> bool" where
  "sound_info i \<longleftrightarrow> described i \<and> info_ok i \<and> wire_text (md_fstype i) \<and> wire_text (md_label i) \<and>
     wire_text (md_mnt_point i) \<and> wire_text (md_mnt_opts i)"

definition sound_tree :: "media list \<Rightarrow> bool" where
  "sound_tree ms \<longleftrightarrow> distinct (map node_path (nodes None ms)) \<and>
     every_node (\<lambda>q i. wire_text (Some q) \<and> sound_info i) ms"

lemma sound_found:
  assumes "sound_tree ms" and "find_at None p ms = Some (pp, m)"
  shows "m_path m = p" and "wire_text (Some p)" and "sound_info (m_info m)"
  using every_node_root [OF every_node_find [OF _ assms(2)]] assms(1) find_at_Some [OF assms(2)]
  by (auto simp: sound_tree_def)

lemma spelled: "wire_text (Some (device_subtype_to_string t))" "wire_text (Some (device_state_to_string u))"
  by (cases t; simp add: wire_text_def no_nul_def)
    (cases u; simp add: wire_text_def no_nul_def)

lemma note_device_wire:
  assumes "sound_info i" and "wire_text (Some q)" and "wire_text (Some (parent_path par))" and "wire_name x"
  shows "wire_command (note_device x par q i)"
proof -
  have k: "wire_text (Some ''device partition'')" "wire_text (Some ''stateless device'')" "wire_text (Some ''stateful device'')"
    by code_simp+
  consider "md_type i = media_type_device_partition" | "md_type i = media_type_stateless_device"
    | "md_type i = media_type_stateful_device"
    using assms(1) by (cases "md_type i") (auto simp: sound_info_def described_def)
  then show ?thesis
    by cases (use assms spelled k in \<open>simp_all add: wire_command_def note_device_def node_args sound_info_def\<close>)
qed

section \<open>Devices that go\<close>

definition removal_notes :: "node \<Rightarrow> dt_command list" where
  "removal_notes n = (case n of (par, q, i) \<Rightarrow>
     (case md_mnt_point i of None \<Rightarrow> [] | Some mp \<Rightarrow> [note_unmounted q mp]) @ [note_removed q])"

lemma set_mounted_kept: "\<exists>j. set_mounted mp opts (RemovableMedia q i cs) = [RemovableMedia q j cs]"
  by (simp add: set_mounted_def)

lemma removal_notes_step:
  assumes "wire_text (Some q)" and "wire_text (md_mnt_point i)" and "distinct (copy_paths ds)"
  shows "foldl copy_step (ds, h) (removal_notes (par, q, i)) = (prune {q} ds, h)"
proof (cases "md_mnt_point i")
  case None
  with step_removed [OF wire_nonempty [OF assms(1)] assms(3)] show ?thesis by (simp add: removal_notes_def)
next
  case (Some mp)
  let ?ds = "edit_found q (set_mounted '''' '''') ds"
  have "copy_paths ?ds = copy_paths ds" by (rule edit_distinct) (rule set_mounted_kept)
  then have d: "distinct (copy_paths ?ds)" using assms(3) by simp
  have "prune {q} ?ds = prune {q} ds" by (rule prune_edit) (rule set_mounted_kept, simp)
  with Some assms(1,2) step_removed [OF wire_nonempty [OF assms(1)] d]
    step_unmounted [OF wire_nonempty [OF assms(1)], of mp ds] wire_nonempty [of mp]
  show ?thesis by (simp add: removal_notes_def)
qed

lemma removal_notes_steps:
  assumes "\<And>par q i. (par, q, i) \<in> set ns \<Longrightarrow> wire_text (Some q) \<and> wire_text (md_mnt_point i)"
    and "distinct (copy_paths ds)"
  shows "foldl copy_step (ds, h) (concat (map removal_notes ns)) = (prune (node_path ` set ns) ds, h)"
  using assms
proof (induction ns arbitrary: ds)
  case (Cons n ns)
  obtain par q i where n: "n = (par, q, i)" by (cases n)
  have "foldl copy_step (prune {q} ds, h) (concat (map removal_notes ns)) = (prune (node_path ` set ns) (prune {q} ds), h)"
    by (rule Cons.IH) (use Cons.prems prune_distinct in auto)
  moreover have "wire_text (Some q)" "wire_text (md_mnt_point i)" using Cons.prems(1) [of par q i] n by simp_all
  note removal_notes_step [OF this Cons.prems(2), of h par]
  ultimately show ?case using n by (simp add: prune_prune)
qed simp

lemma removal_messages_notes:
  assumes "wire_text (Some q)" and "wire_text (md_mnt_point i)"
  shows "removal_messages cl (par, q, i) = concat (map (\<lambda>c. to_all cl (wire_message c)) (removal_notes (par, q, i)))"
  using assms by (cases "md_mnt_point i") (simp_all add: removal_messages_def removal_notes_def note_defs wire_message_def plain_arg)

lemma removal_messages_all:
  assumes "\<And>par q i. (par, q, i) \<in> set ns \<Longrightarrow> wire_text (Some q) \<and> wire_text (md_mnt_point i)"
  shows "concat (map (removal_messages cl) ns) =
    concat (map (\<lambda>c. to_all cl (wire_message c)) (concat (map removal_notes ns)))"
  using assms
proof (induction ns)
  case (Cons n ns)
  obtain par q i where n: "n = (par, q, i)" by (cases n)
  have "wire_text (Some q)" "wire_text (md_mnt_point i)" using Cons.prems [of par q i] n by simp_all
  note removal_messages_notes [OF this, of cl par]
  moreover have "concat (map (removal_messages cl) ns) =
      concat (map (\<lambda>c. to_all cl (wire_message c)) (concat (map removal_notes ns)))"
    by (rule Cons.IH) (use Cons.prems in auto)
  ultimately show ?case using n by simp
qed simp

lemma removed_informs:
  assumes "remove_media p d = (r, d')" and "sound_tree (removable_media_root d)"
  shows "informs (clients d) (removable_media_root d) (world d) (removable_media_root d') (world d')"
proof (cases "find_at None p (removable_media_root d)")
  case None
  with assms(1) have "d' = d" by (simp add: remove_media_def dtmd_find_media_def)
  then show ?thesis by (simp add: informs_nothing)
next
  case (Some pm)
  let ?root = "removable_media_root d"
  obtain pp m where f: "find_at None p ?root = Some (pp, m)" using Some by (cases pm) auto
  with assms(1) have d': "removable_media_root d' = edit_media p (\<lambda>_. []) ?root" "world d' = remove_media_helper (clients d) m (world d)"
    by (auto simp: remove_media_def dtmd_find_media_def)
  let ?ns = "postorder None [m]" and ?cs = "concat (map removal_notes (postorder None [m]))"
  have "set ?ns = set (nodes None [m])" using mset_postorder [of None "[m]"] by (rule mset_eq_setD)
  moreover have "every_node (\<lambda>q i. wire_text (Some q) \<and> sound_info i) [m]"
    using every_node_find [OF _ f] assms(2) unfolding sound_tree_def by blast
  ultimately have ns: "wire_text (Some q) \<and> sound_info i" if "(par, q, i) \<in> set ?ns" for par q i
    using that by (auto simp: every_node_def list_all_iff)
  then have ws: "wire_text (Some q) \<and> wire_text (md_mnt_point i)" if "(par, q, i) \<in> set ?ns" for par q i
    using that by (auto simp: sound_info_def)
  have paths: "node_path ` set ?ns = paths None [m]"
    using arg_cong [OF mset_postorder [of None "[m]"], of set_mset] by (simp add: paths_def)
  have "told (clients d) (world d) (world d') ?cs"
    unfolding told_def d'(2) remove_media_helper_def
    using remove_media_helpers_sent [of "world d" "clients d" "[m]" None] removal_messages_all [of ?ns "clients d", OF ws]
    by simp
  moreover have "follows ?root (removable_media_root d') ?cs"
    unfolding follows_def
  proof (intro conjI allI impI)
    show "list_all wire_command ?cs"
      using ws by (fastforce simp: list_all_iff removal_notes_def notes_wire split: option.splits)
  next
    fix ds and h :: handle assume m: "mirrors ds ?root" and "allocs (h_world h) = []"
    have "distinct (copy_paths ds)" using mirror_paths [OF m] assms(2) by (simp add: sound_tree_def)
    have "foldl copy_step (ds, h) ?cs = (prune (node_path ` set ?ns) ds, h)"
      by (rule removal_notes_steps) (use ws \<open>distinct (copy_paths ds)\<close> in blast)+
    then have "foldl copy_step (ds, h) ?cs = (prune (paths None [m]) ds, h)" by (simp only: paths)
    moreover have "mirrors (prune (paths None [m]) ds) (removable_media_root d')"
      using m assms(2) prune_subtree [OF _ f] by (simp add: mirrors_def seen_prune d'(1) sound_tree_def)
    ultimately show "\<exists>ds'. foldl copy_step (ds, h) ?cs = (ds', h) \<and> mirrors ds' (removable_media_root d')" by blast
  qed
  ultimately show ?thesis unfolding informs_def by blast
qed

section \<open>Devices that come\<close>

lemma note_of_desc:
  assumes "built_from a s i" and "sound_info i"
  shows "message_of x (a\<lparr>d_label := md_label i\<rparr>) = [wire_message (note_device x
    (if d_parent a = dtmd_root_device_path then None else Some (d_parent a)) (d_path a) i)]"
proof -
  let ?par = "if d_parent a = dtmd_root_device_path then None else Some (d_parent a)"
  have "md_type i \<noteq> media_type_unknown_or_persistent" using assms(2) by (simp add: sound_info_def described_def)
  then obtain as where "device_args (node_desc ?par (d_path a) i) = Some as"
    using known_args [of ?par "d_path a" i] by (auto simp: known_type_def)
  then show ?thesis
    by (simp add: message_of_def added_desc [OF assms(1)] note_device_def wire_message_def node_command_def)
qed

lemma seen_view [simp]: "seen_info (view_info i) = view_info i"
  by (simp add: seen_info_def view_info_def info_of_def client_view_def Let_def no_null_def)

lemma top_paths: "m_path ` set ms \<subseteq> paths None ms"
  by (induction ms rule: media_induct) auto

lemma mirror_new_root:
  assumes "mirrors ds ms" and "q \<notin> paths None ms"
  shows "mirrors (set_insert (RemovableMedia q (view_info i) []) ds) (insert_media (Media q i []) ms)"
proof -
  have "m_path (Media q i []) \<notin> m_path ` set ms"
    using assms(2) top_paths by force
  from cpp_tree_insert [OF this] assms(1) show ?thesis
    by (simp add: mirrors_def seen_set_insert)
qed

lemma mirror_new_child:
  assumes "mirrors ds ms" and "find_at None p ms = Some (pp, m)" and "q \<notin> paths None ms"
  shows "mirrors (edit_found p (insert_below (RemovableMedia q (view_info i) [])) ds)
    (edit_media p (insert_child (Media q i [])) ms)"
proof (rule mirror_edit [OF assms(1,2), of _ "insert_below (RemovableMedia q (view_info i) [])"])
  fix q' j cs
  show "seen (insert_below (RemovableMedia q (view_info i) []) (RemovableMedia q' j cs)) =
      insert_below (RemovableMedia q (view_info i) []) (RemovableMedia q' (seen_info j) (seen cs))"
    by (simp add: insert_below_def seen_set_insert)
next
  have "q \<notin> paths None (m_children m)" using found_paths [OF assms(2)] assms(3) by (cases m) auto
  then have "m_path (Media q i []) \<notin> m_path ` set (m_children m)" using top_paths by force
  from cpp_tree_insert [OF this] find_at_Some [OF assms(2)]
  show "insert_below (RemovableMedia q (view_info i) []) (RemovableMedia p (view_info (m_info m)) (cpp_tree (m_children m))) =
      cpp_tree (insert_child (Media q i []) m)"
    by (simp add: insert_below_def insert_child_def)
qed

lemma added_node:
  assumes "every_node P ms'" and "ms' = (if par = dtmd_root_device_path then insert_media (Media q i []) ms
      else edit_media par (insert_child (Media q i [])) ms)"
    and "par \<noteq> dtmd_root_device_path \<Longrightarrow> find_at None par ms \<noteq> None"
  shows "P q i"
proof (cases "par = dtmd_root_device_path")
  case True
  with assms(1,2) show ?thesis by simp
next
  case n: False
  with assms(3) obtain pp m where f: "find_at None par ms = Some (pp, m)" by auto
  have "find_at None par ms' = Some (pp, Media (m_path m) (m_info m) (insert_media (Media q i []) (m_children m)))"
    unfolding assms(2) using n find_at_edit [OF f, of "insert_child (Media q i [])"] find_at_Some [OF f] by (simp add: insert_child_def)
  from every_node_find [OF assms(1) this] show ?thesis by simp
qed

lemma parent_wire:
  assumes "sound_tree ms" and "par \<noteq> dtmd_root_device_path \<Longrightarrow> find_at None par ms \<noteq> None"
  shows "wire_text (Some (parent_path (if par = dtmd_root_device_path then None else Some par)))"
proof (cases "par = dtmd_root_device_path")
  case True
  then show ?thesis by (simp add: parent_path_def dtmd_root_device_path_def wire_text_def no_nul_def)
next
  case n: False
  with assms(2) obtain pp m where f: "find_at None par ms = Some (pp, m)" by auto
  from n sound_found(2) [OF assms(1) f] show ?thesis by (simp add: parent_path_def)
qed

lemma added_informs:
  assumes "add_media a s d = (r, d')" and "r \<noteq> ResultFatalError"
    and "sound_tree (removable_media_root d)" and "sound_tree (removable_media_root d')"
    and "dtmd_root_device_path \<notin> paths None (removable_media_root d)"
  shows "informs (clients d) (removable_media_root d) (world d) (removable_media_root d') (world d')"
proof (cases "d_parent a \<noteq> dtmd_root_device_path \<and> dtmd_find_media (d_parent a) (removable_media_root d) = None")
  case True
  with assms(1) have "d' = d" by (simp add: add_media_def)
  then show ?thesis by (simp add: informs_nothing)
next
  case False
  let ?root = "removable_media_root d" and ?q = "d_path a"
  let ?par = "if d_parent a = dtmd_root_device_path then None else Some (d_parent a)"
  obtain x w where c: "construct_media a s (world d) = (x, w)" by fastforce
  with assms(1,2) False obtain i where i: "x = Some i" by (cases x) (auto simp: add_media_def Let_def)
  let ?m = "Media ?q i []" and ?n = "note_device ''removable_device_added'' ?par ?q i"
  have d': "removable_media_root d' = (if d_parent a = dtmd_root_device_path then insert_media ?m ?root
        else edit_media (d_parent a) (insert_child ?m) ?root)"
      "world d' = notify_removable_device_added (a\<lparr>d_label := md_label i\<rparr>) (clients d) w"
    using assms(1) False c i by (auto simp: add_media_def Let_def)
  have b: "built_from a s i" using construct_media_built c i by blast
  have "r = ResultSuccess" using assms(1) False c i by (auto simp: add_media_def Let_def)
  with assms(1) have "add_media a s d = (ResultSuccess, d')" by simp
  then obtain j where "mset (nodes None (removable_media_root d')) = add_mset (?par, ?q, j) (mset (nodes None ?root))"
    unfolding dtmd_root_device_path_def by (rule add_media_added)
  then have "mset (map node_path (nodes None (removable_media_root d'))) = mset (?q # map node_path (nodes None ?root))"
    by simp
  then have "distinct (?q # map node_path (nodes None ?root))"
    using assms(4) mset_eq_imp_distinct_iff unfolding sound_tree_def by blast
  then have new: "?q \<notin> paths None ?root" by (simp add: paths_def)
  have known: "d_parent a \<noteq> dtmd_root_device_path \<Longrightarrow> find_at None (d_parent a) ?root \<noteq> None"
    using False by (auto simp: dtmd_find_media_def)
  have "every_node (\<lambda>q i. wire_text (Some q) \<and> sound_info i) (removable_media_root d')"
    using assms(4) by (simp add: sound_tree_def)
  from added_node [OF this d'(1) known] have si: "wire_text (Some ?q) \<and> sound_info i" .
  have pw: "wire_text (Some (parent_path ?par))" by (rule parent_wire [OF assms(3) known])
  have wire: "wire_command ?n" by (rule note_device_wire) (use si pw note_names in auto)
  have "told (clients d) w (world d') [?n]"
    using note_of_desc [OF b, of "''removable_device_added''"] si
    by (simp add: told_def d'(2) notify_removable_device_added_def notify_each_common)
  then have told: "told (clients d) (world d) (world d') [?n]"
    using told_append [of "clients d" "world d" w "[]"] construct_media_sent [OF c] told_nothing by fastforce
  have "follows ?root (removable_media_root d') [?n]"
    unfolding follows_def
  proof (intro conjI allI impI)
    show "list_all wire_command [?n]" using wire by simp
  next
    fix ds and h :: handle assume m: "mirrors ds ?root" and h: "allocs (h_world h) = []"
    have f: "find_removable_media ?q ds = None" using mirror_found [OF m] new by (simp add: find_at_None)
    have p: "parent_path ?par \<noteq> dtmd_root_device_path \<longrightarrow> find_removable_media (parent_path ?par) ds \<noteq> None"
      using False mirror_found [OF m] by (auto simp: parent_path_def dtmd_find_media_def)
    have "described i" using si by (simp add: sound_info_def)
    note s = step_added [OF this wire h f p]
    show "\<exists>ds'. foldl copy_step (ds, h) [?n] = (ds', h) \<and> mirrors ds' (removable_media_root d')"
    proof (cases "d_parent a = dtmd_root_device_path")
      case True
      with s mirror_new_root [OF m new, of i] d'(1) show ?thesis by (simp add: parent_path_def)
    next
      case n: False
      with False obtain pp k where k: "find_at None (d_parent a) ?root = Some (pp, k)"
        by (auto simp: dtmd_find_media_def)
      from n s mirror_new_child [OF m k new, of i] d'(1) show ?thesis by (simp add: parent_path_def)
    qed
  qed
  with told show ?thesis unfolding informs_def by blast
qed

section \<open>Devices that change\<close>

lemma edit_edit:
  assumes "\<And>q i cs. \<exists>j. f (RemovableMedia q i cs) = [RemovableMedia q j cs] \<and> g (RemovableMedia q j cs) = g (RemovableMedia q i cs)"
  shows "edit_found p g (edit_found p f ds) = edit_found p g ds"
  using assms
proof (induction p f ds rule: edit_found.induct)
  case (2 path f q i cs ms)
  obtain j where j: "f (RemovableMedia q i cs) = [RemovableMedia q j cs]"
    "g (RemovableMedia q j cs) = g (RemovableMedia q i cs)" using 2(3) by blast
  have "copy_paths (edit_found path f cs) = copy_paths cs" by (rule edit_distinct) (use 2(3) in blast)
  with 2 j show ?case by (auto simp: found_iff)
qed simp

text \<open>An edit of the fields of a device.\<close>

lemma mirror_info:
  assumes "mirrors ds ms" and "find_at None p ms = Some (pp, m)"
    and "\<And>q i cs. f (RemovableMedia q i cs) = [RemovableMedia q (t i) cs]"
    and "\<And>i. seen_info (t i) = seen_info (t (seen_info i))"
    and "seen_info (t (view_info (m_info m))) = view_info i'"
  shows "mirrors (edit_found p f ds) (edit_media p (set_info i') ms)"
proof (rule mirror_edit [OF assms(1,2), of _ "\<lambda>x. [RemovableMedia (cpp_path x) (seen_info (t (cpp_info x))) (cpp_children x)]"])
  show "seen (f (RemovableMedia q i cs)) = [RemovableMedia (cpp_path (RemovableMedia q (seen_info i) (seen cs)))
      (seen_info (t (cpp_info (RemovableMedia q (seen_info i) (seen cs))))) (cpp_children (RemovableMedia q (seen_info i) (seen cs)))]" for q i cs
    using assms(3) [of q i cs] assms(4) [of i] by simp
  show "[RemovableMedia (cpp_path (RemovableMedia p (view_info (m_info m)) (cpp_tree (m_children m))))
      (seen_info (t (cpp_info (RemovableMedia p (view_info (m_info m)) (cpp_tree (m_children m))))))
      (cpp_children (RemovableMedia p (view_info (m_info m)) (cpp_tree (m_children m))))] = cpp_tree (set_info i' m)"
    using assms(5) find_at_Some [OF assms(2)] by (simp add: set_info_def)
qed

lemma mirror_mounted:
  assumes "mirrors ds ms" and "find_at None p ms = Some (pp, m)"
    and "view_info i' = seen_info ((view_info (m_info m))\<lparr>cpp_mnt_point := mp, cpp_mnt_opts := opts\<rparr>)"
  shows "mirrors (edit_found p (set_mounted mp opts) ds) (edit_media p (set_info i') ms)"
  by (rule mirror_info [OF assms(1,2), of _ "\<lambda>i. i\<lparr>cpp_mnt_point := mp, cpp_mnt_opts := opts\<rparr>"])
    (simp_all add: set_mounted_def seen_info_def assms(3))

lemma mirror_changed:
  assumes "mirrors ds ms" and "find_at None p ms = Some (pp, m)"
  shows "mirrors (edit_found p (copyFromRemovableMedia (RemovableMedia p (view_info i') [])) ds) (edit_media p (set_info i') ms)"
proof -
  have "edit_found p (copyFromRemovableMedia (RemovableMedia p (view_info i') [])) ds =
      edit_found p (\<lambda>m. [RemovableMedia (cpp_path m) (view_info i') (cpp_children m)]) ds"
    by (induction ds rule: seen.induct) (simp_all add: copyFromRemovableMedia_def)
  moreover have "mirrors (edit_found p (\<lambda>m. [RemovableMedia (cpp_path m) (view_info i') (cpp_children m)]) ds)
      (edit_media p (set_info i') ms)"
    by (rule mirror_info [OF assms, of _ "\<lambda>_. view_info i'"]) simp_all
  ultimately show ?thesis by simp
qed

text \<open>What is said of the mount point of a device before it is said to have changed.\<close>

definition remounts :: "string \<Rightarrow> dt_command \<Rightarrow> bool" where
  "remounts q c \<longleftrightarrow> wire_command c \<and>
     (\<forall>ds h. \<exists>mp opts. copy_step (ds, h) c = (edit_found q (set_mounted mp opts) ds, h))"

lemma note_remounts:
  "wire_text (Some q) \<Longrightarrow> wire_text (Some mp) \<Longrightarrow> remounts q (note_unmounted q mp)"
  "wire_text (Some q) \<Longrightarrow> wire_text (Some mp) \<Longrightarrow> wire_text (Some opts) \<Longrightarrow> remounts q (note_mounted q mp opts)"
proof -
  assume q: "wire_text (Some q)" "wire_text (Some mp)"
  from step_unmounted [OF wire_nonempty wire_nonempty, OF q] notes_wire(2) [OF q]
  show "remounts q (note_unmounted q mp)" unfolding remounts_def by blast
  assume o: "wire_text (Some opts)"
  from step_mounted [OF wire_nonempty wire_nonempty wire_nonempty, OF q o] notes_wire(3) [OF q o]
  show "remounts q (note_mounted q mp opts)" unfolding remounts_def by blast
qed

lemma remounts_then:
  assumes "list_all (remounts q) cs" and "\<And>mp opts q' i js. g (RemovableMedia q' (i\<lparr>cpp_mnt_point := mp, cpp_mnt_opts := opts\<rparr>) js) = g (RemovableMedia q' i js)"
  shows "\<exists>ds'. foldl copy_step (ds, h) cs = (ds', h) \<and> edit_found q g ds' = edit_found q g ds"
  using assms(1)
proof (induction cs arbitrary: ds)
  case (Cons c cs)
  then have "remounts q c" by simp
  then obtain mp opts where c: "copy_step (ds, h) c = (edit_found q (set_mounted mp opts) ds, h)"
    unfolding remounts_def by blast
  let ?ds = "edit_found q (set_mounted mp opts) ds"
  have "edit_found q g ?ds = edit_found q g ds"
    by (rule edit_edit) (simp add: set_mounted_def assms(2))
  moreover obtain ds' where "foldl copy_step (?ds, h) cs = (ds', h)" "edit_found q g ds' = edit_found q g ?ds"
    using Cons by auto
  ultimately show ?case using c by auto
qed simp

lemma update_told:
  "update_string old new w = (ok, v, w') \<Longrightarrow> sent w' = sent w \<and> writes w' = writes w"
  "update_label old new w = (ok, v, w') \<Longrightarrow> sent w' = sent w \<and> writes w' = writes w"
  by (auto simp: update_string_def update_label_def Let_def undefined_behaviour_def split: option.splits prod.splits if_splits
      dest!: malloc_sent decode_opt_sent)

lemma update_mnt_point_told:
  assumes "update_mnt_point cl q a i w = (True, i', w')" and "wire_text (Some q)"
    and "wire_text (md_mnt_point i)" and "wire_text (d_mnt_point a)" and "wire_text (d_mnt_opts a)"
  shows "\<exists>cs. told cl w w' cs \<and> list_all (remounts q) cs"
proof -
  let ?un = "case md_mnt_point i of None \<Rightarrow> False | Some mp \<Rightarrow> \<not> same_string (Some mp) (d_mnt_point a)"
  define i1 where "i1 = (if ?un then i\<lparr>md_mnt_point := None, md_mount_counter := 0\<rparr> else i)"
  define w1 where "w1 = (if ?un then notify_removable_device_unmounted q (the (md_mnt_point i)) cl w else w)"
  have "\<exists>cs. told cl w w1 cs \<and> list_all (remounts q) cs"
  proof (cases ?un)
    case True
    then obtain mp where "md_mnt_point i = Some mp" by (auto split: option.splits)
    with True assms(2,3) notes_told(2) [of q mp cl w] note_remounts(1) [of q mp]
    show ?thesis by (intro exI [of _ "[note_unmounted q mp]"]) (simp add: w1_def)
  next
    case False
    then show ?thesis by (intro exI [of _ "[]"]) (simp add: w1_def told_def)
  qed
  then obtain cs where cs: "told cl w w1 cs" "list_all (remounts q) cs" by blast
  have up: "update_mnt_point cl q a i w = (case (md_mnt_point i1, d_mnt_point a) of
      (None, Some n) \<Rightarrow> (case malloc w1 of (ok, w2) \<Rightarrow>
        if \<not> ok then (False, i1, w2)
        else (True, i1\<lparr>md_mnt_point := Some n, md_mount_counter := 1\<rparr>,
          (if d_mnt_opts a \<noteq> None then notify_removable_device_mounted q n (d_mnt_opts a) cl w2 else w2)))
    | _ \<Rightarrow> (True, i1, w1))"
    unfolding update_mnt_point_def i1_def w1_def by (cases "md_mnt_point i"; cases "d_mnt_point a") (simp_all add: Let_def)
  show ?thesis
  proof (cases "md_mnt_point i1 = None \<and> d_mnt_point a \<noteq> None")
    case False
    then have "w' = w1" using assms(1) by (auto simp: up split: option.splits)
    with cs show ?thesis by blast
  next
    case True
    then obtain n w2 where n: "d_mnt_point a = Some n" "malloc w1 = (True, w2)"
      and w': "w' = (if d_mnt_opts a \<noteq> None then notify_removable_device_mounted q n (d_mnt_opts a) cl w2 else w2)"
      using assms(1) by (auto simp: up split: prod.splits if_splits)
    have t2: "told cl w w2 cs" using told_append [OF cs(1) told_nothing] malloc_sent [OF n(2)] by fastforce
    show ?thesis
    proof (cases "d_mnt_opts a")
      case None
      with w' cs t2 show ?thesis by auto
    next
      case (Some opts)
      with w' told_append [OF t2, of w' "[note_mounted q n opts]"] notes_told(3) [of q n cl w2 opts]
        note_remounts(2) [of q n opts] n assms(2,4,5) cs(2)
      show ?thesis by (intro exI [of _ "cs @ [note_mounted q n opts]"]) simp
    qed
  qed
qed

lemma edit_same: "find_at par p ms = Some (pp, m) \<Longrightarrow> edit_media p (set_info (m_info m)) ms = ms"
proof (induction par p ms rule: find_at.induct)
  case (2 par p q i cs ms)
  then show ?case by (auto simp: set_info_def split: if_splits option.splits)
qed simp

lemma found_parent: "find_at par p ms = Some (pp, m) \<Longrightarrow> pp = par \<or> (\<exists>x. pp = Some x \<and> x \<in> paths None ms)"
proof (induction par p ms rule: find_at.induct)
  case (2 par p q i cs ms)
  then show ?case by (auto split: if_splits option.splits)
qed simp

lemma sound_path: "sound_tree ms \<Longrightarrow> x \<in> paths None ms \<Longrightarrow> wire_text (Some x)"
  by (auto simp: sound_tree_def every_node_def list_all_iff paths_def)

lemma found_parent_wire:
  assumes "sound_tree ms" and "find_at None p ms = Some (pp, m)"
  shows "wire_text (Some (parent_path pp))"
  using found_parent [OF assms(2)] sound_path [OF assms(1)]
  by (auto simp: parent_path_def dtmd_root_device_path_def wire_text_def no_nul_def)

lemma change_info_told:
  assumes "change_info cl q a i w = (ResultSuccess, i', w')" and "md_type i = d_type a" and "md_subtype i = d_subtype a"
    and "wire_text (Some q)" and "sound_info i" and "sound_info i'" and "d_path a = q"
  shows "\<exists>cs. told cl w w' (cs @ [note_device ''removable_device_changed''
      (if d_parent a = dtmd_root_device_path then None else Some (d_parent a)) q i']) \<and> list_all (remounts q) cs"
proof -
  have n: "\<not> nothing_changed a i" using assms(1) by (auto simp: change_info_def)
  obtain ok1 f w1 where 1: "update_string (md_fstype (i\<lparr>md_state := d_state a\<rparr>)) (d_fstype a) w = (ok1, f, w1)"
    by (metis prod_cases3)
  define i1 where "i1 = i\<lparr>md_state := d_state a, md_fstype := f\<rparr>"
  obtain ok2 l w2 where 2: "update_label (md_label i1) (d_label a) w1 = (ok2, l, w2)"
    by (metis prod_cases3)
  define i2 where "i2 = i1\<lparr>md_label := l\<rparr>"
  obtain ok3 i3 w3 where 3: "update_mnt_point cl q a i2 w2 = (ok3, i3, w3)"
    by (metis prod_cases3)
  obtain ok4 opts w4 where 4: "update_string (md_mnt_opts i3) (d_mnt_opts a) w3 = (ok4, opts, w4)"
    by (metis prod_cases3)
  note steps = change_info_steps [OF n 1 i1_def 2 i2_def 3 4 refl]
  from assms(1) have ok: "ok1" "ok2" "ok3" "ok4" "i' = i3\<lparr>md_mnt_opts := opts\<rparr>"
      "w' = notify_removable_device_changed (a\<lparr>d_label := md_label i'\<rparr>) cl w4"
    unfolding steps by (auto split: if_splits)
  have "a\<lparr>d_type := md_type i, d_subtype := md_subtype i\<rparr> = a" using assms(2,3) by simp
  with change_info_result [OF assms(1)] have b: "built_from a (md_sysfs_path i) i'" by simp
  then have am: "wire_text (d_mnt_point a)" "wire_text (d_mnt_opts a)"
    using assms(6) by (auto simp: built_from_def sound_info_def)
  have im: "wire_text (md_mnt_point i2)" using assms(5) by (simp add: i1_def i2_def sound_info_def)
  obtain cs where cs: "told cl w2 w3 cs" "list_all (remounts q) cs"
    using update_mnt_point_told [OF 3 [unfolded eqTrueI [OF ok(3)]] assms(4) im am] by blast
  let ?n = "note_device ''removable_device_changed''
      (if d_parent a = dtmd_root_device_path then None else Some (d_parent a)) q i'"
  have "told cl w4 w' [?n]"
    using note_of_desc [OF b assms(6), of "''removable_device_changed''"] assms(7)
    by (simp add: told_def ok(6) notify_removable_device_changed_def notify_each_common)
  with cs(1) update_told(1) [OF 1] update_told(2) [OF 2] update_told(1) [OF 4] have "told cl w w' (cs @ [?n])"
    by (simp add: told_def)
  with cs(2) show ?thesis by blast
qed

lemma changed_informs:
  assumes "change_media a s d = (r, d')" and "r \<noteq> ResultFatalError"
    and "sound_tree (removable_media_root d)" and "sound_tree (removable_media_root d')"
    and "\<And>pp m. find_at None (d_path a) (removable_media_root d) = Some (pp, m) \<Longrightarrow>
      md_type (m_info m) = d_type a \<and> md_subtype (m_info m) = d_subtype a"
  shows "informs (clients d) (removable_media_root d) (world d) (removable_media_root d') (world d')"
proof (cases "find_at None (d_path a) (removable_media_root d)")
  case None
  with assms(1) have "d' = d" by (simp add: change_media_def)
  then show ?thesis by (simp add: informs_nothing)
next
  case (Some pm)
  let ?root = "removable_media_root d" and ?q = "d_path a"
  obtain pp m where f: "find_at None ?q ?root = Some (pp, m)" using Some by (cases pm) auto
  note m = sound_found [OF assms(3) f]
  let ?w = "if label_compared_undefined a (m_info m) then undefined_behaviour (world d) else world d"
  have w: "sent ?w = sent (world d)" "writes ?w = writes (world d)" by (simp_all add: undefined_behaviour_def)
  obtain r1 i w1 where c: "change_info (clients d) ?q a (m_info m) ?w = (r1, i, w1)" by (metis prod_cases3)
  consider "d' = d" | (changed) "d_parent a = parent_path pp" "r = r1" "removable_media_root d' = edit_media ?q (set_info i) ?root" "world d' = w1"
    using assms(1) f c m(1) by (auto simp: change_media_def parent_path_def split: if_splits)
  then show ?thesis
  proof cases
    case 1
    then show ?thesis by (simp add: informs_nothing)
  next
    case changed
    show ?thesis
    proof (cases "r1 = ResultSuccess")
      case False
      with change_info_result [OF c] changed(2) assms(2) have "nothing_changed a (m_info m)" by auto
      with c have k: "i = m_info m" "w1 = ?w" by (auto simp: change_info_def)
      with changed w edit_same [OF f] show ?thesis by (intro informs_nothing) simp_all
    next
      case True
      have "find_at None ?q (removable_media_root d') = Some (pp, Media ?q i (m_children m))"
        unfolding changed(3) by (rule find_at_edit [OF f]) (simp_all add: set_info_def m(1))
      from sound_found(3) [OF assms(4) this] have si: "sound_info i" by simp
      let ?par = "if d_parent a = dtmd_root_device_path then None else Some (d_parent a)"
      let ?n = "note_device ''removable_device_changed'' ?par ?q i"
      obtain cs where cs: "told (clients d) ?w w1 (cs @ [?n])" "list_all (remounts ?q) cs"
        using change_info_told [OF c [unfolded True] _ _ m(2,3) si refl] assms(5) [OF f] by blast
      have pw: "wire_text (Some (parent_path ?par))"
        using found_parent_wire [OF assms(3) f] unfolding changed(1) [symmetric] by (auto simp: parent_path_def)
      have wire: "wire_command ?n" by (rule note_device_wire) (use si m(2) pw note_names in auto)
      have "follows ?root (removable_media_root d') (cs @ [?n])"
        unfolding follows_def
      proof (intro conjI allI impI)
        show "list_all wire_command (cs @ [?n])" using cs(2) wire by (auto simp: list_all_iff remounts_def)
      next
        fix ds and h :: handle assume mi: "mirrors ds ?root" and h: "allocs (h_world h) = []"
        let ?g = "copyFromRemovableMedia (RemovableMedia ?q (view_info i) [])"
        obtain ds' where ds': "foldl copy_step (ds, h) cs = (ds', h)" "edit_found ?q ?g ds' = edit_found ?q ?g ds"
          using remounts_then [OF cs(2), of ?g ds h] by (auto simp: copyFromRemovableMedia_def)
        have "copy_step (ds', h) ?n = (edit_found ?q ?g ds', h)"
          by (rule step_changed [OF _ wire h]) (use si in \<open>simp add: sound_info_def\<close>)
        with ds' mirror_changed [OF mi f, of i] changed(3)
        show "\<exists>ds'. foldl copy_step (ds, h) (cs @ [?n]) = (ds', h) \<and> mirrors ds' (removable_media_root d')" by simp
      qed
      moreover have "told (clients d) (world d) (world d') (cs @ [?n])"
        using cs(1) w changed(4) by (simp add: told_def)
      ultimately show ?thesis unfolding informs_def by blast
    qed
  qed
qed

section \<open>The mount table\<close>

lemma view_counter [simp]: "view_info (i\<lparr>md_mount_counter := n\<rparr>) = view_info i"
  by (simp add: view_info_def info_of_def client_view_def Let_def)

lemma view_mounted:
  "view_info (i\<lparr>md_mnt_point := mp, md_mnt_opts := opts\<rparr>) =
     seen_info ((view_info i)\<lparr>cpp_mnt_point := no_null mp, cpp_mnt_opts := no_null opts\<rparr>)"
  by (simp add: view_info_def info_of_def client_view_def Let_def seen_info_def no_null_def)

lemma cpp_tree_map:
  "(\<And>par q i. (par, q, i) \<in> set (nodes None ms) \<Longrightarrow> view_info (f q i) = view_info i) \<Longrightarrow> cpp_tree (map_tree f ms) = cpp_tree ms"
proof -
  have "(\<And>par' q i. (par', q, i) \<in> set (nodes par ms) \<Longrightarrow> view_info (f q i) = view_info i) \<Longrightarrow> cpp_tree (map_tree f ms) = cpp_tree ms" for par
    by (induction par ms rule: nodes.induct) auto
  then show "(\<And>par q i. (par, q, i) \<in> set (nodes None ms) \<Longrightarrow> view_info (f q i) = view_info i) \<Longrightarrow> cpp_tree (map_tree f ms) = cpp_tree ms" .
qed

text \<open>A device is remounted in place when an entry of the table names its mount point with other options.
  \<open>process_mount_opts\<close> stores these without telling anyone.\<close>

definition not_remounted :: "mntent list \<Rightarrow> string \<Rightarrow> media_info \<Rightarrow> bool" where
  "not_remounted es q i \<longleftrightarrow> (\<forall>e \<in> set es. mnt_fsname e = q \<and> mnt_dir e \<noteq> None \<and> mnt_dir e = md_mnt_point i \<and> mnt_opts e \<noteq> None \<longrightarrow>
     mnt_opts e = md_mnt_opts i)"

definition entry_wire :: "mntent \<Rightarrow> bool" where
  "entry_wire e \<longleftrightarrow> wire_text (mnt_dir e) \<and> wire_text (mnt_opts e)"

definition unsettled :: "mntent list \<Rightarrow> string \<Rightarrow> media_info \<Rightarrow> bool" where
  "unsettled es q i \<longleftrightarrow> wire_text (Some q) \<and> wire_text (md_mnt_point i) \<and> checking_ok i \<and>
     (md_mount_counter i AND is_processed \<noteq> 0 \<or> not_remounted es q i)"

text \<open>What is sent and done when a device is mounted at another place.\<close>

lemma process_mount_told:
  assumes "process_mount_dir cl q dir opts i w = (True, i', w')" and "md_mnt_point i \<noteq> Some dir"
    and "wire_text (Some q)" and "wire_text (md_mnt_point i)" and "wire_text (Some dir)" and "wire_text (Some opts)"
  shows "i' = i\<lparr>md_mnt_point := Some dir\<rparr> \<and> (\<exists>cs. told cl w w' cs \<and> list_all wire_command cs \<and>
    (\<forall>ds h. foldl copy_step (ds, h) cs = (edit_found q (set_mounted dir opts) ds, h)))"
proof -
  let ?un = "case md_mnt_point i of None \<Rightarrow> [] | Some mp \<Rightarrow> [note_unmounted q mp]"
  let ?wu = "case md_mnt_point i of None \<Rightarrow> w | Some mp \<Rightarrow> notify_removable_device_unmounted q mp cl w"
  note mounted = step_mounted [OF wire_nonempty wire_nonempty wire_nonempty, OF assms(3,5,6)]
  obtain w2 where w2: "malloc ?wu = (True, w2)" "i' = i\<lparr>md_mnt_point := Some dir\<rparr>"
      "w' = notify_removable_device_mounted q dir (Some opts) cl w2"
    using assms(1,2)
    by (cases "md_mnt_point i") (auto simp: process_mount_dir_def Let_def split: prod.splits if_splits)
  have "told cl w ?wu ?un" using assms(3,4) notes_told(2) by (cases "md_mnt_point i") (simp_all add: told_def)
  moreover have "told cl ?wu w2 []" using malloc_sent [OF w2(1)] by (simp add: told_def)
  moreover have "told cl w2 w' [note_mounted q dir opts]"
    using notes_told(3) [OF assms(3,5)] w2(3) by simp
  ultimately have t: "told cl w w' (?un @ [note_mounted q dir opts])"
    by (simp add: told_def)
  have s: "foldl copy_step (ds, h) (?un @ [note_mounted q dir opts]) = (edit_found q (set_mounted dir opts) ds, h)" for ds h
  proof (cases "md_mnt_point i")
    case None
    then show ?thesis using mounted by simp
  next
    case (Some mp)
    have "edit_found q (set_mounted dir opts) (edit_found q (set_mounted '''' '''') ds) = edit_found q (set_mounted dir opts) ds"
      by (rule edit_edit) (simp add: set_mounted_def)
    with Some show ?thesis using mounted step_unmounted [OF wire_nonempty wire_nonempty, OF assms(3), of mp] assms(4) by simp
  qed
  have "list_all wire_command (?un @ [note_mounted q dir opts])"
    using assms(3-6) notes_wire by (auto split: option.splits)
  with t s w2(2) show ?thesis by blast
qed

lemma process_entry_told:
  assumes "process_entry cl e q i w = (True, i', w')" and "unsettled (e # es) q i" and "mnt_fsname e = q" and "entry_wire e"
  shows "unsettled es q i' \<and> (told cl w w' [] \<and> view_info i' = view_info i \<or>
    (\<exists>cs dir opts. told cl w w' cs \<and> list_all wire_command cs \<and>
      (\<forall>ds h. foldl copy_step (ds, h) cs = (edit_found q (set_mounted dir opts) ds, h)) \<and>
      view_info i' = seen_info ((view_info i)\<lparr>cpp_mnt_point := dir, cpp_mnt_opts := opts\<rparr>)))"
proof -
  have ok: "checking_ok i'" using process_entry_ok [OF assms(1)] assms(2) by (simp add: unsettled_def)
  consider (processed) "md_mount_counter i AND is_processed \<noteq> 0"
    | (absent) "md_mount_counter i AND is_processed = 0" "mnt_dir e = None \<or> mnt_opts e = None"
    | (entry) dir opts where "md_mount_counter i AND is_processed = 0" "mnt_dir e = Some dir" "mnt_opts e = Some opts"
    by fastforce
  then show ?thesis
  proof cases
    case processed
    with assms(1,2) show ?thesis by (simp add: process_entry_def unsettled_def told_def)
  next
    case absent
    define n where "n = (md_mount_counter i OR is_processed) AND NOT is_mounted_now"
    have "process_entry cl e q i w = (True, i\<lparr>md_mount_counter := n\<rparr>, w)"
      using absent by (cases "mnt_dir e"; cases "mnt_opts e") (simp_all add: process_entry_def Let_def n_def)
    then have i': "i' = i\<lparr>md_mount_counter := n\<rparr>" "w' = w" using assms(1) by simp_all
    have "not_remounted es q i'"
      using assms(2) absent(1) i' by (auto simp: unsettled_def not_remounted_def)
    with assms(2) i' ok show ?thesis by (simp add: unsettled_def told_def)
  next
    case (entry dir opts)
    then have ew: "wire_text (Some dir)" "wire_text (Some opts)" using assms(4) by (simp_all add: entry_wire_def)
    have q: "wire_text (Some q)" "wire_text (md_mnt_point i)" using assms(2) by (simp_all add: unsettled_def)
    define i2 where "i2 = i\<lparr>md_mount_counter := (md_mount_counter i OR is_processed) OR is_mounted_now\<rparr>"
    have i2: "md_mnt_point i2 = md_mnt_point i" "view_info i2 = view_info i" "md_mount_counter i2 AND is_processed \<noteq> 0"
      by (simp_all add: i2_def mount_bit_simps) (simp add: mount_bits)
    obtain ok1 i3 w1 where 1: "process_mount_dir cl q dir opts i2 w = (ok1, i3, w1)" by (metis prod_cases3)
    have 2: "ok1" "process_mount_opts opts i3 w1 = (True, i', w')"
      using assms(1) entry 1 by (simp_all add: process_entry_def Let_def i2_def split: if_splits)
    have o: "sent w' = sent w1" "writes w' = writes w1" "i' = i3\<lparr>md_mnt_opts := Some opts\<rparr>"
      using 2(2) by (auto simp: process_mount_opts_def dest!: malloc_sent split: option.splits prod.splits if_splits)
    show ?thesis
    proof (cases "md_mnt_point i = Some dir")
      case True
      with 1 i2(1) have s: "i3 = i2" "w1 = w" by (simp_all add: process_mount_dir_def)
      have "md_mnt_opts i2 = Some opts"
        using assms(2,3) entry True by (auto simp: unsettled_def not_remounted_def i2_def)
      then have "i' = i2" using o(3) s(1) by simp
      with i2 q ok o s show ?thesis by (simp add: unsettled_def told_def)
    next
      case False
      with process_mount_told [OF 1 [unfolded eqTrueI [OF 2(1)]] _ q(1) _ ew] q(2) i2(1) obtain cs where
        i3: "i3 = i2\<lparr>md_mnt_point := Some dir\<rparr>" and cs: "told cl w w1 cs" "list_all wire_command cs"
          "\<forall>ds h. foldl copy_step (ds, h) cs = (edit_found q (set_mounted dir opts) ds, h)" by auto
      have "view_info i' = seen_info ((view_info i)\<lparr>cpp_mnt_point := dir, cpp_mnt_opts := opts\<rparr>)"
        using view_mounted [where i = i2 and mp = "Some dir" and opts = "Some opts"] o(3) i3 i2(2) by (simp add: no_null_def)
      moreover have "unsettled es q i'" using q(1) ok i2(3) ew o(3) i3 by (simp add: unsettled_def)
      moreover have "told cl w w' cs" using cs(1) o(1,2) by (simp add: told_def)
      ultimately show ?thesis using cs(2,3) by blast
    qed
  qed
qed

lemma cpp_tree_same:
  "find_at par p ms = Some (pp, m) \<Longrightarrow> view_info i = view_info (m_info m) \<Longrightarrow>
     cpp_tree (edit_media p (set_info i) ms) = cpp_tree ms"
proof (induction par p ms rule: find_at.induct)
  case (2 par p q j cs ms)
  then show ?case by (auto simp: set_info_def split: if_splits option.splits)
qed simp

lemma paths_set_info_all: "map node_path (nodes par (edit_media p (set_info i) ms)) = map node_path (nodes par ms)"
  by (induction p "set_info i" ms arbitrary: par rule: edit_media.induct) (simp_all add: set_info_def)

lemma process_entries_informs:
  "process_entries cl es ms w = (True, ms', w') \<Longrightarrow> every_node (unsettled es) ms \<Longrightarrow> list_all entry_wire es \<Longrightarrow>
     informs cl ms w ms' w' \<and> every_node (unsettled []) ms' \<and> map node_path (nodes None ms') = map node_path (nodes None ms)"
proof (induction es arbitrary: ms w)
  case Nil
  then show ?case by (simp add: informs_nothing)
next
  case (Cons e es)
  have un: "unsettled (e # es) q i \<Longrightarrow> unsettled es q i" for q i
    by (auto simp: unsettled_def not_remounted_def)
  have rest: "every_node (unsettled es) ms" using every_node_mono [OF Cons.prems(2)] un by blast
  from Cons.prems(1) show ?case
  proof (cases rule: process_entries_cases)
    case 1
    with Cons.IH rest Cons.prems(3) show ?thesis by simp
  next
    case (2 m i w1)
    let ?q = "mnt_fsname e" and ?ms = "edit_media (mnt_fsname e) (set_info i) ms"
    from 2(2) obtain pp where f: "find_at None ?q ms = Some (pp, m)" by (auto simp: dtmd_find_media_def)
    have q: "m_path m = ?q" using find_at_Some [OF f] by simp
    have "unsettled (e # es) ?q (m_info m)" using every_node_root [OF every_node_find [OF Cons.prems(2) f]] q by simp
    from process_entry_told [OF 2(3) [unfolded q] this refl] Cons.prems(3)
    have u: "unsettled es ?q i" and t: "told cl w w1 [] \<and> view_info i = view_info (m_info m) \<or>
      (\<exists>cs dir opts. told cl w w1 cs \<and> list_all wire_command cs \<and>
        (\<forall>ds h. foldl copy_step (ds, h) cs = (edit_found ?q (set_mounted dir opts) ds, h)) \<and>
        view_info i = seen_info ((view_info (m_info m))\<lparr>cpp_mnt_point := dir, cpp_mnt_opts := opts\<rparr>))" by simp_all
    from t have "informs cl ms w ?ms w1"
    proof
      assume a: "told cl w w1 [] \<and> view_info i = view_info (m_info m)"
      have "cpp_tree ?ms = cpp_tree ms" by (rule cpp_tree_same [OF f]) (use a in simp)
      with a show ?thesis unfolding informs_def by (blast intro: follows_nothing)
    next
      assume "\<exists>cs dir opts. told cl w w1 cs \<and> list_all wire_command cs \<and>
        (\<forall>ds h. foldl copy_step (ds, h) cs = (edit_found ?q (set_mounted dir opts) ds, h)) \<and>
        view_info i = seen_info ((view_info (m_info m))\<lparr>cpp_mnt_point := dir, cpp_mnt_opts := opts\<rparr>)"
      then obtain cs dir opts where c: "told cl w w1 cs" "list_all wire_command cs"
        "\<And>ds h. foldl copy_step (ds, h) cs = (edit_found ?q (set_mounted dir opts) ds, h)"
        "view_info i = seen_info ((view_info (m_info m))\<lparr>cpp_mnt_point := dir, cpp_mnt_opts := opts\<rparr>)" by blast
      from c(2,3) mirror_mounted [OF _ f c(4)] have "follows ms ?ms cs" by (simp add: follows_def)
      with c(1) show ?thesis unfolding informs_def by blast
    qed
    moreover have "informs cl ?ms w1 ms' w' \<and> every_node (unsettled []) ms' \<and>
        map node_path (nodes None ms') = map node_path (nodes None ?ms)"
      by (rule Cons.IH [OF 2(4) every_node_set_info [OF rest u]]) (use Cons.prems(3) in simp)
    ultimately show ?thesis using informs_trans paths_set_info_all by metis
  qed
qed

fun clear :: "string set \<Rightarrow> removable_media list \<Rightarrow> removable_media list" where
  "clear S [] = []"
| "clear S (RemovableMedia q i cs # ms) =
     RemovableMedia q (if q \<in> S then i\<lparr>cpp_mnt_point := '''', cpp_mnt_opts := ''''\<rparr> else i) (clear S cs) # clear S ms"

lemma clear_clear: "clear S (clear T ds) = clear (S \<union> T) ds"
  by (induction T ds rule: clear.induct) auto

lemma clear_paths [simp]: "copy_paths (clear S ds) = copy_paths ds"
  by (induction S ds rule: clear.induct) auto

lemma clear_none: "S \<inter> set (copy_paths ds) = {} \<Longrightarrow> clear S ds = ds"
  by (induction S ds rule: clear.induct) (auto simp: disjoint_iff)

lemma seen_clear: "seen (clear S ds) = clear S (seen ds)"
  by (induction S ds rule: clear.induct) (auto simp: seen_info_def)

lemma edit_clear: "distinct (copy_paths ds) \<Longrightarrow> edit_found p (set_mounted '''' '''') ds = clear {p} ds"
proof (induction p "set_mounted '''' ''''" ds rule: edit_found.induct)
  case (2 path q i cs ms)
  then show ?case by (auto simp: found_iff clear_none disjoint_iff set_mounted_def)
qed simp

definition unmounted_now :: "media_info \<Rightarrow> bool" where
  "unmounted_now i \<longleftrightarrow> md_mount_counter i AND is_mounted_now = 0 \<and> md_mount_counter i AND is_mounted_last \<noteq> 0"

definition change_notes :: "node \<Rightarrow> dt_command list" where
  "change_notes n = (case n of (par, q, i) \<Rightarrow>
     if unmounted_now i then (case md_mnt_point i of None \<Rightarrow> [] | Some mp \<Rightarrow> [note_unmounted q mp]) else [])"

definition change_ready :: "string \<Rightarrow> media_info \<Rightarrow> bool" where
  "change_ready q i \<longleftrightarrow> wire_text (Some q) \<and> wire_text (md_mnt_point i) \<and> (unmounted_now i \<longrightarrow> md_mnt_point i \<noteq> None)"

lemma process_changes_told:
  "every_node change_ready ms \<Longrightarrow> process_changes cl ms w = (ms', w') \<Longrightarrow>
     told cl w w' (concat (map change_notes (nodes par ms)))"
proof (induction cl ms w arbitrary: par ms' w' rule: process_changes.induct)
  case (2 cl q i cs ms w)
  obtain i' w1 where 1: "process_change cl q i w = (i', w1)" by fastforce
  obtain cs' w2 where c: "process_changes cl cs w1 = (cs', w2)" by fastforce
  obtain ms1 w3 where m: "process_changes cl ms w2 = (ms1, w3)" by fastforce
  have "w1 = (if unmounted_now i then case md_mnt_point i of None \<Rightarrow> undefined_behaviour w
      | Some mp \<Rightarrow> notify_removable_device_unmounted q mp cl w else w)"
    using 1 by (auto simp: process_change_def unmounted_now_def Let_def split: if_splits)
  with 2(3) have t1: "told cl w w1 (change_notes (par, q, i))"
    using notes_told(2) by (auto simp: change_notes_def change_ready_def told_def split: option.splits)
  have t2: "told cl w1 w2 (concat (map change_notes (nodes (Some q) cs)))"
    using 2(1) [OF 1 [symmetric] _ c] 2(3) by simp
  have t3: "told cl w2 w3 (concat (map change_notes (nodes par ms)))"
    using 2(2) [OF 1 [symmetric] c [symmetric] _ m] 2(3) by simp
  from told_append [OF told_append [OF t1 t2] t3] 2(4) 1 c m show ?case by simp
qed (simp add: told_def)

lemma change_notes_steps:
  assumes "\<And>par q i. (par, q, i) \<in> set ns \<Longrightarrow> change_ready q i" and "distinct (copy_paths ds)"
  shows "foldl copy_step (ds, h) (concat (map change_notes ns)) = (clear {q. \<exists>par i. (par, q, i) \<in> set ns \<and> unmounted_now i} ds, h)"
  using assms
proof (induction ns arbitrary: ds)
  case Nil
  then show ?case by (simp add: clear_none)
next
  case (Cons n ns)
  obtain par q i where n: "n = (par, q, i)" by (cases n)
  let ?S = "if unmounted_now i then {q} else {}" and ?T = "{q. \<exists>par i. (par, q, i) \<in> set ns \<and> unmounted_now i}"
  have r: "change_ready q i" using Cons.prems(1) [of par q i] n by simp
  have "foldl copy_step (ds, h) (change_notes n) = (clear ?S ds, h)"
  proof (cases "unmounted_now i")
    case True
    with r obtain mp where mp: "md_mnt_point i = Some mp" by (auto simp: change_ready_def)
    with r have "q \<noteq> ''''" "mp \<noteq> ''''" by (simp_all add: change_ready_def wire_nonempty)
    from step_unmounted [OF this] True mp n edit_clear [OF Cons.prems(2)] show ?thesis by (simp add: change_notes_def)
  next
    case False
    then show ?thesis by (simp add: n change_notes_def clear_none)
  qed
  moreover have "foldl copy_step (clear ?S ds, h) (concat (map change_notes ns)) = (clear ?T (clear ?S ds), h)"
    by (rule Cons.IH) (use Cons.prems in auto)
  moreover have "?T \<union> ?S = {q. \<exists>par i. (par, q, i) \<in> set (n # ns) \<and> unmounted_now i}" using n by auto
  ultimately show ?case by (simp add: clear_clear)
qed

lemma clear_tree:
  "(\<And>par' q i. (par', q, i) \<in> set (nodes par ms) \<Longrightarrow> q \<in> S \<longleftrightarrow> unmounted_now i) \<Longrightarrow>
     clear S (cpp_tree ms) = cpp_tree (map_tree (\<lambda>q. change_result) ms)"
proof (induction par ms rule: nodes.induct)
  case (2 par q i cs ms)
  have "view_info (change_result i) = (if unmounted_now i then (view_info i)\<lparr>cpp_mnt_point := '''', cpp_mnt_opts := ''''\<rparr> else view_info i)"
    using view_mounted [where i = i and mp = None and opts = None]
    by (auto simp: change_result_def unmounted_now_def view_info_def info_of_def client_view_def Let_def no_null_def)
  with 2 show ?case by auto
qed simp

lemma change_notes_wire: "change_ready q i \<Longrightarrow> c \<in> set (change_notes (par, q, i)) \<Longrightarrow> wire_command c"
  by (cases "unmounted_now i"; cases "md_mnt_point i") (simp_all add: change_notes_def change_ready_def notes_wire)

lemma process_changes_follows:
  assumes "every_node change_ready ms" and "distinct (map node_path (nodes None ms))"
  shows "follows ms (map_tree (\<lambda>q. change_result) ms) (concat (map change_notes (nodes None ms)))"
proof -
  have ready: "change_ready q i" if "(par, q, i) \<in> set (nodes None ms)" for par q i
    using that assms(1) by (auto simp: every_node_def list_all_iff)
  let ?cs = "concat (map change_notes (nodes None ms))" and ?S = "{q. \<exists>par i. (par, q, i) \<in> set (nodes None ms) \<and> unmounted_now i}"
  have S: "q \<in> ?S \<longleftrightarrow> unmounted_now i" if "(par, q, i) \<in> set (nodes None ms)" for par q i
  proof
    assume "q \<in> ?S"
    then obtain par' j where j: "(par', q, j) \<in> set (nodes None ms)" "unmounted_now j" by auto
    with node_of_path [OF assms(2) that j(1)] show "unmounted_now i" by simp
  qed (use that in auto)
  have "\<exists>ds'. foldl copy_step (ds, h) ?cs = (ds', h) \<and> mirrors ds' (map_tree (\<lambda>q. change_result) ms)"
    if m: "mirrors ds ms" for ds h
  proof -
    have d: "distinct (copy_paths ds)" using assms(2) mirror_paths [OF m] by simp
    have "foldl copy_step (ds, h) ?cs = (clear ?S ds, h)"
      by (rule change_notes_steps) (rule ready, assumption, rule d)
    moreover have "clear ?S (cpp_tree ms) = cpp_tree (map_tree (\<lambda>q. change_result) ms)"
      by (rule clear_tree [of None]) (rule S)
    with m have "mirrors (clear ?S ds) (map_tree (\<lambda>q. change_result) ms)"
      by (simp only: mirrors_def seen_clear)
    ultimately show ?thesis by blast
  qed
  moreover have "list_all wire_command ?cs"
    using ready change_notes_wire unfolding list_all_iff by fastforce
  ultimately show ?thesis unfolding follows_def by blast
qed

lemma mounts_informs:
  assumes "check_mount_changes (Some es) d = (r, d')" and "r \<noteq> ResultFatalError"
    and "sound_tree (removable_media_root d)" and "list_all entry_wire es"
    and "every_node (not_remounted es) (removable_media_root d)"
  shows "informs (clients d) (removable_media_root d) (world d) (removable_media_root d') (world d')"
proof -
  let ?root = "removable_media_root d"
  obtain ok ms w where 1: "process_entries (clients d) es (mark_each_device ?root) (world d) = (ok, ms, w)"
    by (metis prod_cases3)
  obtain ms' w' where 2: "process_changes (clients d) ms w = (ms', w')" by fastforce
  have ok: "ok" "removable_media_root d' = ms'" "world d' = w'"
    using assms(1,2) 1 2 by (auto simp: check_mount_changes_def split: if_splits)
  have ms': "ms' = map_tree (\<lambda>q. change_result) ms" using fst_process_changes [of "clients d" ms w] 2 by simp
  have "every_node (\<lambda>q i. (wire_text (Some q) \<and> sound_info i) \<and> not_remounted es q i) ?root"
    using assms(3,5) by (auto simp: sound_tree_def every_node_def list_all_iff)
  then have "every_node (unsettled es) (mark_each_device ?root)"
    unfolding mark_map_tree
  proof (rule every_node_map_tree)
    fix q i assume a: "(wire_text (Some q) \<and> sound_info i) \<and> not_remounted es q i"
    then have "device_ok i" by (auto simp: sound_info_def device_ok_def described_def)
    moreover have "not_remounted es q (i\<lparr>md_mount_counter := n\<rparr>)" for n
      using a by (auto simp: not_remounted_def)
    ultimately show "unsettled es q (i\<lparr>md_mount_counter := push_bit 1 (md_mount_counter i)\<rparr>)"
      using a marked_ok [of i] by (simp add: unsettled_def sound_info_def)
  qed
  from process_entries_informs [OF 1 [unfolded eqTrueI [OF ok(1)]] this assms(4)]
  have e: "informs (clients d) (mark_each_device ?root) (world d) ms w" "every_node (unsettled []) ms"
      "distinct (map node_path (nodes None ms))"
    using assms(3) by (simp_all add: mark_map_tree sound_tree_def)
  have "informs (clients d) ?root (world d) (mark_each_device ?root) (world d)"
    by (rule informs_nothing) (simp_all add: mark_map_tree cpp_tree_map)
  moreover have "informs (clients d) ms w ms' w'"
  proof -
    have r: "every_node change_ready ms"
      using e(2) by (rule every_node_mono) (auto simp: unsettled_def change_ready_def unmounted_now_def checking_ok_def)
    from process_changes_told [OF r 2, of None] process_changes_follows [OF r e(3)] show ?thesis
      unfolding informs_def ms' by blast
  qed
  ultimately show ?thesis unfolding ok(2,3) using e(1) informs_trans by blast
qed

section \<open>A run of the daemon\<close>

text \<open>What the daemon does to its tree between two requests of a client.\<close>

datatype tree_op = Added device_desc "string option" | Removed string | Changed device_desc "string option"
  | Mounts "mntent list option"

fun tree_step :: "tree_op \<Rightarrow> daemon \<Rightarrow> result \<times> daemon" where
  "tree_step (Added a s) d = add_media a s d"
| "tree_step (Removed p) d = remove_media p d"
| "tree_step (Changed a s) d = change_media a s d"
| "tree_step (Mounts es) d = check_mount_changes es d"

text \<open>The operations whose notifications tell everything: a change that keeps the type and the subtype of the
  device, and a mount table in which no device is remounted in place.\<close>

fun told_fully :: "tree_op \<Rightarrow> media list \<Rightarrow> bool" where
  "told_fully (Added a s) ms \<longleftrightarrow> dtmd_root_device_path \<notin> paths None ms"
| "told_fully (Removed p) ms \<longleftrightarrow> True"
| "told_fully (Changed a s) ms \<longleftrightarrow> (case find_at None (d_path a) ms of None \<Rightarrow> True
     | Some (pp, m) \<Rightarrow> md_type (m_info m) = d_type a \<and> md_subtype (m_info m) = d_subtype a)"
| "told_fully (Mounts es) ms \<longleftrightarrow> (case es of None \<Rightarrow> True | Some es \<Rightarrow> list_all entry_wire es \<and> every_node (not_remounted es) ms)"

text \<open>The run goes on as long as no operation ends it, and the devices stay such as the protocol can
  carry.\<close>

fun tree_run :: "tree_op list \<Rightarrow> daemon \<Rightarrow> daemon option" where
  "tree_run [] d = Some d"
| "tree_run (x # xs) d = (case tree_step x d of (r, d') \<Rightarrow>
     if told_fully x (removable_media_root d) \<and> r \<noteq> ResultFatalError \<and> sound_tree (removable_media_root d')
     then tree_run xs d' else None)"

lemma step_clients: "tree_step x d = (r, d') \<Longrightarrow> clients d' = clients d"
  by (cases x) (auto simp: add_media_def remove_media_def change_media_def check_mount_changes_def Let_def
      split: option.splits prod.splits if_splits)

lemma step_informs:
  assumes "tree_step x d = (r, d')" and "r \<noteq> ResultFatalError" and "told_fully x (removable_media_root d)"
    and "sound_tree (removable_media_root d)" and "sound_tree (removable_media_root d')"
  shows "informs (clients d) (removable_media_root d) (world d) (removable_media_root d') (world d')"
proof (cases x)
  case (Added a s)
  with added_informs [OF _ assms(2,4,5)] assms(1,3) show ?thesis by simp
next
  case (Removed p)
  with removed_informs [OF _ assms(4)] assms(1) show ?thesis by simp
next
  case (Changed a s)
  with assms(3) have "md_type (m_info m) = d_type a \<and> md_subtype (m_info m) = d_subtype a"
    if "find_at None (d_path a) (removable_media_root d) = Some (pp, m)" for pp m
    using that by simp
  with changed_informs [OF _ assms(2,4,5)] assms(1) Changed show ?thesis by simp
next
  case (Mounts es)
  with assms(1,2) obtain t where "es = Some t" by (cases es) (auto simp: check_mount_changes_def)
  with Mounts mounts_informs [OF _ assms(2,4)] assms(1,3) show ?thesis by simp
qed

lemma run_informs:
  "tree_run xs d = Some d' \<Longrightarrow> sound_tree (removable_media_root d) \<Longrightarrow>
     informs (clients d) (removable_media_root d) (world d) (removable_media_root d') (world d')"
proof (induction xs arbitrary: d)
  case (Cons x xs)
  obtain r d1 where s: "tree_step x d = (r, d1)" by fastforce
  with Cons.prems(1) have a: "told_fully x (removable_media_root d)" "r \<noteq> ResultFatalError"
      "sound_tree (removable_media_root d1)" "tree_run xs d1 = Some d'"
    by (simp_all split: if_splits)
  from informs_trans [OF step_informs [OF s a(2,1) Cons.prems(2) a(3)]] Cons.IH [OF a(4,3)] step_clients [OF s]
  show ?case by simp
qed (simp add: informs_nothing)

section \<open>Properties\<close>

text \<open>C27. The copy of the graphical client follows the daemon.  Whatever devices the daemon adds, removes,
  changes, mounts and unmounts, the messages it sends to every client are notifications of the
  protocol, and when the client has processed them, a copy that mirrored the daemon's tree before
  mirrors it after: the same devices below the same parents in the same order, with all the protocol
  carries of them.  It is so as long as no operation ends with a fatal error, the daemon's devices are
  such as the protocol can carry, no change gives a device another type or subtype, and no device is
  remounted in place with other options: of the last two the messages do not tell everything.\<close>

theorem qt_mirrors_daemon:
  assumes "tree_run xs d = Some d'" and "sound_tree (removable_media_root d)" and "writes (world d) = []"
  shows "\<exists>cs. sent (world d') = sent (world d) @ concat (map (\<lambda>c. to_all (clients d) (wire_message c)) cs) \<and>
    list_all wire_command cs \<and>
    (\<forall>ds h. mirrors ds (removable_media_root d) \<longrightarrow> allocs (h_world h) = [] \<longrightarrow>
      (\<exists>ds'. foldl copy_step (ds, h) cs = (ds', h) \<and> mirrors ds' (removable_media_root d')))"
  using run_informs [OF assms(1,2)] assms(3) unfolding informs_def told_def follows_def by blast

section \<open>Where the copy starts, and what it misses\<close>

lemma set_insert_end: "\<forall>y \<in> set found. cpp_path y < cpp_path x \<Longrightarrow> set_insert x found = found @ [x]"
  by (induction found) (auto simp: not_less_iff_gr_or_eq)

lemma fill_tree:
  "siblings_ok ms \<Longrightarrow> \<forall>y \<in> set found. \<forall>m \<in> set ms. cpp_path y < m_path m \<Longrightarrow>
     fillFromRemovableMedia (client_tree ms) found = found @ cpp_tree ms"
proof (induction ms arbitrary: found rule: media_induct)
  case (Cons q i cs ms)
  from Cons.prems(1) have ok: "siblings_ok cs" "siblings_ok ms" "\<forall>m \<in> set ms. q \<le> m_path m" "q \<notin> paths None ms"
    by (simp_all add: siblings_ok_Cons)
  then have later: "\<forall>m \<in> set ms. q < m_path m" using top_paths [of ms] by (fastforce simp: order_less_le)
  let ?x = "RemovableMedia q (view_info i) (cpp_tree cs)"
  have "fillFromRemovableMedia (client_tree cs) [] = cpp_tree cs" using Cons.IH(1) [OF ok(1), of "[]"] by simp
  moreover have "set_insert ?x found = found @ [?x]" by (rule set_insert_end) (use Cons.prems(2) in simp)
  moreover have "fillFromRemovableMedia (client_tree ms) (found @ [?x]) = (found @ [?x]) @ cpp_tree ms"
    by (rule Cons.IH(2) [OF ok(2)]) (use Cons.prems(2) later in auto)
  ultimately show ?case by (simp add: view_info_def)
qed simp

lemma seen_tree: "seen (cpp_tree ms) = cpp_tree ms"
  by (induction ms rule: media_induct) auto

text \<open>The first listing makes a copy that mirrors the daemon's tree.\<close>

lemma listed_mirrors: "listable ms \<Longrightarrow> mirrors (fillFromRemovableMedia (client_tree ms) []) ms"
  using fill_tree [of ms "[]"] by (simp add: listable_def mirrors_def seen_tree)

text \<open>A device that is remounted in place with other options: the daemon stores the options and tells no
  client.\<close>

definition remount_table :: "mntent list" where
  "remount_table = [\<lparr>mnt_fsname = ''/dev/sdb1'', mnt_dir = Some ''/media/a'', mnt_type = ''vfat'', mnt_opts = Some ''ro''\<rparr>]"

lemma remount_untold:
  "case check_mount_changes (Some remount_table) disk_daemon of (r, d') \<Rightarrow> r = ResultSuccess \<and>
     sent (world d') = sent (world disk_daemon) \<and>
     cpp_tree (removable_media_root d') \<noteq> cpp_tree (removable_media_root disk_daemon)"
  by code_simp

section \<open>Witness\<close>

definition demo_run :: "tree_op list" where
  "demo_run = [Mounts (Some []), Changed (part_desc\<lparr>d_label := Some ''c''\<rparr>) None, Removed ''/dev/sdb'', Added disk_desc None,
     Added part_desc None]"

lemma demo_run_ends: "tree_run demo_run disk_daemon \<noteq> None"
  by code_simp

lemma disk_sound: "sound_tree (removable_media_root disk_daemon)"
  by code_simp

theorem qt_mirrors_daemon_witness:
  "\<exists>d' cs ds'. tree_run demo_run disk_daemon = Some d' \<and>
    foldl copy_step (fillFromRemovableMedia (client_tree (removable_media_root disk_daemon)) [], demo_client []) cs =
      (ds', demo_client []) \<and> mirrors ds' (removable_media_root d')"
proof -
  obtain d' where d': "tree_run demo_run disk_daemon = Some d'" using demo_run_ends by blast
  have "allocs (h_world (demo_client [])) = []" by (simp add: demo_client_def quiet_io_def)
  with qt_mirrors_daemon [OF d' disk_sound disk_find(3)] listed_mirrors [OF disk_listable] d' show ?thesis by blast
qed

end
