(* ===== verification/Spec2Isabelle.thy ===== *)
theory Spec2Isabelle
  imports Dtmd_Worker_Spec Dtmd_Handover Dtmd_Udev_Spec Dtmd_Uevent_Spec Dtmd_Monitors Dtmd_Console_Spec Dtmd_Start Dtmd_Lifecycle Dtmd_Mirror
begin

text \<open>
  Verification development for dtmd, the Dark Templar Mount Daemon: a daemon that keeps track of
  the removable media of a machine and mounts, unmounts and powers them off for its clients, the
  library the clients use with its C++ interface, the console client and the graphical client.  File names are those under \<^verbatim>\<open>src/\<close>.

  \<^bold>\<open>The program.\<close>  The daemon (\<^verbatim>\<open>daemon/daemon-main.c\<close>) reads its configuration, makes sure by a lock
  file that it is alone, asks a device module for the devices there are, and then waits in one
  event loop for new clients, events of the device module, changes of the kernel's mount table
  and text from its clients.  Its state is a tree of devices and a list of clients
  (\<^verbatim>\<open>daemon/lists.c\<close>); every change of the tree is announced to all clients.  A client's line is one
  of seven commands (\<^verbatim>\<open>daemon/actions.c\<close>): four listings, and mount, unmount and power off, which go to
  the system (\<^verbatim>\<open>daemon/filesystem_mnt.c\<close>, \<^verbatim>\<open>daemon/poweroff.c\<close>) with options that have been checked
  (\<^verbatim>\<open>daemon/filesystem_opts.c\<close>).  The library (\<^verbatim>\<open>library/dtmd-library.c\<close>) has a worker thread that reads
  the announcements and lends the socket to the thread that makes a request.

  \<^bold>\<open>The theories\<close>, each named after what it models; a theory with the suffix \<open>_Spec\<close> has the lemmas and
  properties of the one without it.

  \<^item> \<open>Dtmd_Prelude\<close>: result codes (\<^verbatim>\<open>daemon/return_codes.h\<close>), C strings and the parts of \<^verbatim>\<open>string.h\<close>
    and \<^verbatim>\<open>ctype.h\<close> that are used, and the record \<open>io\<close> of what a process does to the outside: the
    outcomes of its next allocations and writes (an exhausted list stands for success), the
    texts sent to each descriptor, the descriptors closed, and the flag \<open>undefined_seen\<close>, which is set
    where the C code has undefined behaviour, such as an overrun buffer.
  \<^item> \<open>Dtmd_Misc\<close>: the words of the protocol (\<^verbatim>\<open>dtmd.h.in\<close>, \<^verbatim>\<open>library/dtmd-misc.c\<close>); \<open>Dtmd_Label\<close>: volume
    labels (\<^verbatim>\<open>daemon/label.c\<close>).
  \<^item> \<open>Dtmd_State\<close>, \<open>Dtmd_Lists\<close>, \<open>Dtmd_Lists_Spec\<close>, \<open>Dtmd_Tree_Inv\<close>: the tree and the clients
    (\<^verbatim>\<open>daemon/lists.c\<close>).  The pointers of the C structures become lists: siblings are a list, a device
    has the list of its children, a pointer to a device is the path it is found by, and the list
    of clients is a list.  \<open>nodes\<close> is the tree as the sequence of its devices with their parents, in
    which the effects of the operations are stated.
  \<^item> \<open>Dtmd_Mounts(_Spec)\<close>: the mount points of the tree, following the mount table, and \<^verbatim>\<open>mtab\<close>
    (\<^verbatim>\<open>daemon/mnt_funcs.c\<close>).
  \<^item> \<open>Dtmd_Fsopts_Tables\<close>, \<open>Dtmd_Fsopts(_Spec)\<close>: mount options (\<^verbatim>\<open>daemon/filesystem_opts.c\<close>), with the mount
    flags as words of 64 bits; \<open>Dtmd_Config(_Spec)\<close>: the configuration file (\<^verbatim>\<open>daemon/config_file.c\<close>).
  \<^item> \<open>Dtmd_Os\<close>: the calls of the operating system, a parameter; \<open>Dtmd_Mount(_Spec)\<close> and
    \<open>Dtmd_Poweroff(_Spec)\<close>: what the daemon does with them; \<open>Dtmd_Actions(_Spec)\<close>: the commands.
  \<^item> \<open>Dtmd_Daemon(_Spec)\<close>: \<open>main\<close>, from the command line to the shutdown.  A pass of the event loop is
    \<open>loop_step\<close>, whose input \<open>loop_input\<close> is what \<open>poll\<close>, \<open>accept\<close>, the device module and \<open>read\<close>
    return; \<open>main_loop\<close> is the passes for a list of inputs.
  \<^item> \<open>Dtmd_Start\<close>: daemons that are started beside each other, the lock file and the socket.
  \<^item> \<open>Dtmd_Udev(_Spec)\<close>: the device module over libudev (\<^verbatim>\<open>daemon/modules/linux-udev\<close>);
    \<open>Dtmd_Sysfs(_Spec)\<close>, \<open>Dtmd_Uevent(_Spec)\<close>, \<open>Dtmd_Monitors\<close>: the one over \<^verbatim>\<open>/sys\<close> and the kernel's events
    (\<^verbatim>\<open>daemon/modules/unix-userspace\<close>), with its thread; \<open>Dtmd_Source\<close>: what the daemon needs of either.
  \<^item> \<open>Dtmd_Wire\<close>: the format of the messages; \<open>Dtmd_Library\<close>, \<open>Dtmd_Requests(_Spec)\<close>: the client library, its
    requests and its worker; \<open>Dtmd_Handover\<close>: how its two threads share the socket; \<open>Dtmd_Worker_Spec\<close>:
    the announcements; \<open>Dtmd_Lifecycle\<close>: setting up and tearing down a handle and the device system.
  \<^item> \<open>Dtmd_Rebuild\<close>, \<open>Dtmd_Session_Spec\<close>: the daemon and a client together; \<open>Dtmd_Console(_Spec)\<close>: the
    console client (\<^verbatim>\<open>client/console/main.c\<close>) at the end of the chain.
  \<^item> \<open>Dtmd_Cpp(_Spec)\<close>: the C++ interface (\<^verbatim>\<open>library/dtmd-library++.cpp\<close>); \<open>Dtmd_Qt\<close>: the graphical client
    (\<^verbatim>\<open>client/qt/control.cpp\<close>), which keeps a copy of the daemon's tree; \<open>Dtmd_Mirror\<close>: that copy and the
    daemon's tree beside each other.

  \<^bold>\<open>What is proved.\<close>
  \<^item> The state of the daemon stays well formed through the start and all passes of the event loop,
    with any input, and clients can read every device of it when the module behaves as both modules
    do.
  \<^item> The operations on the tree have the stated effect on \<open>nodes\<close> and announce each device once;
    \<open>check_mount_changes\<close> implements "the first entry of the table that names the device".
  \<^item> Mount options refine a map from flags and names to the last word that set them; only words
    without shell characters get in; the printed strings fit their buffers.  The mandatory options that
    are built in set \<open>nodev\<close> and \<open>nosuid\<close>; the configuration can replace them for a filesystem
    (\<^verbatim>\<open>mandatory_mount_opts_\<close>), and then they are what the configuration says.
  \<^item> The configuration: each filesystem has its options once, only options it accepts, and after the
    whole file was read exactly those that its lines give.
  \<^item> Mounting, unmounting and powering off make exactly the stated system calls, only for devices of
    the tree in the right state, and a failed mount ends with the removal of its directory.
  \<^item> End to end: what a client gets from a listing is the daemon's tree; what a client is told of an
    action is what the operation did; an added device reaches the callbacks; the console client
    prints the devices and tells the truth about its actions; the copy of the graphical client mirrors
    the daemon's tree after the notifications of whatever operations of the daemon, but for what the
    daemon does not tell (\<open>remount_untold\<close>).
  \<^item> Reads: neither the daemon nor the client depends on how the text is cut into reads.  A request
    returns once its answer has arrived.
  \<^item> Concurrency: the handover of the socket, the reference counts and queues of the device module,
    and the lock file, as step relations whose invariants are proved over all interleavings.
  \<^item> Where the code does something it cannot mean, the property says what it does: a timeout or a
    signal breaks the handover, a failed enumeration writes through an unset pointer, a full pipe stops both threads, a disc drive on the USB stops the daemon, a refused
    start takes the lock file of the running daemon away.  Smaller ones are lemmas (for example
    \<open>high_escape_never_equal\<close>, \<open>malformed_answer_repeats_result\<close>, \<open>card_partition_not_found\<close>).

  \<^bold>\<open>Parameters.\<close>  Code that is not part of the repository is an argument of the definitions.
  \<^item> \<open>os\<close>: the operating system, functions on a state of any type; the calls that change anything
    are recorded in \<open>syscalls\<close>, except that the rewriting of \<^verbatim>\<open>mtab\<close> only changes the state.  Nothing is
    assumed of them.
  \<^item> \<open>sysfs\<close>, \<open>udev_device\<close> and \<open>udev_props\<close>: the files below \<^verbatim>\<open>/sys\<close> with libblkid, and libudev.  Nothing is
    assumed but what a property names.
  \<^item> \<open>command_parser\<close>: the library that checks and parses a line.  \<open>line_parser\<close> says that it looks at the
    first line only, \<open>protocol_parser\<close> that it reads back what \<^verbatim>\<open>library/dt-print-helpers.h\<close> prints;
    \<open>wire_parser\<close> is a parser with both, and the witnesses use it.

  \<^bold>\<open>Interfaces\<close> are locales, interpreted on the definitions of the model: \<open>enum_words\<close> (the conversions of the
  protocol's words), \<open>option_validator\<close> (the checks of option values), \<open>mount_opts_table\<close> (the two
  tables of the configuration), \<open>guarded_loop\<close> (a loop that keeps an invariant: the event loop),
  \<open>device_source\<close> (a device module: both modules) and \<open>client_request\<close> (the callbacks of a request: all
  seven).

  \<^bold>\<open>Bounds and termination.\<close>  The sizes of the buffers are those of the source: 4096 bytes for the text
  of a client (\<open>dtmd_command_max_length\<close>), for a path (\<open>path_max\<close>) and for reading a file
  (\<open>file_read_buffer\<close>).  The functions are total by structural recursion or by a measure (the bytes
  left in a buffer, the length of a path); the loops that wait for input recurse on the list of
  inputs, and a client's request that has not returned when the list is empty is \<open>None\<close>.  There is no
  fuel.  The step relation of the device module's thread has the capacity of a pipe as a
  parameter, and the properties hold for each.

  \<^bold>\<open>Not modelled.\<close>
  \<^item> The FreeBSD branches of the conditional compilation, and the mount programs left out at build
    time: the model is the Linux build with the external mount programs enabled.
  \<^item> Of becoming a daemon the two calls of \<open>fork\<close>, the pipe on which the parent waits, signal handlers
    and the standard descriptors; a signal is an input of the loops it ends.
  \<^item> Freeing memory where nothing can be observed of it, and \<open>NULL\<close> handles given to the library.
    Reference counts of the device module are modelled, those inside libudev are not.
  \<^item> What memory holds after a failed enumeration of the device system has been freed through a pointer
    that is not set: \<open>corrupted\<close> says that it happened, and nothing is said of the state after that.
  \<^item> In \<open>Dtmd_Monitors\<close> the monitors are there from the start to the end of a run; unlocking the mutex and
    the call of \<open>device_system_free_device\<close> after it are one step; the reference counter, a \<open>uint32_t\<close>, is
    a natural number, so that 2^32 references at once are left out.
  \<^item> The lines that \<open>client_state_callback\<close> prints during a command of the console client other than
    \<^verbatim>\<open>monitor\<close>, which come from another thread and between those of the command.
  \<^item> An error of \<open>read\<close> on a file below \<^verbatim>\<open>/sys\<close> is the end of the file, as it is for the code.
  \<^item> Qt itself: the menu is a list of entries, the texts are strings; \<open>triggeredOpen\<close>, which starts a file
    manager, and the constructor of the graphical client; exceptions of C++.
  \<^item> Logging, which has no state; \<^verbatim>\<open>tools/dtmd-config.c\<close>, which prints build settings; the tests.
\<close>

end
